(* ===== verification/RAN_Prelude.thy ===== *)
theory RAN_Prelude
  imports
    Main
    "HOL-Library.Word"
    "HOL-Library.Signed_Division"
    "HOL-Library.While_Combinator"
    "HOL-Library.Multiset"
begin

unbundle bit_operations_syntax

text \<open>
  Shared material of the development: the types that stand for the C types of the
  sources, the faults a C function can end in, a result type with its sequencing
  operator, bounds-checked array access, C \<open>while\<close> loops, and the generic lemmas on
  lists, sums and sequence-number arithmetic that the component theories share.

  A C \<open>int\<close> is an \<^typ>\<open>int\<close>: signed overflow is undefined in C, and every such value of
  the sources is a sequence number, a byte count bounded by a configured buffer size, or a
  flag. The unsigned counters and clocks (\<open>uint32_t\<close>, \<open>uint64_t\<close>) are words, so their
  arithmetic wraps as in C. A pair \<open>(char *buffer, int size)\<close> is a byte list of length
  \<open>size\<close>. The C operators \<open>/\<close> and \<open>%\<close> on \<open>int\<close> are \<open>sdiv\<close> and \<open>smod\<close> (truncating).
\<close>

section \<open>Types of the C sources\<close>

type_synonym byte = "8 word"
type_synonym u32 = "32 word"
type_synonym u64 = "64 word"
type_synonym addr = nat

text \<open>
  How a C function can end without returning: \<open>exit(1)\<close>, a failed \<open>AssertFatal\<close> or
  \<open>DevAssert\<close>, a dereference of \<open>NULL\<close>, of freed memory or outside an object, and a loop
  that never ends.
\<close>

datatype fault =
    Exit_fatal
  | Assert_fatal
  | Null_deref
  | Use_after_free
  | Out_of_bounds
  | Infinite_loop

type_synonym 'a res = "fault + 'a"

section \<open>Sequencing of fallible steps\<close>

named_theorems res_simps

primrec res_bind :: "'a res \<Rightarrow> ('a \<Rightarrow> 'b res) \<Rightarrow> 'b res" where
  "res_bind (Inl e) f = Inl e"
| "res_bind (Inr x) f = f x"

lemma res_bind_Inr_iff [res_simps]:
  "res_bind m f = Inr y \<longleftrightarrow> (\<exists>x. m = Inr x \<and> f x = Inr y)"
  by (cases m) auto

lemma res_bind_Inl_iff [res_simps]:
  "res_bind m f = Inl e \<longleftrightarrow> m = Inl e \<or> (\<exists>x. m = Inr x \<and> f x = Inl e)"
  by (cases m) auto

lemma res_bind_assoc [simp]:
  "res_bind (res_bind m f) g = res_bind m (\<lambda>x. res_bind (f x) g)"
  by (cases m) auto

lemma res_bind_Inr_right [simp]: "res_bind m Inr = m"
  by (cases m) auto

lemma res_bind_cong [fundef_cong]:
  "m = m' \<Longrightarrow> (\<And>x. m' = Inr x \<Longrightarrow> f x = g x) \<Longrightarrow> res_bind m f = res_bind m' g"
  by (cases m') auto

section \<open>Bounds-checked arrays\<close>

definition c_index :: "'a list \<Rightarrow> int \<Rightarrow> 'a res" where
  "c_index xs i = (if 0 \<le> i \<and> i < int (length xs) then Inr (xs ! nat i) else Inl Out_of_bounds)"

definition c_store :: "'a list \<Rightarrow> int \<Rightarrow> 'a \<Rightarrow> 'a list res" where
  "c_store xs i v =
     (if 0 \<le> i \<and> i < int (length xs) then Inr (xs[nat i := v]) else Inl Out_of_bounds)"

text \<open>The two sides of a \<open>memcpy\<close>: the bytes read at an offset, the bytes written at one.\<close>

definition c_slice :: "'a list \<Rightarrow> int \<Rightarrow> int \<Rightarrow> 'a list res" where
  "c_slice xs off len =
     (if 0 \<le> off \<and> 0 \<le> len \<and> off + len \<le> int (length xs)
      then Inr (take (nat len) (drop (nat off) xs)) else Inl Out_of_bounds)"

definition c_blit :: "'a list \<Rightarrow> int \<Rightarrow> 'a list \<Rightarrow> 'a list res" where
  "c_blit dst off src =
     (if 0 \<le> off \<and> off + int (length src) \<le> int (length dst)
      then Inr (take (nat off) dst @ src @ drop (nat off + length src) dst)
      else Inl Out_of_bounds)"

lemma c_index_Inr [res_simps]:
  "c_index xs i = Inr v \<longleftrightarrow> 0 \<le> i \<and> i < int (length xs) \<and> v = xs ! nat i"
  by (auto simp: c_index_def)

lemma c_store_Inr [res_simps]:
  "c_store xs i v = Inr ys \<longleftrightarrow> 0 \<le> i \<and> i < int (length xs) \<and> ys = xs[nat i := v]"
  by (auto simp: c_store_def)

lemma c_slice_Inr [res_simps]:
  "c_slice xs off len = Inr ys \<longleftrightarrow>
     0 \<le> off \<and> 0 \<le> len \<and> off + len \<le> int (length xs) \<and> ys = take (nat len) (drop (nat off) xs)"
  by (auto simp: c_slice_def)

lemma c_blit_Inr [res_simps]:
  "c_blit dst off src = Inr ys \<longleftrightarrow>
     0 \<le> off \<and> off + int (length src) \<le> int (length dst)
     \<and> ys = take (nat off) dst @ src @ drop (nat off + length src) dst"
  by (auto simp: c_blit_def)

lemma c_blit_length: "c_blit dst off src = Inr ys \<Longrightarrow> length ys = length dst"
  by (auto simp: c_blit_Inr)

section \<open>C loops\<close>

text \<open>
  \<open>while_res b c s\<close> is the C loop \<open>while (b) c;\<close> on a state \<open>s\<close>. Both the condition and
  the body may end in a fault; a loop that never ends is the fault \<^const>\<open>Infinite_loop\<close>.
  \<open>while_res_unfold\<close> is one turn of the loop, \<open>while_res_total\<close> is total correctness by
  an invariant and a measure, and \<open>while_res_diverges\<close> shows that a loop does not end.
\<close>

definition while_res :: "('s \<Rightarrow> bool res) \<Rightarrow> ('s \<Rightarrow> 's res) \<Rightarrow> 's \<Rightarrow> 's res" where
  "while_res b c s =
     (case while_option (\<lambda>r. case r of Inl e \<Rightarrow> False | Inr t \<Rightarrow> b t = Inr True)
             (\<lambda>r. res_bind r c) (Inr s) of
        None \<Rightarrow> Inl Infinite_loop
      | Some r \<Rightarrow> res_bind r (\<lambda>t. res_bind (b t) (\<lambda>_. Inr t)))"

lemma while_res_unfold:
  "while_res b c s =
     res_bind (b s) (\<lambda>x. if x then res_bind (c s) (while_res b c) else Inr s)"
proof (cases "b s")
  case (Inl e)
  then show ?thesis by (simp add: while_res_def while_option_unfold)
next
  case (Inr x)
  show ?thesis
  proof (cases x)
    case True
    with Inr have "while_res b c s =
      (case while_option (\<lambda>r. case r of Inl e \<Rightarrow> False | Inr t \<Rightarrow> b t = Inr True)
             (\<lambda>r. res_bind r c) (c s) of
        None \<Rightarrow> Inl Infinite_loop
      | Some r \<Rightarrow> res_bind r (\<lambda>t. res_bind (b t) (\<lambda>_. Inr t)))"
      by (simp add: while_res_def while_option_unfold [of _ _ "Inr s"])
    with True Inr show ?thesis
      by (cases "c s") (simp_all add: while_res_def while_option_unfold [of _ _ "Inl _"])
  next
    case False
    with Inr show ?thesis by (simp add: while_res_def while_option_unfold)
  qed
qed

lemma while_res_total:
  assumes "P s"
    and "\<And>t. P t \<Longrightarrow> \<exists>x. b t = Inr x"
    and "\<And>t. P t \<Longrightarrow> b t = Inr True \<Longrightarrow> \<exists>t'. c t = Inr t' \<and> P t' \<and> (f t' :: nat) < f t"
  shows "\<exists>t. while_res b c s = Inr t \<and> P t \<and> b t = Inr False"
  using assms(1)
proof (induction "f s" arbitrary: s rule: less_induct)
  case less
  obtain x where x: "b s = Inr x" using assms(2) [OF less.prems] by blast
  show ?case
  proof (cases x)
    case True
    with x have bs: "b s = Inr True" by simp
    then obtain t' where t': "c s = Inr t'" "P t'" "f t' < f s"
      using assms(3) [OF less.prems] by blast
    then show ?thesis
      using less.hyps [OF t'(3,2)] bs by (subst while_res_unfold) simp
  next
    case False
    with x less.prems show ?thesis by (subst while_res_unfold) simp
  qed
qed

lemma while_res_inv:
  assumes res: "while_res b c s = Inr t" and "P s"
    and "\<And>u u'. P u \<Longrightarrow> b u = Inr True \<Longrightarrow> c u = Inr u' \<Longrightarrow> P u'"
  shows "P t \<and> b t = Inr False"
proof -
  let ?b = "\<lambda>r. case r of Inl e \<Rightarrow> False | Inr t \<Rightarrow> b t = Inr True"
  let ?P = "\<lambda>r. case r of Inl e \<Rightarrow> True | Inr t \<Rightarrow> P t"
  from res obtain r where r: "while_option ?b (\<lambda>r. res_bind r c) (Inr s) = Some r"
      and t: "res_bind r (\<lambda>t. res_bind (b t) (\<lambda>_. Inr t)) = Inr t"
    by (auto simp: while_res_def split: option.splits)
  have "?P r"
    by (rule while_option_rule [OF _ r, where P = ?P])
      (auto split: sum.splits simp: res_simps intro: assms(2,3))
  moreover have "\<not> ?b r" using r by (rule while_option_stop)
  moreover from t have "r = Inr t" and "\<exists>x. b t = Inr x" by (auto simp: res_simps)
  ultimately show ?thesis by auto
qed

lemma while_res_diverges:
  assumes "P s"
    and "\<And>t. P t \<Longrightarrow> b t = Inr True"
    and "\<And>t. P t \<Longrightarrow> \<exists>t'. c t = Inr t' \<and> P t'"
  shows "while_res b c s = Inl Infinite_loop"
proof -
  let ?b = "\<lambda>r. case r of Inl e \<Rightarrow> False | Inr t \<Rightarrow> b t = Inr True"
  let ?P = "\<lambda>r. case r of Inl e \<Rightarrow> False | Inr t \<Rightarrow> P t"
  have "while_option ?b (\<lambda>r. res_bind r c) (Inr s) = None"
  proof (rule ccontr)
    assume "\<not> ?thesis"
    then obtain r where r: "while_option ?b (\<lambda>r. res_bind r c) (Inr s) = Some r" by blast
    have "?P r"
      by (rule while_option_rule [OF _ r, where P = ?P])
        (use assms in \<open>fastforce split: sum.splits\<close>)+
    moreover have "\<not> ?b r" using r by (rule while_option_stop)
    ultimately show False using assms(2) by (auto split: sum.splits)
  qed
  then show ?thesis by (simp add: while_res_def)
qed

section \<open>Lists\<close>

text \<open>Dropping a prefix is filtering, when the property is inherited by earlier elements.\<close>

lemma dropWhile_eq_filter:
  "sorted_wrt (\<lambda>x y. P y \<longrightarrow> P x) l \<Longrightarrow> dropWhile P l = filter (\<lambda>x. \<not> P x) l"
  by (induction l) (auto simp: filter_id_conv [THEN iffD2, symmetric] intro: filter_True [symmetric])

lemma takeWhile_eq_filter:
  "sorted_wrt (\<lambda>x y. P y \<longrightarrow> P x) l \<Longrightarrow> takeWhile P l = filter P l"
  by (induction l) (auto simp: filter_empty_conv)

lemma dropWhile_hd_filter:
  "filter P l \<noteq> [] \<Longrightarrow> \<exists>r. dropWhile (\<lambda>x. \<not> P x) l = hd (filter P l) # r"
  by (induction l) auto

lemma sum_list_filter_split:
  "(\<Sum>x\<leftarrow>filter P l. f x) + (\<Sum>x\<leftarrow>filter (\<lambda>x. \<not> P x) l. f x) = (\<Sum>x\<leftarrow>l. f x)"
  for f :: "'a \<Rightarrow> int"
  by (induction l) auto

section \<open>Modular arithmetic\<close>

text \<open>The truncating remainder of C agrees with \<open>mod\<close> on the values the sources take it of.\<close>

lemma smod_eq_mod [simp]: "0 \<le> a \<Longrightarrow> 0 < m \<Longrightarrow> a smod m = a mod m" for a m :: int
  by (simp add: smod_int_alt_def sgn_if)

lemma mod_once: "n \<le> a \<Longrightarrow> a < 2 * n \<Longrightarrow> a mod n = a - n" for a n :: int
proof -
  assume "n \<le> a" "a < 2 * n"
  then have "(a - n) mod n = a - n" by (intro mod_pos_pos_trivial) simp_all
  then show ?thesis by simp
qed

lemma mod_add_cancel_bounded:
  fixes a b c n :: int
  assumes "(c + a) mod n = (c + b) mod n" "0 \<le> a" "a < n" "0 \<le> b" "b < n"
  shows "a = b"
proof -
  from assms(1) have "(c + a - c) mod n = (c + b - c) mod n"
    by (rule mod_diff_cong) simp
  with assms(2-) show ?thesis by simp
qed

end
