(* ===== verification/PDCP_Sdu.thy ===== *)
theory PDCP_Sdu
  imports RAN_Prelude
begin

text \<open>
  The SDUs a PDCP entity stores until they can be delivered in order
  (\<open>nr_pdcp_sdu.c\<close>, \<open>nr_pdcp_sdu.h\<close>, \<open>nr_pdcp_integrity_data.h\<close>): a list sorted by COUNT,
  the 32-bit number made of the hyper frame number and the sequence number.
  The lemmas show that insertion keeps the list strictly sorted and adds exactly one SDU.
\<close>

record nr_pdcp_integrity_data =
  mi_count :: u32
  mi_mac :: "byte list"
  mi_header_size :: int
  mi_header :: "byte list"

record nr_pdcp_sdu =
  sdu_count :: u32
  sdu_buffer :: "byte list"
  sdu_size :: int
  sdu_integrity :: nr_pdcp_integrity_data

definition nr_pdcp_new_sdu :: "u32 \<Rightarrow> byte list \<Rightarrow> nr_pdcp_integrity_data \<Rightarrow> nr_pdcp_sdu" where
  "nr_pdcp_new_sdu cnt buffer msg_integrity =
     \<lparr>sdu_count = cnt, sdu_buffer = buffer, sdu_size = int (length buffer), sdu_integrity = msg_integrity\<rparr>"

fun nr_pdcp_sdu_list_add :: "nr_pdcp_sdu list \<Rightarrow> nr_pdcp_sdu \<Rightarrow> nr_pdcp_sdu list" where
  "nr_pdcp_sdu_list_add [] sdu = [sdu]"
| "nr_pdcp_sdu_list_add (cur # l) sdu =
     (if sdu_count sdu < sdu_count cur then sdu # cur # l else cur # nr_pdcp_sdu_list_add l sdu)"

fun nr_pdcp_sdu_in_list :: "nr_pdcp_sdu list \<Rightarrow> u32 \<Rightarrow> bool" where
  "nr_pdcp_sdu_in_list [] cnt = False"
| "nr_pdcp_sdu_in_list (cur # l) cnt = (sdu_count cur = cnt \<or> nr_pdcp_sdu_in_list l cnt)"

section \<open>The sorted list\<close>

definition counts :: "nr_pdcp_sdu list \<Rightarrow> u32 list" where
  "counts l = map sdu_count l"

lemma counts_simps [simp]:
  "counts [] = []" "counts (x # l) = sdu_count x # counts l" "counts (l @ l') = counts l @ counts l'"
  "length (counts l) = length l"
  by (simp_all add: counts_def)

lemma sdu_in_list_iff [simp]: "nr_pdcp_sdu_in_list l c \<longleftrightarrow> c \<in> set (counts l)"
  by (induction l) auto

lemma mset_sdu_list_add [simp]: "mset (nr_pdcp_sdu_list_add l sdu) = add_mset sdu (mset l)"
  by (induction l) auto

lemma set_sdu_list_add [simp]: "set (nr_pdcp_sdu_list_add l sdu) = insert sdu (set l)"
  by (induction l) auto

lemma set_counts_add [simp]: "set (counts (nr_pdcp_sdu_list_add l sdu)) = insert (sdu_count sdu) (set (counts l))"
  by (simp add: counts_def)

lemma sdu_list_add_sorted:
  assumes "sorted_wrt (<) (counts l)" "sdu_count sdu \<notin> set (counts l)"
  shows "sorted_wrt (<) (counts (nr_pdcp_sdu_list_add l sdu))"
  using assms
proof (induction l)
  case (Cons x l)
  show ?case
  proof (cases "sdu_count sdu < sdu_count x")
    case True
    then show ?thesis using Cons.prems by (auto intro: less_trans)
  next
    case False
    then have "sdu_count x < sdu_count sdu" using Cons.prems(2) by auto
    then show ?thesis using Cons False by auto
  qed
qed simp

lemma sum_size_add [simp]:
  "sum_list (map sdu_size (nr_pdcp_sdu_list_add l sdu)) = sdu_size sdu + sum_list (map sdu_size l)"
  by (induction l) auto

lemma length_add [simp]: "length (nr_pdcp_sdu_list_add l sdu) = Suc (length l)"
  by (induction l) auto

end
