(* ===== verification/Snow3G.thy ===== *)
theory Snow3G
  imports Snow3G_Tables
begin

unbundle bit_operations_syntax

text \<open>
  The stream cipher SNOW 3G of \<open>openair3/SECU/snow3g.c\<close>, on which the ciphering algorithm
  128-NEA1 and the integrity algorithm 128-NIA1 of PDCP are built.

  \<^item> The state \<open>snow3g\<close> is the C \<open>snow3g_t\<close>: a shift register kept twice in an array of 32
    words, the position \<open>s_at\<close> of its first word (the C pointer \<open>s\<close>), and three registers.
  \<^item> \<open>lfsr_init\<close>, \<open>lfsr_keystream\<close>, \<open>clock_fsm\<close>, \<open>snow3g_init\<close> and
    \<open>generate_keystream_step\<close> are the C functions of the same names.
  \<^item> \<open>snow3g_ciphering\<close> and \<open>snow3g_integrity\<close> are the two entry points; the second uses a
    table of multiples (\<open>mul_p\<close>) in the field of \<open>2 ^ 64\<close> elements.

  A local array that C leaves uninitialised is an argument of the model, and the results
  below hold whatever it contains.
\<close>

section \<open>The two S-boxes and the feedback\<close>

definition s1 :: "u32 \<Rightarrow> u32" where
  "s1 w = (let w0 = drop_bit 24 w AND 0xff; w1 = drop_bit 16 w AND 0xff;
               w2 = drop_bit 8 w AND 0xff; w3 = w AND 0xff
           in s1_t0 ! unat w3 XOR s1_t1 ! unat w2 XOR s1_t2 ! unat w1 XOR s1_t3 ! unat w0)"

definition s2 :: "u32 \<Rightarrow> u32" where
  "s2 w = (let w0 = drop_bit 24 w AND 0xff; w1 = drop_bit 16 w AND 0xff;
               w2 = drop_bit 8 w AND 0xff; w3 = w AND 0xff
           in s2_t0 ! unat w3 XOR s2_t1 ! unat w2 XOR s2_t2 ! unat w1 XOR s2_t3 ! unat w0)"

definition MULa :: "u32 \<Rightarrow> u32" where
  "MULa c = mula ! unat c"

definition DIVa :: "u32 \<Rightarrow> u32" where
  "DIVa c = diva ! unat c"

section \<open>The state machine\<close>

record snow3g =
  s_mem :: "u32 list"
  s_at :: nat
  r1 :: u32
  r2 :: u32
  r3 :: u32

definition s_word :: "snow3g \<Rightarrow> nat \<Rightarrow> u32" where
  "s_word s i = s_mem s ! (s_at s + i)"

text \<open>The word fed back into the register, without the output of the state machine.\<close>

definition feedback :: "u32 \<Rightarrow> u32 \<Rightarrow> u32 \<Rightarrow> u32" where
  "feedback s0 s2w s11 =
     (let s0_0 = drop_bit 24 s0 AND 0xff; s0_1 = drop_bit 16 s0 AND 0xff;
          s0_2 = drop_bit 8 s0 AND 0xff; s0_3 = s0 AND 0xff;
          s11_0 = drop_bit 24 s11 AND 0xff; s11_1 = drop_bit 16 s11 AND 0xff;
          s11_2 = drop_bit 8 s11 AND 0xff; s11_3 = s11 AND 0xff;
          v0 = push_bit 24 s0_1 OR push_bit 16 s0_2 OR push_bit 8 s0_3;
          v11 = push_bit 16 s11_0 OR push_bit 8 s11_1 OR s11_2
      in v0 XOR MULa s0_0 XOR s2w XOR v11 XOR DIVa s11_3)"

text \<open>
  The new word \<open>v\<close> overwrites the first one and its copy 16 words further, and the register
  starts one word further, or at the beginning again.
\<close>

definition lfsr_push :: "snow3g \<Rightarrow> u32 \<Rightarrow> snow3g" where
  "lfsr_push s v =
     (let m = (s_mem s)[s_at s := v, s_at s + 16 := v]; p = s_at s + 1
      in s\<lparr>s_mem := m, s_at := if p = 16 then 0 else p\<rparr>)"

definition lfsr_init :: "snow3g \<Rightarrow> u32 \<Rightarrow> snow3g" where
  "lfsr_init s f = lfsr_push s (feedback (s_word s 0) (s_word s 2) (s_word s 11) XOR f)"

definition lfsr_keystream :: "snow3g \<Rightarrow> snow3g" where
  "lfsr_keystream s = lfsr_push s (feedback (s_word s 0) (s_word s 2) (s_word s 11))"

definition clock_fsm :: "snow3g \<Rightarrow> u32 \<times> snow3g" where
  "clock_fsm s =
     (let f = (s_word s 15 + r1 s) XOR r2 s; r = r2 s + (r3 s XOR s_word s 5)
      in (f, s\<lparr>r3 := s2 (r2 s), r2 := s1 (r1 s), r1 := r\<rparr>))"

definition GET32 :: "byte list \<Rightarrow> nat \<Rightarrow> u32" where
  "GET32 b i = push_bit 24 (ucast (b ! i)) OR push_bit 16 (ucast (b ! (i + 1)))
     OR push_bit 8 (ucast (b ! (i + 2))) OR ucast (b ! (i + 3))"

definition init_register :: "u32 list \<Rightarrow> u32 list \<Rightarrow> u32 list" where
  "init_register k iv =
     [k ! 0 XOR 0xffffffff, k ! 1 XOR 0xffffffff, k ! 2 XOR 0xffffffff, k ! 3 XOR 0xffffffff,
      k ! 0, k ! 1, k ! 2, k ! 3,
      k ! 0 XOR 0xffffffff, k ! 1 XOR 0xffffffff XOR iv ! 3, k ! 2 XOR 0xffffffff XOR iv ! 2,
      k ! 3 XOR 0xffffffff, k ! 0 XOR iv ! 1, k ! 1, k ! 2, k ! 3 XOR iv ! 0]"

fun init_rounds :: "nat \<Rightarrow> snow3g \<Rightarrow> snow3g" where
  "init_rounds 0 s = s"
| "init_rounds (Suc n) s = (let (f, s) = clock_fsm s in init_rounds n (lfsr_init s f))"

definition snow3g_init :: "snow3g \<Rightarrow> byte list \<Rightarrow> byte list \<Rightarrow> snow3g" where
  "snow3g_init s k iv =
     (let k = map (\<lambda>i. GET32 k (i * 4)) [0..<4]; iv = map (\<lambda>i. GET32 iv (i * 4)) [0..<4];
          s = s\<lparr>s_mem := init_register k iv @ drop 16 (s_mem s), s_at := 0, r1 := 0, r2 := 0, r3 := 0\<rparr>;
          s = init_rounds 32 s;
          (_, s) = clock_fsm s
      in lfsr_keystream s)"

definition generate_keystream_step :: "snow3g \<Rightarrow> u32 \<times> snow3g" where
  "generate_keystream_step s =
     (let (f, s) = clock_fsm s; ret = f XOR s_word s 0 in (ret, lfsr_keystream s))"

fun keystream_words :: "nat \<Rightarrow> snow3g \<Rightarrow> u32 list \<times> snow3g" where
  "keystream_words 0 s = ([], s)"
| "keystream_words (Suc n) s =
     (let (w, s) = generate_keystream_step s; (ws, s) = keystream_words n s in (w # ws, s))"

section \<open>Ciphering\<close>

text \<open>A word in network byte order, and the reordering of the key.\<close>

definition be32 :: "u32 \<Rightarrow> byte list" where
  "be32 w = [ucast (drop_bit 24 w AND 0xff), ucast (drop_bit 16 w AND 0xff),
             ucast (drop_bit 8 w AND 0xff), ucast (w AND 0xff)]"

definition snow_key :: "byte list \<Rightarrow> byte list" where
  "snow_key key = map (\<lambda>i. key ! i) [12, 13, 14, 15, 8, 9, 10, 11, 4, 5, 6, 7, 0, 1, 2, 3]"

definition cipher_iv :: "u32 \<Rightarrow> byte \<Rightarrow> byte \<Rightarrow> byte list" where
  "cipher_iv cnt bearer direction =
     (let b = push_bit 3 bearer OR push_bit 2 direction
      in [b, 0, 0, 0] @ be32 cnt @ [b, 0, 0, 0] @ be32 cnt)"

definition snow3g_ciphering :: "snow3g \<Rightarrow> u32 \<Rightarrow> byte \<Rightarrow> byte \<Rightarrow> byte list \<Rightarrow> byte list \<Rightarrow> byte list" where
  "snow3g_ciphering s cnt bearer direction key msg =
     (let s = snow3g_init s (snow_key key) (cipher_iv cnt bearer direction);
          keystream_count = (length msg + 3) div 4;
          keystream = concat (map be32 (fst (keystream_words keystream_count s)))
      in map2 (XOR) msg keystream)"

section \<open>Integrity\<close>

definition c_min :: "int \<Rightarrow> int \<Rightarrow> int" where
  "c_min a b = (if a < b then a else b)"

text \<open>
  \<open>GET64 p available\<close> reads \<open>available\<close> bytes at \<open>p\<close>, an offset in the message, most
  significant first and zero-filled to eight; the \<open>switch\<close> has no case for other counts
  and reads nothing.
\<close>

definition get64_byte :: "byte list \<Rightarrow> int \<Rightarrow> int \<Rightarrow> int \<Rightarrow> u64 res" where
  "get64_byte b p available_bytes i =
     (if 1 \<le> available_bytes \<and> available_bytes \<le> 8 \<and> i < available_bytes
      then res_bind (c_index b (p + i)) (\<lambda>x. Inr (ucast x)) else Inr 0)"

definition GET64 :: "byte list \<Rightarrow> int \<Rightarrow> int \<Rightarrow> u64 res" where
  "GET64 m p n =
     res_bind (get64_byte m p n 7) (\<lambda>h. res_bind (get64_byte m p n 6) (\<lambda>g.
     res_bind (get64_byte m p n 5) (\<lambda>f. res_bind (get64_byte m p n 4) (\<lambda>e.
     res_bind (get64_byte m p n 3) (\<lambda>d. res_bind (get64_byte m p n 2) (\<lambda>c.
     res_bind (get64_byte m p n 1) (\<lambda>b. res_bind (get64_byte m p n 0) (\<lambda>a.
       Inr (push_bit 56 a OR push_bit 48 b OR push_bit 40 c OR push_bit 32 d
            OR push_bit 24 e OR push_bit 16 f OR push_bit 8 g OR h)))))))))"

definition MULx64 :: "u64 \<Rightarrow> u64 \<Rightarrow> u64" where
  "MULx64 v c = (if v AND push_bit 63 1 \<noteq> 0 then push_bit 1 v XOR c else push_bit 1 v)"

fun MULxPOW64 :: "u64 \<Rightarrow> nat \<Rightarrow> u64 \<Rightarrow> u64" where
  "MULxPOW64 v 0 c = v"
| "MULxPOW64 v (Suc i) c = MULx64 (MULxPOW64 v i c) c"

definition MUL64 :: "u64 \<Rightarrow> u64 \<Rightarrow> u64 \<Rightarrow> u64" where
  "MUL64 v p c =
     fold (\<lambda>i result. if drop_bit i p AND 1 \<noteq> 0 then result XOR MULxPOW64 v i c else result) [0..<64] 0"

text \<open>The table \<open>pm[8][256]\<close>: reads and writes, and the loops that fill it.\<close>

type_synonym pm_table = "u64 list list"

definition pm_get :: "pm_table \<Rightarrow> nat \<Rightarrow> nat \<Rightarrow> u64" where
  "pm_get pm i j = pm ! i ! j"

definition pm_set :: "pm_table \<Rightarrow> nat \<Rightarrow> nat \<Rightarrow> u64 \<Rightarrow> pm_table" where
  "pm_set pm i j v = pm[i := (pm ! i)[j := v]]"

definition mul_p :: "pm_table \<Rightarrow> u64 \<Rightarrow> u64" where
  "mul_p pm x =
     (let x0 = drop_bit 56 x AND 255; x1 = drop_bit 48 x AND 255; x2 = drop_bit 40 x AND 255;
          x3 = drop_bit 32 x AND 255; x4 = drop_bit 24 x AND 255; x5 = drop_bit 16 x AND 255;
          x6 = drop_bit 8 x AND 255; x7 = x AND 255
      in pm_get pm 0 (unat x7) XOR pm_get pm 1 (unat x6) XOR pm_get pm 2 (unat x5)
         XOR pm_get pm 3 (unat x4) XOR pm_get pm 4 (unat x3) XOR pm_get pm 5 (unat x2)
         XOR pm_get pm 6 (unat x1) XOR pm_get pm 7 (unat x0))"

definition pm_zero :: "pm_table \<Rightarrow> u64 \<Rightarrow> pm_table" where
  "pm_zero pm p = pm_set (fold (\<lambda>i pm. pm_set pm i 0 0) [0..<8] pm) 0 1 p"

definition pm_power_step :: "nat \<Rightarrow> pm_table \<Rightarrow> pm_table" where
  "pm_power_step i pm =
     (let prev = pm_get pm ((i - 1) div 8) (2 ^ ((i - 1) mod 8));
          pm = pm_set pm (i div 8) (2 ^ (i mod 8)) (push_bit 1 prev)
      in if prev AND 0x8000000000000000 \<noteq> 0
         then pm_set pm (i div 8) (2 ^ (i mod 8)) (pm_get pm (i div 8) (2 ^ (i mod 8)) XOR 0x1b)
         else pm)"

definition pm_sum_step :: "nat \<Rightarrow> nat \<Rightarrow> nat \<Rightarrow> pm_table \<Rightarrow> pm_table" where
  "pm_sum_step i j k pm = pm_set pm i (2 ^ j + k) (pm_get pm i (2 ^ j) XOR pm_get pm i k)"

definition pm_fill :: "pm_table \<Rightarrow> u64 \<Rightarrow> pm_table" where
  "pm_fill pm p =
     (let pm = pm_zero pm p; pm = fold pm_power_step [1..<64] pm
      in fold (\<lambda>i. fold (\<lambda>j. fold (pm_sum_step i j) [1..<2 ^ j]) [1..<8]) [0..<8] pm)"

text \<open>The loop over the whole 64-bit blocks of the message, but the last.\<close>

fun eval_blocks :: "nat \<Rightarrow> byte list \<Rightarrow> pm_table \<Rightarrow> nat \<Rightarrow> u64 \<Rightarrow> u64 res" where
  "eval_blocks 0 msg pm i ev = Inr ev"
| "eval_blocks (Suc n) msg pm i ev =
     res_bind (GET64 msg (int i * 8) 8) (\<lambda>m. eval_blocks n msg pm (Suc i) (mul_p pm (ev XOR m)))"

definition integrity_iv :: "u32 \<Rightarrow> u32 \<Rightarrow> byte \<Rightarrow> byte list" where
  "integrity_iv cnt fresh direction =
     (let d = push_bit 7 (direction AND 1)
      in (be32 fresh)[2 := be32 fresh ! 2 XOR d] @ (be32 cnt)[0 := be32 cnt ! 0 XOR d]
         @ be32 fresh @ be32 cnt)"

definition snow3g_integrity_fresh :: "snow3g \<Rightarrow> pm_table \<Rightarrow> u32 \<Rightarrow> u32 \<Rightarrow> byte \<Rightarrow> byte list \<Rightarrow> byte list \<Rightarrow> byte list res" where
  "snow3g_integrity_fresh s pm cnt fresh direction key msg =
     (let s = snow3g_init s (snow_key key) (integrity_iv cnt fresh direction);
          z = fst (keystream_words 5 s);
          len = int (length msg);
          d = (len * 8 + 63) sdiv 64 + 1;
          p = push_bit 32 (ucast (z ! 0)) OR ucast (z ! 1);
          q = push_bit 32 (ucast (z ! 2)) OR ucast (z ! 3);
          otp = z ! 4;
          pm = pm_fill pm p
      in res_bind (eval_blocks (nat (d - 2)) msg pm 0 0) (\<lambda>ev.
         res_bind (GET64 msg ((d - 2) * 8) (c_min 8 (len - (d - 2) * 8))) (\<lambda>m.
         let ev = mul_p pm (ev XOR m);
             ev = ev XOR word_of_int len * 8;
             ev = MUL64 ev q 0x1b;
             ev = drop_bit 32 ev XOR ucast otp
         in Inr [ucast (drop_bit 24 ev AND 0xff), ucast (drop_bit 16 ev AND 0xff),
                 ucast (drop_bit 8 ev AND 0xff), ucast (ev AND 0xff)])))"

definition snow3g_integrity :: "snow3g \<Rightarrow> pm_table \<Rightarrow> u32 \<Rightarrow> byte \<Rightarrow> byte \<Rightarrow> byte list \<Rightarrow> byte list \<Rightarrow> byte list res" where
  "snow3g_integrity s pm cnt bearer direction key msg =
     snow3g_integrity_fresh s pm cnt (push_bit 27 (ucast bearer)) direction key msg"

section \<open>Ciphering is an involution\<close>

lemma length_keystream_words [simp]: "length (fst (keystream_words n s)) = n"
  by (induction n arbitrary: s) (simp_all add: split_beta Let_def)

lemma length_concat_be32 [simp]: "length (concat (map be32 ws)) = 4 * length ws"
  by (induction ws) (simp_all add: be32_def)

lemma map2_xor_twice:
  fixes xs ys :: "'a::ring_bit_operations list"
  shows "length xs \<le> length ys \<Longrightarrow> map2 (XOR) (map2 (XOR) xs ys) ys = xs"
  by (induction xs ys rule: list_induct2') (auto simp: xor.assoc)

lemma length_snow3g_ciphering [simp]: "length (snow3g_ciphering s c b d k m) = length m"
  by (simp add: snow3g_ciphering_def Let_def)

lemma snow3g_ciphering_twice [simp]:
  "snow3g_ciphering s c b d k (snow3g_ciphering s c b d k m) = m"
proof -
  let ?ks = "concat (map be32 (fst (keystream_words ((length m + 3) div 4) (snow3g_init s (snow_key k) (cipher_iv c b d)))))"
  have "snow3g_ciphering s c b d k (map2 (XOR) m ?ks) = map2 (XOR) (map2 (XOR) m ?ks) ?ks"
    by (simp add: snow3g_ciphering_def Let_def)
  also have "\<dots> = m" by (rule map2_xor_twice) simp
  finally show ?thesis by (simp add: snow3g_ciphering_def Let_def)
qed

section \<open>Integrity reads only the message\<close>

lemma GET64_total:
  assumes "0 \<le> p" "1 \<le> n" "n \<le> 8" "p + n \<le> int (length m)"
  shows "\<exists>v. GET64 m p n = Inr v"
proof -
  have "\<exists>v. get64_byte m p n i = Inr v" if "0 \<le> i" for i
    using that assms by (auto simp: get64_byte_def c_index_def)
  from this [of 0] this [of 1] this [of 2] this [of 3] this [of 4] this [of 5] this [of 6] this [of 7]
  show ?thesis unfolding GET64_def by auto
qed

lemma eval_blocks_total:
  "8 * (i + n) \<le> length m \<Longrightarrow> \<exists>v. eval_blocks n m pm i ev = Inr v"
proof (induction n arbitrary: i ev)
  case (Suc n)
  obtain v where "GET64 m (int i * 8) 8 = Inr v"
    using GET64_total [of "int i * 8" 8 m] Suc.prems by auto
  then show ?case using Suc.IH [of "Suc i"] Suc.prems by auto
qed simp

lemma snow3g_integrity_total:
  assumes "m \<noteq> []"
  shows "\<exists>mac. snow3g_integrity_fresh s pm c f dir k m = Inr mac \<and> length mac = 4"
proof -
  let ?n = "int (length m)"
  let ?d = "(?n * 8 + 63) sdiv 64 + 1"
  have d: "?d = (?n * 8 + 63) div 64 + 1" by (simp add: signed_divide_int_def)
  have n: "1 \<le> ?n" using assms by (cases m) auto
  then have d2: "0 \<le> ?d - 2" "(?d - 2) * 8 < ?n" "?n \<le> (?d - 2) * 8 + 8"
    unfolding d by presburger+
  have ev: "\<exists>ev. eval_blocks (nat (?d - 2)) m pm' 0 0 = Inr ev" for pm'
    using eval_blocks_total [of 0 "nat (?d - 2)" m] d2 by simp
  have last: "\<exists>v. GET64 m ((?d - 2) * 8) (c_min 8 (?n - (?d - 2) * 8)) = Inr v"
    using d2 by (intro GET64_total) (auto simp: c_min_def)
  define pm' where "pm' = pm_fill pm (push_bit 32 (ucast (fst (keystream_words 5 (snow3g_init s (snow_key k) (integrity_iv c f dir))) ! 0))
    OR ucast (fst (keystream_words 5 (snow3g_init s (snow_key k) (integrity_iv c f dir))) ! 1))"
  obtain ev v where "eval_blocks (nat (?d - 2)) m pm' 0 0 = Inr ev"
    "GET64 m ((?d - 2) * 8) (c_min 8 (?n - (?d - 2) * 8)) = Inr v"
    using ev last by blast
  then show ?thesis
    unfolding snow3g_integrity_fresh_def Let_def pm'_def [symmetric] by simp
qed

end
