(* ===== verification/PDCP_Security.thy ===== *)
theory PDCP_Security
  imports Snow3G
begin

unbundle bit_operations_syntax

text \<open>
  The ciphering and integrity algorithms behind a PDCP entity.

  \<^item> \<open>openair3/SECU/secu_defs.c\<close> and the \<open>nas_stream_*\<close> files: the dispatch on the algorithm
    (\<open>stream_compute_encrypt\<close>, \<open>stream_compute_integrity\<close>) and the three algorithms.
  \<^item> \<open>nr_pdcp_security_nea1.c\<close>, \<open>nr_pdcp_security_nea2.c\<close>, \<open>nr_pdcp_integrity_nia1.c\<close> and
    \<open>nr_pdcp_integrity_nia2.c\<close>: the functions a PDCP entity calls through its pointers.

  SNOW 3G is in the sources and modelled in \<open>Snow3G\<close>. AES is a library (OpenSSL): its
  counter mode and its CMAC are the fields of the argument \<open>aes\<close>, and \<open>aes_ok\<close> is what the
  library documents of them: counter mode is an involution that keeps lengths, and a CMAC
  has 16 bytes.
\<close>

section \<open>The AES library\<close>

record aes_lib =
  evp_aes_128_ctr :: "byte list \<Rightarrow> byte list \<Rightarrow> byte list \<Rightarrow> byte list"
  evp_cmac :: "byte list \<Rightarrow> byte list \<Rightarrow> byte list"

definition aes_ok :: "aes_lib \<Rightarrow> bool" where
  "aes_ok aes \<longleftrightarrow>
     (\<forall>k iv m. length (evp_aes_128_ctr aes k iv m) = length m
        \<and> evp_aes_128_ctr aes k iv (evp_aes_128_ctr aes k iv m) = m)
     \<and> (\<forall>k m. length (evp_cmac aes k m) = 16)"

text \<open>The bytes of the bit fields of \<open>data_iv8_t\<close> and \<open>data_iv16_t\<close>, on a little-endian machine.\<close>

definition aes_iv_byte :: "byte \<Rightarrow> byte \<Rightarrow> byte" where
  "aes_iv_byte bearer direction = push_bit 3 (bearer AND 31) OR push_bit 2 (direction AND 1)"

definition aes_iv8 :: "u32 \<Rightarrow> byte \<Rightarrow> byte \<Rightarrow> byte list" where
  "aes_iv8 cnt bearer direction = be32 cnt @ [aes_iv_byte bearer direction, 0, 0, 0]"

definition aes_iv16 :: "u32 \<Rightarrow> byte \<Rightarrow> byte \<Rightarrow> byte list" where
  "aes_iv16 cnt bearer direction = be32 cnt @ aes_iv_byte bearer direction # replicate 11 0"

section \<open>The algorithms of \<open>openair3/SECU\<close>\<close>

text \<open>\<open>context\<close> is the 16-byte key the context holds, \<open>None\<close> the null pointer.\<close>

record nas_stream_cipher =
  nsc_context :: "byte list option"
  nsc_count :: u32
  nsc_bearer :: byte
  nsc_direction :: byte
  nsc_message :: "byte list"
  nsc_blength :: u32

definition nsc_key :: "nas_stream_cipher \<Rightarrow> byte list res" where
  "nsc_key c = (case nsc_context c of None \<Rightarrow> Inl Null_deref | Some k \<Rightarrow> Inr k)"

definition uninit_snow3g :: snow3g where
  "uninit_snow3g = \<lparr>s_mem = replicate 32 0, s_at = 0, r1 = 0, r2 = 0, r3 = 0\<rparr>"

definition uninit_pm :: pm_table where
  "uninit_pm = replicate 8 (replicate 256 0)"

definition nas_stream_encrypt_eea0 :: "nas_stream_cipher \<Rightarrow> byte list res" where
  "nas_stream_encrypt_eea0 c = c_slice (nsc_message c) 0 (uint (drop_bit 3 (nsc_blength c + 7)))"

definition nas_stream_encrypt_eea1 :: "nas_stream_cipher \<Rightarrow> byte list res" where
  "nas_stream_encrypt_eea1 c =
     res_bind (nsc_key c) (\<lambda>key.
     res_bind (c_slice (nsc_message c) 0 (uint (nsc_blength c div 8))) (\<lambda>msg.
       Inr (snow3g_ciphering uninit_snow3g (nsc_count c) (nsc_bearer c) (nsc_direction c) key msg)))"

definition nas_stream_encrypt_eea2 :: "aes_lib \<Rightarrow> nas_stream_cipher \<Rightarrow> byte list res" where
  "nas_stream_encrypt_eea2 aes c =
     (if \<not> nsc_bearer c < 32 \<or> \<not> nsc_direction c < 2 \<or> \<not> nsc_blength c > 7 then Inl Assert_fatal
      else res_bind (nsc_key c) (\<lambda>key.
        if nsc_blength c AND 7 \<noteq> 0 then Inl Assert_fatal
        else res_bind (c_slice (nsc_message c) 0 (uint (drop_bit 3 (nsc_blength c)))) (\<lambda>msg.
          Inr (evp_aes_128_ctr aes key (aes_iv16 (nsc_count c) (nsc_bearer c) (nsc_direction c)) msg))))"

definition nas_stream_encrypt_eia1 :: "nas_stream_cipher \<Rightarrow> byte list res" where
  "nas_stream_encrypt_eia1 c =
     res_bind (nsc_key c) (\<lambda>key.
     res_bind (c_slice (nsc_message c) 0 (uint (nsc_blength c div 8))) (\<lambda>msg.
       snow3g_integrity uninit_snow3g uninit_pm (nsc_count c) (nsc_bearer c) (nsc_direction c) key msg))"

definition nas_stream_encrypt_eia2 :: "aes_lib \<Rightarrow> nas_stream_cipher \<Rightarrow> byte list res" where
  "nas_stream_encrypt_eia2 aes c =
     (if \<not> nsc_bearer c < 32 \<or> nsc_blength c AND 7 \<noteq> 0 then Inl Assert_fatal
      else res_bind (nsc_key c) (\<lambda>key.
        res_bind (c_slice (nsc_message c) 0 (uint (drop_bit 3 (nsc_blength c)))) (\<lambda>msg.
          Inr (take 4 (evp_cmac aes key (aes_iv8 (nsc_count c) (nsc_bearer c) (nsc_direction c) @ msg))))))"

text \<open>
  The dispatch. \<open>out\<close> is what the output holds before the call: with \<open>EIA0\<close> nothing is
  written to it.
\<close>

definition stream_compute_integrity :: "aes_lib \<Rightarrow> int \<Rightarrow> nas_stream_cipher \<Rightarrow> byte list \<Rightarrow> byte list res" where
  "stream_compute_integrity aes alg c out =
     (if alg = 0 then Inr out
      else if alg = 1 then nas_stream_encrypt_eia1 c
      else if alg = 2 then nas_stream_encrypt_eia2 aes c
      else Inl Assert_fatal)"

definition stream_compute_encrypt :: "aes_lib \<Rightarrow> int \<Rightarrow> nas_stream_cipher \<Rightarrow> byte list res" where
  "stream_compute_encrypt aes alg c =
     (if alg = 0 then nas_stream_encrypt_eea0 c
      else if alg = 1 then nas_stream_encrypt_eea1 c
      else if alg = 2 then nas_stream_encrypt_eea2 aes c
      else Inl Assert_fatal)"

section \<open>The functions a PDCP entity calls\<close>

text \<open>
  \<open>security_context_t\<close>: \<open>nea1\<close> and the integrity algorithms copy the key into a context of
  their own, \<open>nea2\<close> keeps the pointer it is given, to the ciphering key in the entity.
\<close>

datatype security_context = Key_copy "byte list" | Entity_ciphering_key

definition context_key :: "byte list \<Rightarrow> security_context option \<Rightarrow> byte list option" where
  "context_key entity_key ctx =
     map_option (\<lambda>c. case c of Key_copy k \<Rightarrow> k | Entity_ciphering_key \<Rightarrow> entity_key) ctx"

definition nr_pdcp_security_nea1_init :: "byte list \<Rightarrow> security_context" where
  "nr_pdcp_security_nea1_init ciphering_key = Key_copy (take 16 ciphering_key)"

definition nr_pdcp_security_nea2_init :: security_context where
  "nr_pdcp_security_nea2_init = Entity_ciphering_key"

definition nr_pdcp_integrity_nia1_init :: "byte list \<Rightarrow> security_context" where
  "nr_pdcp_integrity_nia1_init integrity_key = Key_copy (take 16 integrity_key)"

definition nr_pdcp_integrity_nia2_init :: "byte list \<Rightarrow> security_context" where
  "nr_pdcp_integrity_nia2_init integrity_key = Key_copy (take 16 integrity_key)"

definition pdcp_stream_cipher :: "byte list \<Rightarrow> byte list \<Rightarrow> int \<Rightarrow> u32 \<Rightarrow> int \<Rightarrow> nas_stream_cipher" where
  "pdcp_stream_cipher key buffer bearer cnt direction =
     \<lparr>nsc_context = Some key, nsc_count = cnt, nsc_bearer = word_of_int (bearer - 1),
      nsc_direction = word_of_int direction, nsc_message = buffer,
      nsc_blength = word_of_int (int (length buffer) * 8)\<rparr>"

definition nr_pdcp_security_nea1_cipher ::
  "aes_lib \<Rightarrow> byte list option \<Rightarrow> byte list \<Rightarrow> int \<Rightarrow> u32 \<Rightarrow> int \<Rightarrow> byte list res" where
  "nr_pdcp_security_nea1_cipher aes ctx buffer bearer cnt direction =
     (case ctx of None \<Rightarrow> Inl Null_deref
      | Some key \<Rightarrow>
          res_bind (stream_compute_encrypt aes 1 (pdcp_stream_cipher key buffer bearer cnt direction))
            (\<lambda>out. c_slice out 0 (int (length buffer))))"

definition nr_pdcp_security_nea2_cipher ::
  "aes_lib \<Rightarrow> byte list option \<Rightarrow> byte list \<Rightarrow> int \<Rightarrow> u32 \<Rightarrow> int \<Rightarrow> byte list res" where
  "nr_pdcp_security_nea2_cipher aes ctx buffer bearer cnt direction =
     (case ctx of None \<Rightarrow> Inl Assert_fatal
      | Some key \<Rightarrow>
          if \<not> 0 < length buffer \<or> \<not> (bearer > -1 \<and> bearer < 32) \<or> \<not> (direction > -1 \<and> direction < 2)
          then Inl Assert_fatal
          else Inr (evp_aes_128_ctr aes key
                      (aes_iv16 cnt (word_of_int (bearer - 1)) (word_of_int direction)) buffer))"

definition nr_pdcp_integrity_nia1_integrity ::
  "aes_lib \<Rightarrow> byte list option \<Rightarrow> byte list \<Rightarrow> byte list \<Rightarrow> int \<Rightarrow> u32 \<Rightarrow> int \<Rightarrow> byte list res" where
  "nr_pdcp_integrity_nia1_integrity aes ctx out buffer bearer cnt direction =
     (case ctx of None \<Rightarrow> Inl Null_deref
      | Some key \<Rightarrow> stream_compute_integrity aes 1 (pdcp_stream_cipher key buffer bearer cnt direction) out)"

definition nr_pdcp_integrity_nia2_integrity ::
  "aes_lib \<Rightarrow> byte list option \<Rightarrow> byte list \<Rightarrow> byte list \<Rightarrow> int \<Rightarrow> u32 \<Rightarrow> int \<Rightarrow> byte list res" where
  "nr_pdcp_integrity_nia2_integrity aes ctx out buffer bearer cnt direction =
     (case ctx of None \<Rightarrow> Inl Assert_fatal
      | Some key \<Rightarrow>
          if \<not> (bearer > 0 \<and> bearer < 33) then Inl Assert_fatal
          else Inr (take 4 (evp_cmac aes key
                 (aes_iv8 cnt (word_of_int (bearer - 1)) (word_of_int direction) @ buffer))))"

text \<open>The pointers \<open>cipher\<close>, \<open>decipher\<close> and \<open>integrity\<close> of an entity, and the calls through them.\<close>

datatype cipher_function = Nea1_cipher | Nea2_cipher

datatype integrity_function = Nia1_integrity | Nia2_integrity

definition call_cipher ::
  "aes_lib \<Rightarrow> cipher_function option \<Rightarrow> byte list option \<Rightarrow> byte list \<Rightarrow> int \<Rightarrow> u32 \<Rightarrow> int \<Rightarrow> byte list res" where
  "call_cipher aes f ctx buffer bearer cnt direction =
     (case f of None \<Rightarrow> Inl Null_deref
      | Some Nea1_cipher \<Rightarrow> nr_pdcp_security_nea1_cipher aes ctx buffer bearer cnt direction
      | Some Nea2_cipher \<Rightarrow> nr_pdcp_security_nea2_cipher aes ctx buffer bearer cnt direction)"

definition call_integrity ::
  "aes_lib \<Rightarrow> integrity_function option \<Rightarrow> byte list option \<Rightarrow> byte list \<Rightarrow> byte list \<Rightarrow> int \<Rightarrow> u32 \<Rightarrow> int \<Rightarrow> byte list res" where
  "call_integrity aes f ctx out buffer bearer cnt direction =
     (case f of None \<Rightarrow> Inl Null_deref
      | Some Nia1_integrity \<Rightarrow> nr_pdcp_integrity_nia1_integrity aes ctx out buffer bearer cnt direction
      | Some Nia2_integrity \<Rightarrow> nr_pdcp_integrity_nia2_integrity aes ctx out buffer bearer cnt direction)"

section \<open>What the entity relies on\<close>

text \<open>
  A message of at least one byte that the length field of a context can express, a bearer
  between 1 and 32, and a direction. NEA2, unlike the other algorithms, refuses bearer 32.
\<close>

definition cipher_input :: "byte list \<Rightarrow> int \<Rightarrow> int \<Rightarrow> bool" where
  "cipher_input b bearer direction \<longleftrightarrow> b \<noteq> [] \<and> length b < 2 ^ 29 \<and> 0 < bearer \<and> bearer \<le> 32 \<and> direction \<in> {0, 1}"

lemma blength_roundtrip:
  assumes "length b < 2 ^ 29"
  shows "uint ((word_of_nat (length b) :: u32) * 8 div 8) = int (length b)"
proof -
  have "uint (word_of_nat (length b * 8) :: u32) = int (length b * 8)"
    using assms by (simp only: unsigned_of_nat take_bit_eq_mod) (simp add: take_bit_eq_mod)
  then show ?thesis by (simp add: uint_div)
qed

lemma c_slice_all:
  assumes "length b < 2 ^ 29"
  shows "c_slice b 0 (uint ((word_of_nat (length b) :: u32) * 8 div 8)) = Inr b"
  by (simp only: blength_roundtrip [OF assms]) (simp add: c_slice_def)

lemma nea1_cipher:
  assumes "length b < 2 ^ 29"
  shows "nr_pdcp_security_nea1_cipher aes (Some k) b bearer c d
     = Inr (snow3g_ciphering uninit_snow3g c (word_of_int (bearer - 1)) (word_of_int d) k b)"
  unfolding nr_pdcp_security_nea1_cipher_def stream_compute_encrypt_def nas_stream_encrypt_eea1_def
    nsc_key_def pdcp_stream_cipher_def
  by (simp add: c_slice_all [OF assms]) (simp add: c_slice_def)

lemma call_cipher_twice:
  assumes "aes_ok aes" "cipher_input b bearer d" "f = Nea2_cipher \<longrightarrow> bearer < 32"
  shows "\<exists>b'. call_cipher aes (Some f) (Some k) b bearer c d = Inr b' \<and> length b' = length b
     \<and> call_cipher aes (Some f) (Some k) b' bearer c d = Inr b"
proof (cases f)
  case Nea1_cipher
  then show ?thesis using assms(2) by (simp add: call_cipher_def nea1_cipher cipher_input_def)
next
  case Nea2_cipher
  moreover have "0 < length (evp_aes_128_ctr aes k iv b)" for iv
    using assms by (auto simp: cipher_input_def aes_ok_def)
  ultimately show ?thesis
    using assms by (auto simp: call_cipher_def nr_pdcp_security_nea2_cipher_def cipher_input_def aes_ok_def)
qed

lemma call_integrity_total:
  assumes "aes_ok aes" "cipher_input b bearer d"
  shows "\<exists>mac. call_integrity aes (Some f) (Some k) out b bearer c d = Inr mac \<and> length mac = 4"
proof (cases f)
  case Nia1_integrity
  have "c_slice b 0 (uint ((word_of_nat (length b) :: u32) * 8 div 8)) = Inr b"
    using assms(2) by (intro c_slice_all) (simp add: cipher_input_def)
  then show ?thesis
    using Nia1_integrity assms(2) snow3g_integrity_total [of b]
    by (simp add: call_integrity_def nr_pdcp_integrity_nia1_integrity_def stream_compute_integrity_def
        nas_stream_encrypt_eia1_def nsc_key_def pdcp_stream_cipher_def snow3g_integrity_def cipher_input_def)
next
  case Nia2_integrity
  then show ?thesis
    using assms by (auto simp: call_integrity_def nr_pdcp_integrity_nia2_integrity_def cipher_input_def aes_ok_def)
qed

end
