(* ===== verification/PDCP_Entity.thy ===== *)
theory PDCP_Entity
  imports PDCP_Sdu PDCP_Security
begin

unbundle bit_operations_syntax

text \<open>
  A PDCP entity (\<open>nr_pdcp_entity.c\<close>, \<open>nr_pdcp_entity.h\<close>): the transmitter numbers, protects
  and ciphers SDUs, the receiver recovers the COUNT of a PDU from its sequence number, checks
  it, and delivers SDUs in order of COUNT, with a timer to give up on missing ones.

  \<^item> \<open>nr_pdcp_entity\<close> is the C struct; the \<open>uint32_t\<close> and \<open>uint64_t\<close> state variables are words,
    and the flags \<open>has_ciphering\<close>, \<open>has_integrity\<close> and \<open>is_gnb\<close> are booleans.
  \<^item> The callback \<open>deliver_sdu\<close> gets the buffer, the size and the integrity data of an SDU: the
    trace \<open>delivered\<close> holds the SDUs it was called with, in order.
  \<^item> A definition is the C function of the same name; the parts of \<open>recv_pdu\<close> and
    \<open>process_sdu\<close> that the proofs treat on their own are definitions too.
  \<^item> The buffer given to \<open>recv_pdu\<close> is deciphered in place and freed by the caller, so only
    the contents stored in the entity are part of the result.
\<close>

datatype nr_pdcp_entity_type = NR_PDCP_DRB_AM | NR_PDCP_DRB_UM | NR_PDCP_SRB

record nr_pdcp_entity_security_keys_and_algos =
  integrity_algorithm :: int
  ciphering_algorithm :: int
  integrity_key :: "byte list"
  ciphering_key :: "byte list"

record nr_pdcp_count =
  pc_sn :: u32
  pc_hfn :: u32

record nr_pdcp_statistics =
  txpdu_pkts :: u32
  txpdu_bytes :: u32
  txpdu_sn :: u32
  rxpdu_pkts :: u32
  rxpdu_bytes :: u32
  rxpdu_sn :: u32
  rxpdu_dd_pkts :: u32
  rxpdu_dd_bytes :: u32
  txsdu_pkts :: u32
  txsdu_bytes :: u32
  rxsdu_pkts :: u32
  rxsdu_bytes :: u32

record nr_pdcp_entity =
  entity_type :: nr_pdcp_entity_type
  rb_id :: int
  pdusession_id :: int
  has_sdap_rx :: bool
  has_sdap_tx :: bool
  sn_size :: int
  t_reordering :: int
  discard_timer :: int
  sn_max :: int
  window_size :: int
  tx_next :: u32
  rx_next :: u32
  rx_deliv :: u32
  rx_reord :: u32
  t_current :: u64
  t_log_pdu_discard :: u64
  pdu_discarded :: int
  t_reordering_start :: u64
  has_ciphering :: bool
  has_integrity :: bool
  security_keys_and_algos :: nr_pdcp_entity_security_keys_and_algos
  security_context :: "security_context option"
  cipher :: "cipher_function option"
  decipher :: "cipher_function option"
  free_security :: bool
  integrity_context :: "security_context option"
  integrity :: "integrity_function option"
  free_integrity :: bool
  is_gnb :: bool
  rx_list :: "nr_pdcp_sdu list"
  rx_size :: int
  stats :: nr_pdcp_statistics
  entity_suspended :: bool
  delivered :: "nr_pdcp_sdu list"

definition nr_max_pdcp_pdu_size :: "int \<Rightarrow> int" where
  "nr_max_pdcp_pdu_size size' = size' + 3 + 4"

section \<open>Reception\<close>

definition header_size :: "nr_pdcp_entity \<Rightarrow> int" where
  "header_size e = (if sn_size e = 12 then 2 else 3)"

definition integrity_size :: "nr_pdcp_entity \<Rightarrow> int" where
  "integrity_size e = (if has_integrity e \<or> entity_type e = NR_PDCP_SRB then 4 else 0)"

definition sdap_rx_size :: "nr_pdcp_entity \<Rightarrow> int" where
  "sdap_rx_size e = (if has_sdap_rx e then 1 else 0)"

definition rcvd_sn :: "nr_pdcp_entity \<Rightarrow> byte list \<Rightarrow> int res" where
  "rcvd_sn e buffer =
     (if sn_size e = 12
      then res_bind (c_index buffer 0) (\<lambda>b0. res_bind (c_index buffer 1) (\<lambda>b1.
             Inr (push_bit 8 (uint (b0 AND 0xf)) OR uint b1)))
      else res_bind (c_index buffer 0) (\<lambda>b0. res_bind (c_index buffer 1) (\<lambda>b1. res_bind (c_index buffer 2) (\<lambda>b2.
             Inr (push_bit 16 (uint (b0 AND 0x3)) OR push_bit 8 (uint b1) OR uint b2)))))"

definition rcvd_count :: "nr_pdcp_entity \<Rightarrow> int \<Rightarrow> u32" where
  "rcvd_count e sn =
     (let rx_deliv_sn = uint (rx_deliv e AND word_of_int (sn_max e));
          rx_deliv_hfn = drop_bit (nat (sn_size e)) (rx_deliv e);
          rcvd_hfn = (if sn < rx_deliv_sn - window_size e then rx_deliv_hfn + 1
                      else if sn \<ge> rx_deliv_sn + window_size e then rx_deliv_hfn - 1
                      else rx_deliv_hfn)
      in push_bit (nat (sn_size e)) rcvd_hfn OR word_of_int sn)"

definition no_integrity_data :: nr_pdcp_integrity_data where
  "no_integrity_data = \<lparr>mi_count = 0, mi_mac = [0, 0, 0, 0], mi_header_size = 0, mi_header = [0, 0, 0]\<rparr>"

definition msg_integrity :: "nr_pdcp_entity \<Rightarrow> byte list \<Rightarrow> u32 \<Rightarrow> nr_pdcp_integrity_data res" where
  "msg_integrity e buffer cnt =
     (if has_integrity e \<or> entity_type e = NR_PDCP_SRB
      then res_bind (c_slice buffer (int (length buffer) - 4) 4) (\<lambda>mac.
           res_bind (c_slice buffer 0 (header_size e)) (\<lambda>hd.
           res_bind (c_blit [0, 0, 0] 0 hd) (\<lambda>header.
             Inr \<lparr>mi_count = cnt, mi_mac = mac, mi_header_size = header_size e, mi_header = header\<rparr>)))
      else Inr no_integrity_data)"

definition entity_cipher_key :: "nr_pdcp_entity \<Rightarrow> byte list option" where
  "entity_cipher_key e = context_key (ciphering_key (security_keys_and_algos e)) (security_context e)"

definition entity_integrity_key :: "nr_pdcp_entity \<Rightarrow> byte list option" where
  "entity_integrity_key e = context_key (ciphering_key (security_keys_and_algos e)) (integrity_context e)"

definition decipher_pdu :: "aes_lib \<Rightarrow> nr_pdcp_entity \<Rightarrow> byte list \<Rightarrow> u32 \<Rightarrow> byte list res" where
  "decipher_pdu aes e buffer cnt =
     (if has_ciphering e
      then let off = header_size e + sdap_rx_size e
           in res_bind (c_slice buffer off (int (length buffer) - off)) (\<lambda>b.
              res_bind (call_cipher aes (decipher e) (entity_cipher_key e) b (rb_id e) cnt (if is_gnb e then 0 else 1))
                (\<lambda>b. c_blit buffer off b))
      else Inr buffer)"

definition integrity_passes :: "aes_lib \<Rightarrow> nr_pdcp_entity \<Rightarrow> byte list \<Rightarrow> u32 \<Rightarrow> bool res" where
  "integrity_passes aes e buffer cnt =
     (if has_integrity e
      then let n = int (length buffer) - integrity_size e
           in res_bind (c_slice buffer 0 n) (\<lambda>msg.
              res_bind (call_integrity aes (integrity e) (entity_integrity_key e) [0, 0, 0, 0] msg (rb_id e) cnt
                          (if is_gnb e then 0 else 1)) (\<lambda>mac.
              res_bind (c_slice buffer n 4) (\<lambda>rcvd. Inr (mac = rcvd))))
      else Inr True)"

definition with_stats :: "(nr_pdcp_statistics \<Rightarrow> nr_pdcp_statistics) \<Rightarrow> nr_pdcp_entity \<Rightarrow> nr_pdcp_entity" where
  "with_stats f e = e\<lparr>stats := f (stats e)\<rparr>"

definition count_rx_pdu :: "byte list \<Rightarrow> nr_pdcp_statistics \<Rightarrow> nr_pdcp_statistics" where
  "count_rx_pdu buffer st = st\<lparr>rxpdu_pkts := rxpdu_pkts st + 1, rxpdu_bytes := rxpdu_bytes st + of_nat (length buffer)\<rparr>"

definition count_dropped :: "int \<Rightarrow> nr_pdcp_statistics \<Rightarrow> nr_pdcp_statistics" where
  "count_dropped n st = st\<lparr>rxpdu_dd_pkts := rxpdu_dd_pkts st + 1, rxpdu_dd_bytes := rxpdu_dd_bytes st + word_of_int n\<rparr>"

definition count_delivered :: "int \<Rightarrow> nr_pdcp_statistics \<Rightarrow> nr_pdcp_statistics" where
  "count_delivered n st = st\<lparr>txsdu_pkts := txsdu_pkts st + 1, txsdu_bytes := txsdu_bytes st + word_of_int n\<rparr>"

definition discard_duplicate :: "nr_pdcp_entity \<Rightarrow> byte list \<Rightarrow> nr_pdcp_entity" where
  "discard_duplicate e buffer =
     (let e = (if pdu_discarded e \<noteq> 0 \<and> t_current e > t_log_pdu_discard e + 1280
               then e\<lparr>pdu_discarded := 0, t_log_pdu_discard := t_current e\<rparr> else e);
          e = e\<lparr>pdu_discarded := pdu_discarded e + 1\<rparr>
      in with_stats (count_dropped (int (length buffer))) e)"

text \<open>One turn of a delivery loop: the first SDU of the list is delivered and freed.\<close>

definition deliver_head :: "nr_pdcp_sdu \<Rightarrow> nr_pdcp_sdu list \<Rightarrow> nr_pdcp_entity \<Rightarrow> nr_pdcp_entity" where
  "deliver_head cur l e =
     with_stats (count_delivered (sdu_size cur))
       (e\<lparr>delivered := delivered e @ [cur], rx_list := l, rx_size := rx_size e - sdu_size cur\<rparr>)"

text \<open>
  The loop that delivers consecutive SDUs from COUNT \<open>cnt\<close> on; it returns the first COUNT
  not delivered. Its first argument is the list \<open>rx_list\<close> of the entity.
\<close>

fun deliver_from :: "nr_pdcp_sdu list \<Rightarrow> u32 \<Rightarrow> nr_pdcp_entity \<Rightarrow> u32 \<times> nr_pdcp_entity" where
  "deliver_from [] cnt e = (cnt, e)"
| "deliver_from (cur # l) cnt e =
     (if cnt = sdu_count cur then deliver_from l (cnt + 1) (deliver_head cur l e) else (cnt, e))"

definition deliver_in_sequence :: "u32 \<Rightarrow> nr_pdcp_entity \<Rightarrow> nr_pdcp_entity" where
  "deliver_in_sequence cnt e = (let (cnt, e) = deliver_from (rx_list e) cnt e in e\<lparr>rx_deliv := cnt\<rparr>)"

definition update_t_reordering :: "nr_pdcp_entity \<Rightarrow> nr_pdcp_entity" where
  "update_t_reordering e =
     (let e = (if t_reordering_start e \<noteq> 0 \<and> rx_deliv e \<ge> rx_reord e then e\<lparr>t_reordering_start := 0\<rparr> else e)
      in if t_reordering_start e = 0 \<and> rx_deliv e < rx_next e
         then e\<lparr>rx_reord := rx_next e, t_reordering_start := t_current e\<rparr> else e)"

text \<open>The end of \<open>recv_pdu\<close>, for a PDU that has passed every check.\<close>

definition store_sdu :: "nr_pdcp_entity \<Rightarrow> u32 \<Rightarrow> nr_pdcp_sdu \<Rightarrow> int \<Rightarrow> nr_pdcp_entity" where
  "store_sdu e cnt sdu n =
     (let e = e\<lparr>rx_list := nr_pdcp_sdu_list_add (rx_list e) sdu, rx_size := rx_size e + n\<rparr>;
          e = (if cnt \<ge> rx_next e then e\<lparr>rx_next := cnt + 1\<rparr> else e);
          e = (if cnt = rx_deliv e then deliver_in_sequence (rx_deliv e) e else e)
      in update_t_reordering e)"

definition accept_pdu :: "nr_pdcp_entity \<Rightarrow> byte list \<Rightarrow> u32 \<Rightarrow> nr_pdcp_integrity_data \<Rightarrow> nr_pdcp_entity res" where
  "accept_pdu e buffer cnt mi =
     (if cnt < rx_deliv e \<or> nr_pdcp_sdu_in_list (rx_list e) cnt then Inr (discard_duplicate e buffer)
      else let n = int (length buffer)
           in res_bind (c_slice buffer (header_size e) (n - header_size e - integrity_size e)) (\<lambda>b.
              Inr (store_sdu e cnt (nr_pdcp_new_sdu cnt b mi) (n - header_size e))))"

definition data_pdu :: "nr_pdcp_entity \<Rightarrow> byte list \<Rightarrow> byte list res" where
  "data_pdu e buffer =
     res_bind (c_index buffer 0) (\<lambda>b0.
       if entity_type e \<noteq> NR_PDCP_SRB \<and> b0 AND 0x80 = 0 then c_store buffer 0 (b0 OR 128) else Inr buffer)"

definition nr_pdcp_entity_recv_pdu :: "aes_lib \<Rightarrow> nr_pdcp_entity \<Rightarrow> byte list \<Rightarrow> nr_pdcp_entity res" where
  "nr_pdcp_entity_recv_pdu aes e buffer =
     (if entity_suspended e then Inr e
      else if int (length buffer) < 1 then Inr e
      else res_bind (data_pdu e buffer) (\<lambda>buffer.
        let e = with_stats (count_rx_pdu buffer) e
        in res_bind (rcvd_sn e buffer) (\<lambda>sn.
        let e = with_stats (\<lambda>st. st\<lparr>rxpdu_sn := word_of_int sn\<rparr>) e
        in if int (length buffer) < header_size e + sdap_rx_size e + integrity_size e + 1
           then Inr (with_stats (count_dropped (int (length buffer))) e)
           else let cnt = rcvd_count e sn
                in res_bind (msg_integrity e buffer cnt) (\<lambda>mi.
                   res_bind (decipher_pdu aes e buffer cnt) (\<lambda>buffer.
                   res_bind (integrity_passes aes e buffer cnt) (\<lambda>ok.
                     if \<not> ok then Inr (with_stats (count_dropped (int (length buffer))) e)
                     else accept_pdu e buffer cnt mi))))))"

section \<open>Transmission\<close>

definition pdcp_header :: "nr_pdcp_entity \<Rightarrow> int \<Rightarrow> byte list" where
  "pdcp_header e sn =
     (let dc_bit = (if entity_type e = NR_PDCP_DRB_AM \<or> entity_type e = NR_PDCP_DRB_UM then 0x80 else 0)
      in if sn_size e = 12 then [word_of_int (dc_bit OR (drop_bit 8 sn AND 0xf)), word_of_int (sn AND 0xff)]
         else [word_of_int (dc_bit OR (drop_bit 16 sn AND 0x3)), word_of_int (drop_bit 8 sn AND 0xff),
               word_of_int (sn AND 0xff)])"

text \<open>The MAC-I that is appended: computed, or zero for an SRB without integrity, or absent.\<close>

definition pdcp_mac :: "aes_lib \<Rightarrow> nr_pdcp_entity \<Rightarrow> byte list \<Rightarrow> u32 \<Rightarrow> byte list res" where
  "pdcp_mac aes e msg cnt =
     (if has_integrity e
      then res_bind (call_integrity aes (integrity e) (entity_integrity_key e) [0, 0, 0, 0] msg (rb_id e) cnt
                       (if is_gnb e then 1 else 0)) (\<lambda>mac. c_slice mac 0 4)
      else if integrity_size e = 4 then Inr [0, 0, 0, 0]
      else Inr [])"

definition cipher_pdu :: "aes_lib \<Rightarrow> nr_pdcp_entity \<Rightarrow> byte list \<Rightarrow> u32 \<Rightarrow> int \<Rightarrow> byte list res" where
  "cipher_pdu aes e buf cnt n =
     (if has_ciphering e
      then let sdap_header_size = (if has_sdap_tx e then 1 else 0)
           in res_bind (c_slice buf (header_size e + sdap_header_size) (n + integrity_size e - sdap_header_size)) (\<lambda>b.
              res_bind (call_cipher aes (cipher e) (entity_cipher_key e) b (rb_id e) cnt (if is_gnb e then 1 else 0))
                (\<lambda>b. c_blit buf (header_size e + sdap_header_size) b))
      else Inr buf)"

text \<open>
  \<open>process_sdu e buffer pdu_buffer\<close>: the value returned, the PDU buffer and the entity after
  the call. The size of the PDU buffer is \<open>pdu_max_size\<close>.
\<close>

definition nr_pdcp_entity_process_sdu ::
  "aes_lib \<Rightarrow> nr_pdcp_entity \<Rightarrow> byte list \<Rightarrow> byte list \<Rightarrow> (int \<times> byte list \<times> nr_pdcp_entity) res" where
  "nr_pdcp_entity_process_sdu aes e buffer pdu_buffer =
     (let n = int (length buffer)
      in if \<not> nr_max_pdcp_pdu_size n \<le> int (length pdu_buffer) then Inl Assert_fatal
      else if entity_suspended e then Inr (-1, pdu_buffer, e)
      else let e = with_stats (\<lambda>st. st\<lparr>rxsdu_pkts := rxsdu_pkts st + 1, rxsdu_bytes := rxsdu_bytes st + word_of_int n\<rparr>) e;
               cnt = tx_next e;
               sn = uint (tx_next e AND word_of_int (sn_max e))
           in res_bind (c_blit pdu_buffer 0 (pdcp_header e sn)) (\<lambda>buf.
              res_bind (c_blit buf (header_size e) buffer) (\<lambda>buf.
              res_bind (c_slice buf 0 (header_size e + n)) (\<lambda>msg.
              res_bind (pdcp_mac aes e msg cnt) (\<lambda>mac.
              res_bind (c_blit buf (header_size e + n) mac) (\<lambda>buf.
              res_bind (cipher_pdu aes e buf cnt n) (\<lambda>buf.
                let ret = header_size e + n + integrity_size e;
                    e = e\<lparr>tx_next := tx_next e + 1\<rparr>;
                    e = with_stats (\<lambda>st. st\<lparr>txpdu_pkts := txpdu_pkts st + 1,
                          txpdu_bytes := txpdu_bytes st + word_of_int ret, txpdu_sn := word_of_int sn\<rparr>) e
                in Inr (ret, buf, e))))))))"

definition nr_pdcp_entity_check_integrity ::
  "aes_lib \<Rightarrow> nr_pdcp_entity \<Rightarrow> byte list \<Rightarrow> nr_pdcp_integrity_data \<Rightarrow> bool res" where
  "nr_pdcp_entity_check_integrity aes e buffer mi =
     (if \<not> has_integrity e then Inr False
      else res_bind (c_slice (mi_header mi) 0 (mi_header_size mi)) (\<lambda>hd.
           res_bind (call_integrity aes (integrity e) (entity_integrity_key e) [0, 0, 0, 0] (hd @ buffer) (rb_id e)
                       (mi_count mi) (if is_gnb e then 0 else 1)) (\<lambda>mac.
             Inr (mac = mi_mac mi))))"

section \<open>Security configuration\<close>

definition set_keys :: "nr_pdcp_entity_security_keys_and_algos \<Rightarrow> nr_pdcp_entity \<Rightarrow> nr_pdcp_entity" where
  "set_keys parameters e =
     (let k = security_keys_and_algos e;
          k = (if integrity_algorithm parameters \<noteq> -1
               then k\<lparr>integrity_algorithm := integrity_algorithm parameters,
                      integrity_key := take 16 (integrity_key parameters)\<rparr> else k);
          k = (if ciphering_algorithm parameters \<noteq> -1
               then k\<lparr>ciphering_algorithm := ciphering_algorithm parameters,
                      ciphering_key := take 16 (ciphering_key parameters)\<rparr> else k)
      in e\<lparr>security_keys_and_algos := k\<rparr>)"

text \<open>\<open>free_integrity\<close> and \<open>free_security\<close> say whether the pointer is set; the calls free the old context.\<close>

definition set_integrity :: "int \<Rightarrow> nr_pdcp_entity \<Rightarrow> nr_pdcp_entity res" where
  "set_integrity alg e =
     (let key = integrity_key (security_keys_and_algos e)
      in if alg = 0 then Inr (e\<lparr>has_integrity := False, free_integrity := False\<rparr>)
         else if alg = -1 then Inr e
         else let e = e\<lparr>has_integrity := True\<rparr>
              in if alg = 2
                 then Inr (e\<lparr>integrity_context := Some (nr_pdcp_integrity_nia2_init key), integrity := Some Nia2_integrity,
                             free_integrity := True\<rparr>)
                 else if alg = 1
                 then Inr (e\<lparr>integrity_context := Some (nr_pdcp_integrity_nia1_init key), integrity := Some Nia1_integrity,
                             free_integrity := True\<rparr>)
                 else Inl Exit_fatal)"

definition set_ciphering :: "int \<Rightarrow> nr_pdcp_entity \<Rightarrow> nr_pdcp_entity res" where
  "set_ciphering alg e =
     (let key = ciphering_key (security_keys_and_algos e)
      in if alg = 0 then Inr (e\<lparr>has_ciphering := False, free_security := False\<rparr>)
         else if alg = -1 then Inr e
         else let e = e\<lparr>has_ciphering := True\<rparr>
              in if alg = 2
                 then Inr (e\<lparr>security_context := Some nr_pdcp_security_nea2_init, cipher := Some Nea2_cipher,
                             decipher := Some Nea2_cipher, free_security := True\<rparr>)
                 else if alg = 1
                 then Inr (e\<lparr>security_context := Some (nr_pdcp_security_nea1_init key), cipher := Some Nea1_cipher,
                             decipher := Some Nea1_cipher, free_security := True\<rparr>)
                 else Inl Exit_fatal)"

definition nr_pdcp_entity_set_security ::
  "nr_pdcp_entity \<Rightarrow> nr_pdcp_entity_security_keys_and_algos \<Rightarrow> nr_pdcp_entity res" where
  "nr_pdcp_entity_set_security e parameters =
     res_bind (set_integrity (integrity_algorithm parameters) (set_keys parameters e))
       (set_ciphering (ciphering_algorithm parameters))"

section \<open>Timer\<close>

fun deliver_below :: "nr_pdcp_sdu list \<Rightarrow> u32 \<Rightarrow> nr_pdcp_entity \<Rightarrow> nr_pdcp_entity" where
  "deliver_below [] reord e = e"
| "deliver_below (cur # l) reord e =
     (if sdu_count cur < reord then deliver_below l reord (deliver_head cur l e) else e)"

definition check_t_reordering :: "nr_pdcp_entity \<Rightarrow> nr_pdcp_entity" where
  "check_t_reordering e =
     (if t_reordering e = -1 then e
      else if t_reordering_start e = 0 \<or> t_current e \<le> t_reordering_start e + word_of_int (t_reordering e) then e
      else let e = e\<lparr>t_reordering_start := 0\<rparr>;
               e = deliver_below (rx_list e) (rx_reord e) e;
               e = deliver_in_sequence (rx_reord e) e
           in if rx_deliv e < rx_next e then e\<lparr>rx_reord := rx_next e, t_reordering_start := t_current e\<rparr> else e)"

definition nr_pdcp_entity_set_time :: "nr_pdcp_entity \<Rightarrow> u64 \<Rightarrow> nr_pdcp_entity" where
  "nr_pdcp_entity_set_time e now = check_t_reordering (e\<lparr>t_current := now\<rparr>)"

section \<open>Suspension, re-establishment, release\<close>

fun deliver_all :: "nr_pdcp_sdu list \<Rightarrow> nr_pdcp_entity \<Rightarrow> nr_pdcp_entity" where
  "deliver_all [] e = e"
| "deliver_all (cur # l) e = deliver_all l (deliver_head cur l e)"

definition deliver_all_sdus :: "nr_pdcp_entity \<Rightarrow> nr_pdcp_entity" where
  "deliver_all_sdus e = deliver_all (rx_list e) e"

definition nr_pdcp_entity_suspend :: "nr_pdcp_entity \<Rightarrow> nr_pdcp_entity" where
  "nr_pdcp_entity_suspend e =
     (let e = e\<lparr>tx_next := 0\<rparr>;
          e = (if t_reordering_start e \<noteq> 0 then deliver_all_sdus (e\<lparr>t_reordering_start := 0\<rparr>) else e)
      in e\<lparr>rx_next := 0, rx_deliv := 0, entity_suspended := True\<rparr>)"

definition free_rx_list :: "nr_pdcp_entity \<Rightarrow> nr_pdcp_entity" where
  "free_rx_list e =
     (let e = fold (\<lambda>cur. with_stats (count_dropped (sdu_size cur))) (rx_list e) e
      in e\<lparr>rx_list := [], rx_size := 0\<rparr>)"

definition nr_pdcp_entity_reestablish_drb_am ::
  "nr_pdcp_entity \<Rightarrow> nr_pdcp_entity_security_keys_and_algos \<Rightarrow> nr_pdcp_entity res" where
  "nr_pdcp_entity_reestablish_drb_am e security_parameters =
     res_bind (nr_pdcp_entity_set_security e security_parameters) (\<lambda>e. Inr (e\<lparr>entity_suspended := False\<rparr>))"

definition nr_pdcp_entity_reestablish_drb_um ::
  "nr_pdcp_entity \<Rightarrow> nr_pdcp_entity_security_keys_and_algos \<Rightarrow> nr_pdcp_entity res" where
  "nr_pdcp_entity_reestablish_drb_um e security_parameters =
     (let e = e\<lparr>tx_next := 0\<rparr>;
          e = (if t_reordering_start e \<noteq> 0 then deliver_all_sdus e else e);
          e = e\<lparr>t_reordering_start := 0, rx_next := 0, rx_deliv := 0\<rparr>
      in res_bind (nr_pdcp_entity_set_security e security_parameters) (\<lambda>e. Inr (e\<lparr>entity_suspended := False\<rparr>)))"

definition nr_pdcp_entity_reestablish_srb ::
  "nr_pdcp_entity \<Rightarrow> nr_pdcp_entity_security_keys_and_algos \<Rightarrow> nr_pdcp_entity res" where
  "nr_pdcp_entity_reestablish_srb e security_parameters =
     (let e = free_rx_list (e\<lparr>tx_next := 0\<rparr>);
          e = e\<lparr>t_reordering_start := 0, rx_next := 0, rx_deliv := 0\<rparr>
      in res_bind (nr_pdcp_entity_set_security e security_parameters) (\<lambda>e. Inr (e\<lparr>entity_suspended := False\<rparr>)))"

text \<open>The call through the pointer \<open>reestablish_entity\<close>, which the constructor sets by the type.\<close>

definition reestablish_entity ::
  "nr_pdcp_entity \<Rightarrow> nr_pdcp_entity_security_keys_and_algos \<Rightarrow> nr_pdcp_entity res" where
  "reestablish_entity e security_parameters =
     (case entity_type e of
        NR_PDCP_DRB_AM \<Rightarrow> nr_pdcp_entity_reestablish_drb_am e security_parameters
      | NR_PDCP_DRB_UM \<Rightarrow> nr_pdcp_entity_reestablish_drb_um e security_parameters
      | NR_PDCP_SRB \<Rightarrow> nr_pdcp_entity_reestablish_srb e security_parameters)"

definition nr_pdcp_entity_release :: "nr_pdcp_entity \<Rightarrow> nr_pdcp_entity" where
  "nr_pdcp_entity_release e = deliver_all_sdus e"

text \<open>The last state of an entity that is deleted, before its memory is freed.\<close>

definition nr_pdcp_entity_delete :: "nr_pdcp_entity \<Rightarrow> nr_pdcp_entity" where
  "nr_pdcp_entity_delete e = (free_rx_list e)\<lparr>security_context := None, integrity_context := None\<rparr>"

definition nr_pdcp_entity_get_stats :: "nr_pdcp_entity \<Rightarrow> nr_pdcp_statistics" where
  "nr_pdcp_entity_get_stats e = stats e"

section \<open>COUNT values\<close>

definition nr_pdcp_entity_get_count_dl :: "nr_pdcp_entity \<Rightarrow> nr_pdcp_count" where
  "nr_pdcp_entity_get_count_dl e =
     \<lparr>pc_sn = rx_deliv e AND word_of_int (sn_max e), pc_hfn = drop_bit (nat (sn_size e)) (rx_deliv e)\<rparr>"

definition nr_pdcp_entity_get_count_ul :: "nr_pdcp_entity \<Rightarrow> nr_pdcp_count" where
  "nr_pdcp_entity_get_count_ul e =
     \<lparr>pc_sn = tx_next e AND word_of_int (sn_max e), pc_hfn = drop_bit (nat (sn_size e)) (tx_next e)\<rparr>"

definition compose_count :: "nr_pdcp_count \<Rightarrow> int \<Rightarrow> u32" where
  "compose_count pdcp_count n =
     push_bit (nat n) (pc_hfn pdcp_count) OR (pc_sn pdcp_count AND (push_bit (nat n) 1 - 1))"

definition nr_pdcp_entity_set_count_dl :: "nr_pdcp_entity \<Rightarrow> nr_pdcp_count \<Rightarrow> int \<Rightarrow> nr_pdcp_entity" where
  "nr_pdcp_entity_set_count_dl e pdcp_count n =
     (let cnt = compose_count pdcp_count n in e\<lparr>rx_next := cnt + 1, rx_deliv := cnt\<rparr>)"

definition nr_pdcp_entity_set_count_ul :: "nr_pdcp_entity \<Rightarrow> nr_pdcp_count \<Rightarrow> int \<Rightarrow> nr_pdcp_entity" where
  "nr_pdcp_entity_set_count_ul e pdcp_count n = e\<lparr>tx_next := compose_count pdcp_count n\<rparr>"

section \<open>Construction\<close>

definition no_statistics :: nr_pdcp_statistics where
  "no_statistics = \<lparr>txpdu_pkts = 0, txpdu_bytes = 0, txpdu_sn = 0, rxpdu_pkts = 0, rxpdu_bytes = 0, rxpdu_sn = 0,
     rxpdu_dd_pkts = 0, rxpdu_dd_bytes = 0, txsdu_pkts = 0, txsdu_bytes = 0, rxsdu_pkts = 0, rxsdu_bytes = 0\<rparr>"

definition no_keys :: nr_pdcp_entity_security_keys_and_algos where
  "no_keys = \<lparr>integrity_algorithm = 0, ciphering_algorithm = 0, integrity_key = replicate 16 0,
     ciphering_key = replicate 16 0\<rparr>"

definition new_nr_pdcp_entity ::
  "nr_pdcp_entity_type \<Rightarrow> bool \<Rightarrow> int \<Rightarrow> int \<Rightarrow> bool \<Rightarrow> bool \<Rightarrow> int \<Rightarrow> int \<Rightarrow> int
   \<Rightarrow> nr_pdcp_entity_security_keys_and_algos \<Rightarrow> nr_pdcp_entity res" where
  "new_nr_pdcp_entity type' gnb rb session sdap_rx sdap_tx n reordering discard security_parameters =
     nr_pdcp_entity_set_security
       \<lparr>entity_type = type', rb_id = rb, pdusession_id = session, has_sdap_rx = sdap_rx, has_sdap_tx = sdap_tx,
        sn_size = n, t_reordering = reordering, discard_timer = discard,
        sn_max = push_bit (nat n) 1 - 1, window_size = push_bit (nat (n - 1)) 1,
        tx_next = 0, rx_next = 0, rx_deliv = 0, rx_reord = 0, t_current = 0, t_log_pdu_discard = 0, pdu_discarded = 0,
        t_reordering_start = 0, has_ciphering = False, has_integrity = False, security_keys_and_algos = no_keys,
        security_context = None, cipher = None, decipher = None, free_security = False,
        integrity_context = None, integrity = None, free_integrity = False, is_gnb = gnb,
        rx_list = [], rx_size = 0, stats = no_statistics, entity_suspended = False, delivered = []\<rparr>
       security_parameters"

end
