(* ===== verification/PDCP_Count.thy ===== *)
theory PDCP_Count
  imports PDCP_Entity
begin

unbundle bit_operations_syntax

text \<open>
  Sequence numbers on the air and the 32-bit COUNT: the header that \<open>process_sdu\<close> writes is
  read back by \<open>recv_pdu\<close>, and the receiver recovers the COUNT of the sender from the
  sequence number as long as the two are less than half a sequence-number space apart.
\<close>

text \<open>The configuration the constructor sets up for the two sequence-number sizes of the standard.\<close>

definition pdcp_config :: "nr_pdcp_entity \<Rightarrow> bool" where
  "pdcp_config e \<longleftrightarrow> (sn_size e = 12 \<or> sn_size e = 18) \<and> sn_max e = 2 ^ nat (sn_size e) - 1
     \<and> window_size e = 2 ^ nat (sn_size e - 1)"

section \<open>The header\<close>

lemma data_pdu_header [simp]: "data_pdu e (pdcp_header e sn @ rest) = Inr (pdcp_header e sn @ rest)"
proof -
  have "bit (word_of_int (128 OR x) :: byte) 7" for x :: int
    by (simp add: bit_word_of_int_iff bit_or_iff)
  moreover have "w AND 128 \<noteq> 0" if "bit w 7" for w :: byte
  proof
    assume "w AND 128 = 0"
    then have "\<not> bit (w AND 128) 7" by simp
    then show False using that by (simp add: bit_and_iff)
  qed
  ultimately have "(word_of_int (128 OR x) :: byte) AND 128 \<noteq> 0" for x :: int by blast
  then show ?thesis
    by (cases "entity_type e") (simp_all add: data_pdu_def pdcp_header_def c_index_def Let_def)
qed

lemma or_take_bits12:
  assumes "0 \<le> sn" "sn < 2 ^ 12"
  shows "push_bit 8 (take_bit 4 (drop_bit 8 sn)) OR take_bit 8 sn = (sn::int)"
proof -
  have "push_bit 8 (take_bit 4 (drop_bit 8 sn)) OR take_bit 8 sn = take_bit 12 sn"
    by (rule bit_eqI) (auto simp: bit_simps)
  then show ?thesis using assms by (simp add: take_bit_int_eq_self)
qed

lemma or_take_bits18:
  assumes "0 \<le> sn" "sn < 2 ^ 18"
  shows "push_bit 16 (take_bit 2 (drop_bit 16 sn)) OR push_bit 8 (take_bit 8 (drop_bit 8 sn)) OR take_bit 8 sn = (sn::int)"
proof -
  have "push_bit 16 (take_bit 2 (drop_bit 16 sn)) OR push_bit 8 (take_bit 8 (drop_bit 8 sn)) OR take_bit 8 sn = take_bit 18 sn"
  proof (rule bit_eqI)
    fix i assume "possible_bit TYPE(int) i"
    show "bit (push_bit 16 (take_bit 2 (drop_bit 16 sn)) OR push_bit 8 (take_bit 8 (drop_bit 8 sn)) OR take_bit 8 sn) i
        \<longleftrightarrow> bit (take_bit 18 sn) i"
      by (cases "16 \<le> i") (auto simp: bit_simps)
  qed
  then show ?thesis using assms by (simp add: take_bit_int_eq_self)
qed

lemma low_bits:
  "x AND 0xff = take_bit 8 x" "x AND 0xf = take_bit 4 x" "x AND 0x3 = take_bit 2 (x::int)"
  "w AND 0xf = take_bit 4 w" "w AND 0x3 = take_bit 2 (w :: byte)"
  by (simp_all add: take_bit_eq_mask mask_eq_exp_minus_1)

lemma rcvd_sn_header:
  assumes "pdcp_config e" "0 \<le> sn" "sn \<le> sn_max e"
  shows "rcvd_sn e (pdcp_header e sn @ rest) = Inr sn"
proof -
  have dc: "take_bit 4 (dc OR x) = take_bit 4 x" "take_bit 2 (dc OR x) = take_bit 2 x" if "dc = 128 \<or> dc = 0" for dc x :: int
    using that by (auto simp: take_bit_or)
  show ?thesis
  proof (cases "sn_size e = 12")
    case True
    then show ?thesis
      using assms or_take_bits12 [of sn]
      by (simp add: rcvd_sn_def pdcp_header_def low_bits c_index_def pdcp_config_def Let_def
          unsigned_take_bit_eq uint_word_of_int_eq dc)
  next
    case False
    then show ?thesis
      using assms or_take_bits18 [of sn]
      by (simp add: rcvd_sn_def pdcp_header_def low_bits c_index_def pdcp_config_def Let_def
          unsigned_take_bit_eq uint_word_of_int_eq dc)
  qed
qed

lemma length_pdcp_header [simp]: "int (length (pdcp_header e sn)) = header_size e"
  by (simp add: pdcp_header_def header_size_def Let_def)

section \<open>The COUNT\<close>

lemma push_bit_or_eq:
  fixes h :: u32
  assumes "0 \<le> sn" "sn < 2 ^ n" "n \<le> 32"
  shows "push_bit n h OR word_of_int sn = word_of_int (uint h * 2 ^ n + sn)"
proof -
  have "push_bit n h AND word_of_int sn = 0"
  proof (rule bit_eqI)
    fix i assume "possible_bit TYPE(u32) i"
    moreover have "bit sn i \<Longrightarrow> i < n"
      using assms(1,2) by (metis bit_take_bit_iff take_bit_int_eq_self)
    ultimately show "bit (push_bit n h AND word_of_int sn) i \<longleftrightarrow> bit (0 :: u32) i"
      by (auto simp: bit_simps)
  qed
  then have "push_bit n h OR word_of_int sn = push_bit n h + word_of_int sn"
    by (simp add: disjunctive_add_eq_or)
  then show ?thesis by (simp add: push_bit_eq_mult)
qed

lemma sn_of_count:
  fixes w :: u32
  assumes "pdcp_config e"
  shows "uint (w AND word_of_int (sn_max e)) = uint w mod 2 ^ nat (sn_size e)"
proof -
  let ?n = "nat (sn_size e)"
  have "sn_max e = mask ?n" using assms by (simp add: pdcp_config_def mask_eq_exp_minus_1)
  then have "w AND word_of_int (sn_max e) = take_bit ?n w"
    by (simp add: take_bit_eq_mask) (simp add: mask_eq_exp_minus_1)
  then show ?thesis by (simp add: take_bit_eq_mod [symmetric] unsigned_take_bit_eq)
qed

lemma rcvd_count_correct:
  assumes conf: "pdcp_config e"
    and low: "uint (rx_deliv e) - window_size e \<le> uint c" and high: "uint c < uint (rx_deliv e) + window_size e"
  shows "rcvd_count e (uint (c AND word_of_int (sn_max e))) = c"
proof -
  define n where "n = nat (sn_size e)"
  define M :: int where "M = 2 ^ n"
  define W :: int where "W = window_size e"
  have n: "n = 12 \<or> n = 18" "W * 2 = M" "0 < W" "n \<le> 32"
    using conf by (auto simp: pdcp_config_def n_def M_def W_def)
  have sn: "uint (w AND word_of_int (sn_max e)) = uint w mod M" for w :: u32
    unfolding M_def n_def by (rule sn_of_count [OF conf])
  have hfn: "uint (drop_bit n (rx_deliv e)) = uint (rx_deliv e) div M"
    by (simp only: M_def unsigned_drop_bit_eq)
      (simp add: drop_bit_eq_div take_bit_int_eq_self uint_lt2p [where ?'a = 32, simplified])
  define C D qC rC qD rD where "C = uint c" and "D = uint (rx_deliv e)" and "qC = C div M" and "rC = C mod M"
    and "qD = D div M" and "rD = D mod M"
  have dm: "C = qC * M + rC" "D = qD * M + rD" by (simp_all add: qC_def rC_def qD_def rD_def)
  have b: "0 \<le> rC" "rC < M" "0 \<le> rD" "rD < M" using n by (simp_all add: rC_def rD_def)
  have lh: "D - W \<le> C" "C < D + W" using low high by (simp_all add: C_def D_def W_def)
  have DM: "drop_bit n (rx_deliv e) = word_of_int qD"
    using hfn unfolding qD_def D_def by (metis word_of_int_uint)
  have *: "push_bit n h OR word_of_int rC = c" if "h = word_of_int qC" for h :: u32
  proof -
    have "push_bit n h OR word_of_int rC = word_of_int (uint h * 2 ^ n + rC)"
      by (rule push_bit_or_eq) (use b n in \<open>simp_all add: M_def\<close>)
    also have "\<dots> = word_of_int qC * word_of_int M + word_of_int rC"
      by (simp add: that M_def)
    also have "\<dots> = word_of_int C" unfolding dm(1) by simp
    finally show ?thesis by (simp add: C_def)
  qed
  have "qC * M < (qD + 2) * M" "(qD - 2) * M < qC * M"
    using dm b lh n(2) by (simp_all add: algebra_simps)
  then have cases: "qC = qD \<or> qC = qD + 1 \<or> qC = qD - 1"
    using n by (simp add: mult_less_cancel_right) linarith
  have "push_bit n (if rC < rD - W then drop_bit n (rx_deliv e) + 1
        else if rD + W \<le> rC then drop_bit n (rx_deliv e) - 1 else drop_bit n (rx_deliv e))
      OR word_of_int rC = c"
    using cases
  proof (elim disjE)
    assume "qC = qD"
    moreover from this have "\<not> rC < rD - W" "\<not> rD + W \<le> rC" using dm lh by simp_all
    ultimately show ?thesis using * [of "drop_bit n (rx_deliv e)"] DM by simp
  next
    assume c: "qC = qD + 1"
    then have "rC < rD - W" using dm lh n(2) by (simp add: algebra_simps)
    then show ?thesis using * [of "drop_bit n (rx_deliv e) + 1"] DM c by simp
  next
    assume c: "qC = qD - 1"
    then have qD: "qD = qC + 1" by simp
    have "rD + W \<le> rC" using dm lh n(2) unfolding qD by (simp add: algebra_simps)
    moreover from this have "\<not> rC < rD - W" using n by linarith
    ultimately show ?thesis using * [of "drop_bit n (rx_deliv e) - 1"] DM c by simp
  qed
  then show ?thesis
    unfolding rcvd_count_def Let_def sn n_def [symmetric] W_def [symmetric] rC_def rD_def C_def D_def by simp
qed

end
