(* ===== verification/PDCP_Rx.thy ===== *)
theory PDCP_Rx
  imports PDCP_Count
begin

text \<open>
  The receiving side of a PDCP entity. \<open>pdcp_rx_inv\<close> says that the reception buffer is
  strictly sorted by COUNT and lies above \<open>rx_deliv\<close>, that a running reordering timer waits
  for something above \<open>rx_deliv\<close>, and that the SDUs delivered so far have strictly increasing
  COUNTs below \<open>rx_deliv\<close> (until COUNT \<open>2 ^ 32 - 1\<close> has been delivered and the 32-bit counter
  wraps). Each operation keeps it.
\<close>

definition in_order :: "nr_pdcp_entity \<Rightarrow> bool" where
  "in_order e \<longleftrightarrow> - 1 \<in> set (counts (delivered e))
     \<or> sorted_wrt (<) (counts (delivered e)) \<and> (\<forall>c\<in>set (counts (delivered e)). c < rx_deliv e)"

definition pdcp_rx_inv :: "nr_pdcp_entity \<Rightarrow> bool" where
  "pdcp_rx_inv e \<longleftrightarrow> sorted_wrt (<) (counts (rx_list e)) \<and> (\<forall>c\<in>set (counts (rx_list e)). rx_deliv e < c)
     \<and> (t_reordering_start e \<noteq> 0 \<longrightarrow> rx_deliv e < rx_reord e) \<and> in_order e"

section \<open>The delivery loops\<close>

text \<open>The entity after the delivery of the SDUs \<open>pre\<close>, when \<open>post\<close> is left.\<close>

definition after_delivery :: "nr_pdcp_sdu list \<Rightarrow> nr_pdcp_sdu list \<Rightarrow> nr_pdcp_entity \<Rightarrow> nr_pdcp_entity" where
  "after_delivery pre post e =
     e\<lparr>rx_list := post, rx_size := rx_size e - sum_list (map sdu_size pre),
       stats := fold (\<lambda>s. count_delivered (sdu_size s)) pre (stats e), delivered := delivered e @ pre\<rparr>"

lemma after_delivery_Nil [simp]: "rx_list e = l \<Longrightarrow> after_delivery [] l e = e"
  by (simp add: after_delivery_def)

lemma after_delivery_Cons: "after_delivery pre post (deliver_head cur l e) = after_delivery (cur # pre) post e"
  by (simp add: after_delivery_def deliver_head_def with_stats_def)

lemma after_delivery_sel [simp]:
  "rx_list (after_delivery pre post e) = post" "delivered (after_delivery pre post e) = delivered e @ pre"
  "rx_deliv (after_delivery pre post e) = rx_deliv e" "rx_next (after_delivery pre post e) = rx_next e"
  "rx_reord (after_delivery pre post e) = rx_reord e" "t_current (after_delivery pre post e) = t_current e"
  "t_reordering_start (after_delivery pre post e) = t_reordering_start e"
  "t_reordering (after_delivery pre post e) = t_reordering e"
  by (simp_all add: after_delivery_def)

lemma deliver_head_list [simp]: "rx_list (deliver_head cur l e) = l"
  by (simp add: deliver_head_def with_stats_def)

lemma less_plus_one: "c < d \<Longrightarrow> c + 1 \<le> d" for c d :: "'a::len word"
  by (simp add: inc_le)

lemma less_plus_one_wrap: "c < c + 1 \<or> c = - 1" for c :: u32
proof -
  have "uint (- 1 :: u32) = 2 ^ LENGTH(32) - 1" by (simp add: unsigned_minus_1_eq_mask mask_eq_exp_minus_1)
  then show ?thesis by uint_arith
qed

lemma deliver_from_ok:
  assumes "rx_list e = l" "sorted_wrt (<) (counts l)" "\<forall>c\<in>set (counts l). cnt \<le> c"
  shows "\<exists>pre post cnt'. deliver_from l cnt e = (cnt', after_delivery pre post e) \<and> l = pre @ post
     \<and> (\<forall>c\<in>set (counts post). cnt' < c) \<and> (- 1 \<in> set (counts pre) \<or> cnt \<le> cnt' \<and> (\<forall>c\<in>set (counts pre). c < cnt'))"
  using assms
proof (induction l arbitrary: cnt e)
  case Nil
  then show ?case by (intro exI [of _ "[]"]) simp
next
  case (Cons x l)
  show ?case
  proof (cases "cnt = sdu_count x")
    case True
    have "\<forall>c\<in>set (counts l). cnt + 1 \<le> c" using Cons.prems(2) True by (auto intro: less_plus_one)
    then obtain pre post cnt' where ih: "deliver_from l (cnt + 1) (deliver_head x l e) = (cnt', after_delivery pre post (deliver_head x l e))"
      "l = pre @ post" "\<forall>c\<in>set (counts post). cnt' < c"
      "- 1 \<in> set (counts pre) \<or> cnt + 1 \<le> cnt' \<and> (\<forall>c\<in>set (counts pre). c < cnt')"
      using Cons.IH [of "deliver_head x l e" "cnt + 1"] Cons.prems by auto
    have "- 1 \<in> set (counts (x # pre)) \<or> cnt \<le> cnt' \<and> (\<forall>c\<in>set (counts (x # pre)). c < cnt')"
      using ih(4) less_plus_one_wrap [of cnt] True by (auto intro: less_le_trans less_imp_le)
    then show ?thesis
      using ih True by (intro exI [of _ "x # pre"] exI [of _ post] exI [of _ cnt']) (simp add: after_delivery_Cons)
  next
    case False
    then have "cnt < sdu_count x" using Cons.prems(3) by (simp add: order_less_le)
    then show ?thesis
      using False Cons.prems by (intro exI [of _ "[]"] exI [of _ "x # l"] exI [of _ cnt]) (auto intro: less_trans)
  qed
qed

lemma deliver_below_ok:
  assumes "rx_list e = l" "sorted_wrt (<) (counts l)"
  shows "\<exists>pre post. deliver_below l reord e = after_delivery pre post e \<and> l = pre @ post
     \<and> (\<forall>c\<in>set (counts pre). c < reord) \<and> (\<forall>c\<in>set (counts post). reord \<le> c)"
  using assms
proof (induction l arbitrary: e)
  case Nil
  then show ?case by (intro exI [of _ "[]"]) simp
next
  case (Cons x l)
  show ?case
  proof (cases "sdu_count x < reord")
    case True
    obtain pre post where "deliver_below l reord (deliver_head x l e) = after_delivery pre post (deliver_head x l e)" "l = pre @ post"
      "\<forall>c\<in>set (counts pre). c < reord" "\<forall>c\<in>set (counts post). reord \<le> c"
      using Cons.IH [of "deliver_head x l e"] Cons.prems by auto
    then show ?thesis
      using True by (intro exI [of _ "x # pre"] exI [of _ post]) (simp add: after_delivery_Cons)
  next
    case False
    then show ?thesis
      using Cons.prems by (intro exI [of _ "[]"] exI [of _ "x # l"]) (auto intro: less_imp_le order_trans)
  qed
qed

lemma deliver_all_ok: "rx_list e = l \<Longrightarrow> deliver_all l e = after_delivery l [] e"
  by (induction l arbitrary: e) (simp_all add: after_delivery_Cons)

text \<open>
  One delivery from COUNT \<open>cnt\<close> on, from a buffer whose SDUs are at or above \<open>cnt\<close> and above
  everything delivered before.
\<close>

lemma deliver_in_sequence_ok:
  assumes "sorted_wrt (<) (counts (rx_list e))" "\<forall>c\<in>set (counts (rx_list e)). cnt \<le> c"
    and "- 1 \<in> set (counts (delivered e)) \<or> sorted_wrt (<) (counts (delivered e)) \<and> (\<forall>c\<in>set (counts (delivered e)). c < cnt)"
  obtains pre post cnt' where "rx_list e = pre @ post"
    "deliver_in_sequence cnt e = (after_delivery pre post e)\<lparr>rx_deliv := cnt'\<rparr>"
    "\<forall>c\<in>set (counts post). cnt' < c" "- 1 \<in> set (counts pre) \<or> cnt \<le> cnt'"
    "in_order (deliver_in_sequence cnt e)" "sorted_wrt (<) (counts post)"
proof -
  obtain pre post cnt' where d: "deliver_from (rx_list e) cnt e = (cnt', after_delivery pre post e)" "rx_list e = pre @ post"
    "\<forall>c\<in>set (counts post). cnt' < c" "- 1 \<in> set (counts pre) \<or> cnt \<le> cnt' \<and> (\<forall>c\<in>set (counts pre). c < cnt')"
    using deliver_from_ok [OF refl assms(1,2)] by blast
  have eq: "deliver_in_sequence cnt e = (after_delivery pre post e)\<lparr>rx_deliv := cnt'\<rparr>"
    by (simp add: deliver_in_sequence_def d(1))
  have s: "sorted_wrt (<) (counts pre)" "sorted_wrt (<) (counts post)" "\<forall>c\<in>set (counts pre). cnt \<le> c"
    using assms(1,2) unfolding d(2) by (simp_all add: sorted_wrt_append)
  have "in_order (deliver_in_sequence cnt e)"
    using assms(3) d(4) s unfolding eq in_order_def
    by (auto simp: sorted_wrt_append intro: less_le_trans)
  then show ?thesis using that [OF d(2) eq d(3)] d(4) s by blast
qed

section \<open>The operations keep the invariant\<close>

lemma update_t_reordering_inv:
  assumes "sorted_wrt (<) (counts (rx_list e))" "\<forall>c\<in>set (counts (rx_list e)). rx_deliv e < c" "in_order e"
  shows "pdcp_rx_inv (update_t_reordering e)"
  using assms by (auto simp: pdcp_rx_inv_def update_t_reordering_def in_order_def Let_def)

lemma store_sdu_inv:
  assumes "pdcp_rx_inv e" "\<not> sdu_count sdu < rx_deliv e" "\<not> sdu_count sdu \<in> set (counts (rx_list e))"
  shows "pdcp_rx_inv (store_sdu e (sdu_count sdu) sdu n)"
proof -
  let ?c = "sdu_count sdu"
  let ?e = "e\<lparr>rx_list := nr_pdcp_sdu_list_add (rx_list e) sdu, rx_size := rx_size e + n,
    rx_next := if ?c \<ge> rx_next e then ?c + 1 else rx_next e\<rparr>"
  have e: "store_sdu e ?c sdu n = update_t_reordering (if ?c = rx_deliv e then deliver_in_sequence (rx_deliv e) ?e else ?e)"
    by (simp add: store_sdu_def Let_def)
  have s: "sorted_wrt (<) (counts (rx_list ?e))"
    using sdu_list_add_sorted [of "rx_list e" sdu] assms by (simp add: pdcp_rx_inv_def)
  have o: "in_order ?e" using assms(1) by (simp add: pdcp_rx_inv_def in_order_def)
  show ?thesis
  proof (cases "?c = rx_deliv e")
    case True
    have ge: "\<forall>c\<in>set (counts (rx_list ?e)). rx_deliv e \<le> c"
      using assms(1) True by (auto simp: pdcp_rx_inv_def)
    have d: "- 1 \<in> set (counts (delivered ?e)) \<or> sorted_wrt (<) (counts (delivered ?e)) \<and> (\<forall>c\<in>set (counts (delivered ?e)). c < rx_deliv e)"
      using o by (simp add: in_order_def)
    obtain pre post cnt' where "deliver_in_sequence (rx_deliv e) ?e = (after_delivery pre post ?e)\<lparr>rx_deliv := cnt'\<rparr>"
      "\<forall>c\<in>set (counts post). cnt' < c" "in_order (deliver_in_sequence (rx_deliv e) ?e)" "sorted_wrt (<) (counts post)"
      by (rule deliver_in_sequence_ok [OF s ge d])
    then show ?thesis
      unfolding e using True by (simp add: update_t_reordering_inv)
  next
    case False
    have "\<forall>c\<in>set (counts (rx_list ?e)). rx_deliv ?e < c"
      using assms False by (auto simp: pdcp_rx_inv_def)
    then show ?thesis unfolding e using False s o by (simp add: update_t_reordering_inv)
  qed
qed

lemma check_t_reordering_inv:
  assumes "pdcp_rx_inv e"
  shows "pdcp_rx_inv (check_t_reordering e)"
proof (cases "t_reordering e = -1 \<or> t_reordering_start e = 0 \<or> t_current e \<le> t_reordering_start e + word_of_int (t_reordering e)")
  case True
  then show ?thesis using assms by (auto simp: check_t_reordering_def)
next
  case False
  let ?e = "e\<lparr>t_reordering_start := 0\<rparr>"
  have inv: "sorted_wrt (<) (counts (rx_list e))" "rx_deliv e < rx_reord e" "in_order e" "\<forall>c\<in>set (counts (rx_list e)). rx_deliv e < c"
    using assms False by (auto simp: pdcp_rx_inv_def)
  obtain pre post where b: "deliver_below (rx_list e) (rx_reord e) ?e = after_delivery pre post ?e" "rx_list e = pre @ post"
    "\<forall>c\<in>set (counts pre). c < rx_reord e" "\<forall>c\<in>set (counts post). rx_reord e \<le> c"
    using deliver_below_ok [of ?e "rx_list e" "rx_reord e"] inv(1) by auto
  let ?f = "after_delivery pre post ?e"
  have s: "sorted_wrt (<) (counts (rx_list ?f))" and sp: "sorted_wrt (<) (counts pre)" "\<forall>c\<in>set (counts pre). rx_deliv e < c"
    using inv(1,4) unfolding b(2) by (simp_all add: sorted_wrt_append)
  have ge: "\<forall>c\<in>set (counts (rx_list ?f)). rx_reord e \<le> c" using b(4) by simp
  have d: "- 1 \<in> set (counts (delivered ?f)) \<or> sorted_wrt (<) (counts (delivered ?f)) \<and> (\<forall>c\<in>set (counts (delivered ?f)). c < rx_reord e)"
    using inv(2,3) sp b(3) unfolding in_order_def by (auto simp: sorted_wrt_append intro: less_trans)
  obtain pre' post' cnt' where q: "deliver_in_sequence (rx_reord e) ?f = (after_delivery pre' post' ?f)\<lparr>rx_deliv := cnt'\<rparr>"
    "\<forall>c\<in>set (counts post'). cnt' < c" "in_order (deliver_in_sequence (rx_reord e) ?f)" "sorted_wrt (<) (counts post')"
    by (rule deliver_in_sequence_ok [OF s ge d])
  have c: "check_t_reordering e = (let e' = deliver_in_sequence (rx_reord e) ?f
      in if rx_deliv e' < rx_next e' then e'\<lparr>rx_reord := rx_next e', t_reordering_start := t_current e'\<rparr> else e')"
    using False by (simp add: check_t_reordering_def b(1) Let_def)
  show ?thesis
    using q(2-4) unfolding c q(1) by (auto simp: pdcp_rx_inv_def in_order_def Let_def)
qed

lemma inv_frame [simp]:
  "pdcp_rx_inv (with_stats f e) = pdcp_rx_inv e" "pdcp_rx_inv (e\<lparr>t_current := t\<rparr>) = pdcp_rx_inv e"
  "pdcp_rx_inv (discard_duplicate e b) = pdcp_rx_inv e"
  by (simp_all add: pdcp_rx_inv_def in_order_def with_stats_def discard_duplicate_def Let_def)

lemma with_stats_sel [simp]:
  "rx_list (with_stats f e) = rx_list e" "rx_deliv (with_stats f e) = rx_deliv e" "header_size (with_stats f e) = header_size e"
  "integrity_size (with_stats f e) = integrity_size e" "sdap_rx_size (with_stats f e) = sdap_rx_size e"
  "rcvd_count (with_stats f e) = rcvd_count e" "rcvd_sn (with_stats f e) = rcvd_sn e"
  "msg_integrity (with_stats f e) = msg_integrity e" "decipher_pdu aes (with_stats f e) = decipher_pdu aes e"
  "integrity_passes aes (with_stats f e) = integrity_passes aes e"
  by (auto simp: with_stats_def header_size_def integrity_size_def sdap_rx_size_def rcvd_count_def rcvd_sn_def
      msg_integrity_def decipher_pdu_def integrity_passes_def entity_cipher_key_def entity_integrity_key_def fun_eq_iff Let_def)

lemma accept_pdu_inv:
  assumes "accept_pdu e b cnt mi = Inr e'" "pdcp_rx_inv e"
  shows "pdcp_rx_inv e'"
proof (cases "cnt < rx_deliv e \<or> nr_pdcp_sdu_in_list (rx_list e) cnt")
  case True
  then show ?thesis using assms by (auto simp: accept_pdu_def)
next
  case False
  then obtain b' where "e' = store_sdu e cnt (nr_pdcp_new_sdu cnt b' mi) (int (length b) - header_size e)"
    using assms(1) by (auto simp: accept_pdu_def Let_def res_simps)
  then show ?thesis
    using store_sdu_inv [OF assms(2), of "nr_pdcp_new_sdu cnt b' mi"] False by (simp add: nr_pdcp_new_sdu_def)
qed

lemma recv_pdu_inv:
  assumes "nr_pdcp_entity_recv_pdu aes e b = Inr e'" "pdcp_rx_inv e"
  shows "pdcp_rx_inv e'"
  using assms unfolding nr_pdcp_entity_recv_pdu_def
  by (auto simp: res_simps Let_def split: if_splits intro: accept_pdu_inv)

section \<open>Sequences of operations\<close>

datatype pdcp_rx_op = Recv "byte list" | Tick u64

fun pdcp_rx_run :: "aes_lib \<Rightarrow> nr_pdcp_entity \<Rightarrow> pdcp_rx_op list \<Rightarrow> nr_pdcp_entity res" where
  "pdcp_rx_run aes e [] = Inr e"
| "pdcp_rx_run aes e (Recv b # ops) = res_bind (nr_pdcp_entity_recv_pdu aes e b) (\<lambda>e. pdcp_rx_run aes e ops)"
| "pdcp_rx_run aes e (Tick now # ops) = pdcp_rx_run aes (nr_pdcp_entity_set_time e now) ops"

lemma set_time_inv: "pdcp_rx_inv e \<Longrightarrow> pdcp_rx_inv (nr_pdcp_entity_set_time e now)"
  by (simp add: nr_pdcp_entity_set_time_def check_t_reordering_inv)

lemma pdcp_rx_run_inv: "pdcp_rx_run aes e ops = Inr e' \<Longrightarrow> pdcp_rx_inv e \<Longrightarrow> pdcp_rx_inv e'"
  by (induction aes e ops rule: pdcp_rx_run.induct)
    (auto simp: res_simps intro: recv_pdu_inv set_time_inv)

text \<open>What a new entity starts with.\<close>

lemma set_security_frame:
  assumes "nr_pdcp_entity_set_security e p = Inr e'"
  shows "rx_list e' = rx_list e" "rx_deliv e' = rx_deliv e" "rx_next e' = rx_next e" "tx_next e' = tx_next e"
    "delivered e' = delivered e" "t_reordering_start e' = t_reordering_start e" "rx_reord e' = rx_reord e"
    "entity_type e' = entity_type e" "rb_id e' = rb_id e" "sn_size e' = sn_size e" "sn_max e' = sn_max e"
    "window_size e' = window_size e" "is_gnb e' = is_gnb e" "has_sdap_rx e' = has_sdap_rx e" "has_sdap_tx e' = has_sdap_tx e"
    "entity_suspended e' = entity_suspended e"
  using assms
  by (auto simp: nr_pdcp_entity_set_security_def set_integrity_def set_ciphering_def set_keys_def res_simps Let_def split: if_splits)

lemma new_pdcp_inv:
  assumes "new_nr_pdcp_entity type' gnb rb session sdap_rx sdap_tx n reordering discard security_parameters = Inr e"
  shows "pdcp_rx_inv e"
  using set_security_frame [OF assms [unfolded new_nr_pdcp_entity_def]] by (simp add: pdcp_rx_inv_def in_order_def)

section \<open>No fault\<close>

text \<open>The part of an entity that reception and the clock leave alone.\<close>

definition static :: "nr_pdcp_entity \<Rightarrow> _" where
  "static e = (entity_type e, rb_id e, has_sdap_rx e, has_sdap_tx e, sn_size e, sn_max e, window_size e, has_ciphering e,
     has_integrity e, security_keys_and_algos e, security_context e, cipher e, decipher e, integrity_context e, integrity e,
     is_gnb e, entity_suspended e)"

lemma static_deliver_head [simp]: "static (deliver_head cur l e) = static e" "static (with_stats f e) = static e"
  by (simp_all add: static_def deliver_head_def with_stats_def)

lemma static_loops [simp]:
  "static (snd (deliver_from l c e)) = static e" "static (deliver_below l c e) = static e" "static (deliver_all l e) = static e"
  by (induction l arbitrary: c e) simp_all

lemma static_deliver_in_sequence [simp]: "static (deliver_in_sequence c e) = static e"
  using static_loops(1) [of "rx_list e" c e]
  by (cases "deliver_from (rx_list e) c e") (simp add: deliver_in_sequence_def static_def)

lemma static_updates [simp]:
  "static (e\<lparr>rx_reord := r\<rparr>) = static e" "static (e\<lparr>t_reordering_start := t\<rparr>) = static e"
  "static (e\<lparr>rx_next := c\<rparr>) = static e" "static (e\<lparr>rx_list := l\<rparr>) = static e" "static (e\<lparr>rx_size := n\<rparr>) = static e"
  "static (e\<lparr>t_current := t\<rparr>) = static e"
  "static (discard_duplicate e b) = static e"
  by (simp_all add: static_def discard_duplicate_def with_stats_def Let_def)

lemma static_check_t_reordering [simp]: "static (check_t_reordering e) = static e"
  by (simp add: check_t_reordering_def Let_def)

lemma static_store_sdu [simp]: "static (store_sdu e c sdu n) = static e"
  by (simp add: store_sdu_def update_t_reordering_def Let_def)

lemma static_recv_pdu: "nr_pdcp_entity_recv_pdu aes e b = Inr e' \<Longrightarrow> static e' = static e"
  unfolding nr_pdcp_entity_recv_pdu_def
  by (auto simp: res_simps Let_def accept_pdu_def split: if_splits)

text \<open>
  The security configuration of an entity: what \<open>set_security\<close> sets up, on a bearer between 1 and 32 that the
  ciphering algorithm accepts.
\<close>

definition sec_ok :: "nr_pdcp_entity \<Rightarrow> bool" where
  "sec_ok e \<longleftrightarrow> 0 < rb_id e \<and> rb_id e \<le> 32
     \<and> (has_ciphering e \<longrightarrow> (\<exists>f k. cipher e = Some f \<and> decipher e = Some f \<and> entity_cipher_key e = Some k
          \<and> (f = Nea2_cipher \<longrightarrow> rb_id e < 32)))
     \<and> (has_integrity e \<longrightarrow> (\<exists>f k. integrity e = Some f \<and> entity_integrity_key e = Some k))"

lemma sec_ok_static: "static e' = static e \<Longrightarrow> sec_ok e' = sec_ok e"
  by (simp add: sec_ok_def static_def entity_cipher_key_def entity_integrity_key_def)

lemma set_security_ok:
  assumes "nr_pdcp_entity_set_security e p = Inr e'" "sec_ok e" "ciphering_algorithm p = 2 \<longrightarrow> rb_id e < 32"
  shows "sec_ok e'"
  using assms
  by (auto simp: nr_pdcp_entity_set_security_def set_integrity_def set_ciphering_def set_keys_def res_simps Let_def
      sec_ok_def entity_cipher_key_def entity_integrity_key_def context_key_def split: if_splits)

lemma new_pdcp_sec_ok:
  assumes "new_nr_pdcp_entity type' gnb rb session sdap_rx sdap_tx n reordering discard security_parameters = Inr e"
    and "0 < rb" "rb \<le> 32" "ciphering_algorithm security_parameters = 2 \<longrightarrow> rb < 32"
  shows "sec_ok e"
  using set_security_ok [OF assms(1) [unfolded new_nr_pdcp_entity_def]] assms(2-4) by (simp add: sec_ok_def)

lemma data_pdu_ok:
  assumes "b \<noteq> []"
  shows "\<exists>b'. data_pdu e b = Inr b' \<and> length b' = length b"
  using assms by (auto simp: data_pdu_def c_index_def c_store_def)

lemma rcvd_sn_ok:
  assumes "header_size e \<le> int (length b)"
  shows "\<exists>sn. rcvd_sn e b = Inr sn"
  using assms by (auto simp: rcvd_sn_def c_index_def header_size_def split: if_splits)

lemma size_bounds: "2 \<le> header_size e" "header_size e \<le> 3" "0 \<le> sdap_rx_size e" "0 \<le> integrity_size e"
  "has_integrity e \<or> entity_type e = NR_PDCP_SRB \<longrightarrow> integrity_size e = 4"
  by (simp_all add: header_size_def sdap_rx_size_def integrity_size_def)

text \<open>A buffer that has passed the size check.\<close>

definition pdu_fits :: "nr_pdcp_entity \<Rightarrow> byte list \<Rightarrow> bool" where
  "pdu_fits e b \<longleftrightarrow> header_size e + sdap_rx_size e + integrity_size e + 1 \<le> int (length b) \<and> length b < 2 ^ 28"

lemma msg_integrity_ok:
  assumes "pdu_fits e b"
  shows "\<exists>mi. msg_integrity e b c = Inr mi"
  using assms size_bounds [of e]
  by (auto simp: msg_integrity_def pdu_fits_def c_slice_def c_blit_def)

lemma decipher_pdu_ok:
  assumes "pdu_fits e b" "sec_ok e" "aes_ok aes"
  shows "\<exists>b'. decipher_pdu aes e b c = Inr b' \<and> length b' = length b"
proof (cases "has_ciphering e")
  case True
  define off where "off = header_size e + sdap_rx_size e"
  obtain f k where fk: "decipher e = Some f" "entity_cipher_key e = Some k" "f = Nea2_cipher \<longrightarrow> rb_id e < 32"
    using assms(2) True by (auto simp: sec_ok_def)
  have off: "0 \<le> off" "off < int (length b)"
    using assms(1) size_bounds [of e] by (auto simp: off_def pdu_fits_def)
  let ?s = "take (nat (int (length b) - off)) (drop (nat off) b)"
  have "cipher_input ?s (rb_id e) (if is_gnb e then 0 else 1)"
    using assms(1,2) off by (auto simp: cipher_input_def sec_ok_def pdu_fits_def)
  then obtain b' where "call_cipher aes (Some f) (Some k) ?s (rb_id e) c (if is_gnb e then 0 else 1) = Inr b'" "length b' = length ?s"
    using call_cipher_twice [OF assms(3) _ fk(3)] by metis
  then show ?thesis
    using True off fk by (auto simp: decipher_pdu_def Let_def off_def [symmetric] c_slice_def c_blit_def)
qed (simp add: decipher_pdu_def)

lemma integrity_passes_ok:
  assumes "pdu_fits e b" "sec_ok e" "aes_ok aes"
  shows "\<exists>ok. integrity_passes aes e b c = Inr ok"
proof (cases "has_integrity e")
  case True
  define n where "n = int (length b) - integrity_size e"
  obtain f k where fk: "integrity e = Some f" "entity_integrity_key e = Some k" using assms(2) True by (auto simp: sec_ok_def)
  have n: "0 < n" "n + 4 = int (length b)"
    using assms(1) size_bounds [of e] True by (auto simp: n_def pdu_fits_def)
  let ?s = "take (nat n) b"
  have "cipher_input ?s (rb_id e) (if is_gnb e then 0 else 1)"
    using assms(1,2) n by (auto simp: cipher_input_def sec_ok_def pdu_fits_def)
  then obtain mac where "call_integrity aes (Some f) (Some k) [0, 0, 0, 0] ?s (rb_id e) c (if is_gnb e then 0 else 1) = Inr mac"
    using call_integrity_total [OF assms(3)] by metis
  then show ?thesis
    using True n fk by (auto simp: integrity_passes_def Let_def n_def [symmetric] c_slice_def)
qed (auto simp: integrity_passes_def)

lemma accept_pdu_ok:
  assumes "pdu_fits e b"
  shows "\<exists>e'. accept_pdu e b c mi = Inr e'"
  using assms size_bounds [of e] by (simp add: accept_pdu_def pdu_fits_def c_slice_def Let_def)

text \<open>A buffer is readable when it is empty or holds a whole header.\<close>

definition readable :: "nr_pdcp_entity \<Rightarrow> byte list \<Rightarrow> bool" where
  "readable e b \<longleftrightarrow> (b = [] \<or> header_size e \<le> int (length b)) \<and> length b < 2 ^ 28"

lemma recv_pdu_ok:
  assumes "readable e b" "sec_ok e" "aes_ok aes"
  shows "\<exists>e'. nr_pdcp_entity_recv_pdu aes e b = Inr e'"
proof (cases "entity_suspended e \<or> b = []")
  case True
  then show ?thesis by (auto simp: nr_pdcp_entity_recv_pdu_def)
next
  case False
  obtain b1 where b1: "data_pdu e b = Inr b1" "length b1 = length b" using data_pdu_ok False by blast
  obtain sn where sn: "rcvd_sn e b1 = Inr sn" using rcvd_sn_ok [of e b1] assms(1) False b1(2) by (auto simp: readable_def)
  define e1 where "e1 = with_stats (\<lambda>st. st\<lparr>rxpdu_sn := word_of_int sn\<rparr>) (with_stats (count_rx_pdu b1) e)"
  have st: "static e1 = static e" by (simp add: e1_def)
  show ?thesis
  proof (cases "int (length b1) < header_size e + sdap_rx_size e + integrity_size e + 1")
    case True
    then show ?thesis using False b1 sn by (auto simp: nr_pdcp_entity_recv_pdu_def Let_def)
  next
    case fits: False
    have f: "pdu_fits e1 b'" if "length b' = length b" for b'
      using fits assms(1) that b1(2) by (simp add: pdu_fits_def readable_def e1_def)
    have s: "sec_ok e1" using assms(2) sec_ok_static [OF st] by simp
    obtain mi where mi: "msg_integrity e1 b1 (rcvd_count e sn) = Inr mi" using msg_integrity_ok [OF f [OF b1(2)]] by blast
    obtain b2 where b2: "decipher_pdu aes e1 b1 (rcvd_count e sn) = Inr b2" "length b2 = length b"
      using decipher_pdu_ok [OF f [OF b1(2)] s assms(3)] b1(2) by metis
    obtain ok where ok: "integrity_passes aes e1 b2 (rcvd_count e sn) = Inr ok"
      using integrity_passes_ok [OF f [OF b2(2)] s assms(3)] by blast
    obtain e2 where "accept_pdu e1 b2 (rcvd_count e sn) mi = Inr e2" using accept_pdu_ok [OF f [OF b2(2)]] by blast
    then show ?thesis
      using False b1 sn fits mi b2 ok by (auto simp: nr_pdcp_entity_recv_pdu_def Let_def e1_def)
  qed
qed

lemma readable_static: "static e' = static e \<Longrightarrow> readable e' b = readable e b"
  by (simp add: readable_def header_size_def static_def)

lemma pdcp_rx_run_ok:
  assumes "aes_ok aes" "sec_ok e" "\<forall>b. Recv b \<in> set ops \<longrightarrow> readable e b"
  shows "\<exists>e'. pdcp_rx_run aes e ops = Inr e'"
  using assms(2,3)
proof (induction ops arbitrary: e)
  case (Cons op ops)
  show ?case
  proof (cases op)
    case (Recv b)
    obtain e1 where e1: "nr_pdcp_entity_recv_pdu aes e b = Inr e1"
      using recv_pdu_ok [OF _ Cons.prems(1) assms(1)] Cons.prems(2) Recv by auto
    have st: "static e1 = static e" by (rule static_recv_pdu [OF e1])
    have "\<exists>e'. pdcp_rx_run aes e1 ops = Inr e'"
      using Cons.prems by (intro Cons.IH) (simp_all add: sec_ok_static [OF st] readable_static [OF st])
    then show ?thesis using Recv e1 by simp
  next
    case (Tick now)
    have st: "static (nr_pdcp_entity_set_time e now) = static e" by (simp add: nr_pdcp_entity_set_time_def)
    have "\<exists>e'. pdcp_rx_run aes (nr_pdcp_entity_set_time e now) ops = Inr e'"
      using Cons.prems by (intro Cons.IH) (simp_all add: sec_ok_static [OF st] readable_static [OF st])
    then show ?thesis using Tick by simp
  qed
qed simp

text \<open>No SDU appears from nowhere: the contents of the receiver only move from the buffer to the trace.\<close>

lemma deliver_contents:
  "rx_list e = l \<Longrightarrow> set (rx_list (snd (deliver_from l c e))) \<union> set (delivered (snd (deliver_from l c e))) = set l \<union> set (delivered e)"
  "rx_list e = l \<Longrightarrow> set (rx_list (deliver_below l c e)) \<union> set (delivered (deliver_below l c e)) = set l \<union> set (delivered e)"
  by (induction l arbitrary: c e) (auto simp: deliver_head_def with_stats_def)

lemma in_sequence_contents:
  "set (rx_list (deliver_in_sequence c e)) \<union> set (delivered (deliver_in_sequence c e)) = set (rx_list e) \<union> set (delivered e)"
  using deliver_contents(1) [of e "rx_list e" c] by (cases "deliver_from (rx_list e) c e") (simp add: deliver_in_sequence_def)

lemma store_contents:
  "set (rx_list (store_sdu e c x n)) \<union> set (delivered (store_sdu e c x n)) = insert x (set (rx_list e) \<union> set (delivered e))"
proof -
  have "set (rx_list (update_t_reordering e)) \<union> set (delivered (update_t_reordering e)) = set (rx_list e) \<union> set (delivered e)" for e
    by (simp add: update_t_reordering_def Let_def)
  then show ?thesis
    unfolding store_sdu_def Let_def by (simp add: in_sequence_contents)
qed

lemma time_contents:
  "set (rx_list (nr_pdcp_entity_set_time e t)) \<union> set (delivered (nr_pdcp_entity_set_time e t)) = set (rx_list e) \<union> set (delivered e)"
proof -
  have "set (rx_list (check_t_reordering f)) \<union> set (delivered (check_t_reordering f)) = set (rx_list f) \<union> set (delivered f)" for f
    using deliver_contents(2) [of "f\<lparr>t_reordering_start := 0\<rparr>" "rx_list f" "rx_reord f"]
    by (simp add: check_t_reordering_def Let_def in_sequence_contents)
  then show ?thesis by (simp add: nr_pdcp_entity_set_time_def)
qed

section \<open>The COUNT of a received PDU\<close>

definition pdu_sn :: "nr_pdcp_entity \<Rightarrow> byte list \<Rightarrow> int res" where
  "pdu_sn e b = res_bind (data_pdu e b) (rcvd_sn e)"

text \<open>
  A sequence number half the space ahead of \<open>rx_deliv\<close> in the first cycle: it is taken for one of the
  previous cycle, which does not exist.
\<close>

definition stray :: "nr_pdcp_entity \<Rightarrow> int \<Rightarrow> bool" where
  "stray e sn \<longleftrightarrow> uint (rx_deliv e) < 2 ^ nat (sn_size e) \<and> uint (rx_deliv e) + window_size e \<le> sn"

lemma rcvd_sn_range:
  assumes "pdcp_config e" "rcvd_sn e b = Inr sn"
  shows "0 \<le> sn \<and> sn < 2 ^ nat (sn_size e)"
proof -
  have le: "x OR y < 2 ^ k" if "0 \<le> x" "0 \<le> y" "x < 2 ^ k" "y < 2 ^ k" for x y :: int and k
    using OR_upper [OF that(1,3,4)] .
  have nn: "0 \<le> push_bit k (uint (w :: byte))" "0 \<le> uint w" "uint w < 256" for k w
    using uint_lt2p [of w] by simp_all
  have a: "uint (w AND 0xf) < 16" "uint (w AND 0x3) < 4" for w :: byte
  proof -
    have "uint (w AND 0xf) = uint w AND 0xf" "uint (w AND 0x3) = uint w AND 0x3" by (simp_all add: unsigned_and_eq)
    then show "uint (w AND 0xf) < 16" "uint (w AND 0x3) < 4"
      using AND_upper2 [of "0xf" "uint w"] AND_upper2 [of "0x3" "uint w"] by auto
  qed
  consider "sn_size e = 12" | "sn_size e = 18" using assms(1) by (auto simp: pdcp_config_def)
  then show ?thesis
  proof cases
    case 1
    obtain b0 b1 where sn: "sn = push_bit 8 (uint ((b0 :: byte) AND 0xf)) OR uint (b1 :: byte)"
      using assms(2) 1 by (intro that [of "b ! 0" "b ! 1"]) (auto simp: rcvd_sn_def res_simps)
    have "push_bit 8 (uint (b0 AND 0xf)) < 2 ^ 12" using a(1) [of b0] by (simp add: push_bit_eq_mult)
    moreover have "uint b1 < 2 ^ 12" using nn(3) [of b1] by simp
    ultimately show ?thesis using 1 nn le [of "push_bit 8 (uint (b0 AND 0xf))" "uint b1" 12] by (simp add: sn)
  next
    case 2
    obtain b0 b1 b2 where sn: "sn = push_bit 16 (uint ((b0 :: byte) AND 0x3)) OR push_bit 8 (uint (b1 :: byte)) OR uint (b2 :: byte)"
      using assms(2) 2 by (intro that [of "b ! 0" "b ! 1" "b ! 2"]) (auto simp: rcvd_sn_def res_simps)
    have "push_bit 16 (uint (b0 AND 0x3)) < 2 ^ 18" "push_bit 8 (uint b1) < 2 ^ 18" "uint b2 < 2 ^ 18"
      using a(2) [of b0] nn(3) [of b1] nn(3) [of b2] by (simp_all add: push_bit_eq_mult)
    then show ?thesis using 2 nn le [of "push_bit 16 (uint (b0 AND 0x3))" "push_bit 8 (uint b1)" 18]
      le [of "push_bit 16 (uint (b0 AND 0x3)) OR push_bit 8 (uint b1)" "uint b2" 18] by (simp add: sn or.assoc)
  qed
qed

lemma rcvd_count_bound:
  assumes conf: "pdcp_config e" and sn: "0 \<le> sn" "sn < 2 ^ nat (sn_size e)" and s: "\<not> stray e sn"
    and room: "uint (rx_deliv e) + window_size e < 2 ^ 32"
  shows "uint (rcvd_count e sn) < uint (rx_deliv e) + window_size e"
proof -
  define M :: int where "M = 2 ^ nat (sn_size e)"
  define W where "W = window_size e"
  define D where "D = uint (rx_deliv e)"
  have MW: "M = 2 * W" "0 < W" using conf by (auto simp: pdcp_config_def M_def W_def)
  define x where "x = D - W + (sn - (D - W)) mod M"
  have x: "D - W \<le> x" "x < D + W" using MW by (simp_all add: x_def pos_mod_bound [of M, THEN less_le_trans])
  have "x mod M = sn mod M" unfolding x_def by (simp add: mod_add_right_eq)
  then have xm: "x mod M = sn" using sn by (simp add: M_def)
  have "0 \<le> x"
  proof (rule ccontr)
    assume neg: "\<not> 0 \<le> x"
    have "0 \<le> D" by (simp add: D_def)
    then have "(x + M) mod M = x + M" using neg x MW by (intro mod_pos_pos_trivial) auto
    then have "sn = x + M" using xm by simp
    then have "stray e sn" using x neg MW \<open>0 \<le> D\<close> by (simp add: stray_def D_def W_def M_def [symmetric])
    then show False using s by simp
  qed
  then have u: "uint (word_of_int x :: u32) = x" using x(2) room by (simp add: uint_word_of_int D_def W_def)
  have "uint ((word_of_int x :: u32) AND word_of_int (sn_max e)) = sn"
    using sn_of_count [OF conf, of "word_of_int x"] u xm by (simp add: M_def)
  then have "rcvd_count e sn = word_of_int x"
    using rcvd_count_correct [OF conf, of "word_of_int x"] u x by (simp add: D_def W_def)
  then show ?thesis using u x(2) by (simp add: D_def W_def)
qed

text \<open>
  A library for concrete runs: the identity has the documented properties of counter mode.
\<close>

definition plain_aes :: aes_lib where
  "plain_aes = \<lparr>evp_aes_128_ctr = (\<lambda>k iv m. m), evp_cmac = (\<lambda>k m. replicate 16 0)\<rparr>"

lemma plain_aes_ok [simp]: "aes_ok plain_aes"
  by (simp add: aes_ok_def plain_aes_def)

definition demo_keys :: nr_pdcp_entity_security_keys_and_algos where
  "demo_keys = \<lparr>integrity_algorithm = 0, ciphering_algorithm = 2, integrity_key = replicate 16 1, ciphering_key = replicate 16 2\<rparr>"

definition demo_entity :: "bool \<Rightarrow> nr_pdcp_entity res" where
  "demo_entity gnb = new_nr_pdcp_entity NR_PDCP_DRB_AM gnb 1 1 False False 12 100 (-1) demo_keys"

lemma rcvd_count_stray:
  assumes conf: "pdcp_config e" and hfn: "uint (rx_deliv e) < 2 ^ nat (sn_size e)"
    and sn: "uint (rx_deliv e) + window_size e \<le> sn" "sn < 2 ^ nat (sn_size e)"
  shows "uint (rcvd_count e sn) = 2 ^ 32 - 2 ^ nat (sn_size e) + sn \<and> rx_deliv e < rcvd_count e sn"
proof -
  define n where "n = nat (sn_size e)"
  have n: "n = 12 \<or> n = 18" "window_size e > 0" using conf by (auto simp: pdcp_config_def n_def)
  have d: "uint (rx_deliv e AND word_of_int (sn_max e)) = uint (rx_deliv e)"
    unfolding sn_of_count [OF conf] using hfn by simp
  have h: "drop_bit n (rx_deliv e) = 0"
  proof -
    have "uint (drop_bit n (rx_deliv e)) = uint (rx_deliv e) div 2 ^ n"
      by (simp only: unsigned_drop_bit_eq) (simp add: drop_bit_eq_div take_bit_int_eq_self uint_lt2p [where ?'a = 32, simplified])
    then show ?thesis using hfn by (simp add: n_def uint_0_iff)
  qed
  have nn: "0 \<le> sn" using sn(1) n(2) uint_ge_0 [of "rx_deliv e"] by linarith
  have "rcvd_count e sn = push_bit n (- 1) OR word_of_int sn"
    using sn(1) n(2) d h by (simp add: rcvd_count_def Let_def n_def)
  also have "\<dots> = word_of_int (uint (- 1 :: u32) * 2 ^ n + sn)"
    by (rule push_bit_or_eq) (use nn sn(2) n in \<open>auto simp: n_def\<close>)
  also have "\<dots> = word_of_int (2 ^ 32 - 2 ^ n + sn)"
    by (simp add: word_of_int_eq_iff)
  finally have c: "rcvd_count e sn = word_of_int (2 ^ 32 - 2 ^ n + sn)" .
  have u: "uint (rcvd_count e sn) = 2 ^ 32 - 2 ^ n + sn"
  proof -
    have "0 \<le> 2 ^ 32 - 2 ^ n + sn" "2 ^ 32 - 2 ^ n + sn < 2 ^ 32" using nn sn(2) n unfolding n_def [symmetric] by auto
    then show ?thesis by (subst c, subst uint_word_of_int) simp
  qed
  moreover have "uint (rx_deliv e) < 2 ^ 32 - 2 ^ n + sn" using hfn nn n unfolding n_def [symmetric] by auto
  ultimately show ?thesis by (simp add: n_def word_less_def)
qed


lemma delivered_with_stats [simp]: "delivered (with_stats f e) = delivered e"
  by (simp add: with_stats_def)

lemma accept_contents:
  assumes "accept_pdu e b c mi = Inr e'"
  shows "set (counts (rx_list e')) \<union> set (counts (delivered e'))
    \<subseteq> insert c (set (counts (rx_list e)) \<union> set (counts (delivered e)))"
proof (cases "c < rx_deliv e \<or> nr_pdcp_sdu_in_list (rx_list e) c")
  case True
  then show ?thesis using assms by (auto simp: accept_pdu_def discard_duplicate_def with_stats_def Let_def split: if_splits)
next
  case False
  then obtain b' n where e': "e' = store_sdu e c (nr_pdcp_new_sdu c b' mi) n"
    using assms by (auto simp: accept_pdu_def Let_def res_simps)
  have "sdu_count ` (set (rx_list e') \<union> set (delivered e'))
      = insert c (sdu_count ` (set (rx_list e) \<union> set (delivered e)))"
    unfolding e' store_contents by (simp add: nr_pdcp_new_sdu_def)
  then show ?thesis by (auto simp: counts_def image_Un)
qed

text \<open>A reception adds at most the COUNT that the window gives to the sequence number of the PDU.\<close>

lemma recv_contents:
  assumes "nr_pdcp_entity_recv_pdu aes e b = Inr e'"
  shows "\<exists>C. set (counts (rx_list e')) \<union> set (counts (delivered e'))
      \<subseteq> C \<union> set (counts (rx_list e)) \<union> set (counts (delivered e))
    \<and> C \<subseteq> {c. \<exists>sn. pdu_sn e b = Inr sn \<and> c = rcvd_count e sn}"
proof (cases "set (counts (rx_list e')) \<union> set (counts (delivered e')) \<subseteq> set (counts (rx_list e)) \<union> set (counts (delivered e))")
  case False
  then obtain b1 sn where b1: "data_pdu e b = Inr b1" "rcvd_sn (with_stats (count_rx_pdu b1) e) b1 = Inr sn"
    using assms unfolding nr_pdcp_entity_recv_pdu_def by (auto simp: res_simps Let_def split: if_splits)
  have sn: "pdu_sn e b = Inr sn" using b1 by (simp add: pdu_sn_def rcvd_sn_def with_stats_def)
  define e1 where "e1 = with_stats (\<lambda>st. st\<lparr>rxpdu_sn := word_of_int sn\<rparr>) (with_stats (count_rx_pdu b1) e)"
  have e1: "rx_list e1 = rx_list e" "delivered e1 = delivered e" by (simp_all add: e1_def)
  obtain b2 mi where "accept_pdu e1 b2 (rcvd_count e sn) mi = Inr e'"
    using assms b1 False unfolding nr_pdcp_entity_recv_pdu_def e1_def
    by (auto simp: res_simps Let_def split: if_splits)
  from accept_contents [OF this] show ?thesis
    using sn unfolding e1 by (intro exI [of _ "{rcvd_count e sn}"]) auto
qed (intro exI [of _ "{}"], simp)

text \<open>
  Without integrity protection a PDU that fits reaches the window: nothing but its COUNT decides
  whether it is kept.
\<close>

lemma recv_accepts:
  assumes "\<not> entity_suspended e" "\<not> has_integrity e" "sec_ok e" "aes_ok aes" "pdu_fits e b" "pdu_sn e b = Inr sn"
  shows "\<exists>e1 b2 mi f. length b2 = length b \<and> e1 = with_stats f e
    \<and> nr_pdcp_entity_recv_pdu aes e b = accept_pdu e1 b2 (rcvd_count e sn) mi"
proof -
  have nonempty: "b \<noteq> []" using assms(5) size_bounds [of e] by (auto simp: pdu_fits_def)
  then obtain b1 where b1: "data_pdu e b = Inr b1" "length b1 = length b" using data_pdu_ok by blast
  have sn: "rcvd_sn e b1 = Inr sn" using assms(6) b1(1) by (simp add: pdu_sn_def)
  have f: "pdu_fits e b'" if "length b' = length b" for b' using assms(5) that by (simp add: pdu_fits_def)
  obtain mi where mi: "msg_integrity e b1 (rcvd_count e sn) = Inr mi" using msg_integrity_ok [OF f [OF b1(2)]] by blast
  obtain b2 where b2: "decipher_pdu aes e b1 (rcvd_count e sn) = Inr b2" "length b2 = length b"
    using decipher_pdu_ok [OF f [OF b1(2)] assms(3,4)] b1(2) by metis
  have ok: "integrity_passes aes e b2 (rcvd_count e sn) = Inr True" using assms(2) by (simp add: integrity_passes_def)
  have ws: "with_stats g (with_stats h e) = with_stats (\<lambda>st. g (h st)) e" for g h by (simp add: with_stats_def)
  have "nr_pdcp_entity_recv_pdu aes e b
      = accept_pdu (with_stats (\<lambda>st. count_rx_pdu b1 st\<lparr>rxpdu_sn := word_of_int sn\<rparr>) e) b2 (rcvd_count e sn) mi"
    using assms(1,5) nonempty b1 sn mi b2 ok by (simp add: nr_pdcp_entity_recv_pdu_def Let_def ws pdu_fits_def)
  then show ?thesis using b2(2) by blast
qed

section \<open>In-order delivery\<close>

text \<open>
  Receptions at which the window tells COUNTs apart: the sequence number is not stray, and the
  window does not reach the end of the range of COUNTs.
\<close>

definition regular :: "nr_pdcp_entity \<Rightarrow> byte list \<Rightarrow> bool" where
  "regular e b \<longleftrightarrow> uint (rx_deliv e) + window_size e < 2 ^ 32
     \<and> (case pdu_sn e b of Inl _ \<Rightarrow> True | Inr sn \<Rightarrow> \<not> stray e sn)"

fun regular_run :: "aes_lib \<Rightarrow> nr_pdcp_entity \<Rightarrow> pdcp_rx_op list \<Rightarrow> bool" where
  "regular_run aes e [] \<longleftrightarrow> True"
| "regular_run aes e (Recv b # ops) \<longleftrightarrow> regular e b
     \<and> (case nr_pdcp_entity_recv_pdu aes e b of Inl _ \<Rightarrow> True | Inr e' \<Rightarrow> regular_run aes e' ops)"
| "regular_run aes e (Tick now # ops) \<longleftrightarrow> regular_run aes (nr_pdcp_entity_set_time e now) ops"

definition below_top :: "nr_pdcp_entity \<Rightarrow> bool" where
  "below_top e \<longleftrightarrow> - 1 \<notin> set (counts (rx_list e)) \<union> set (counts (delivered e))"

lemma recv_below_top:
  assumes "nr_pdcp_entity_recv_pdu aes e b = Inr e'" "pdcp_config e" "regular e b" "below_top e"
  shows "below_top e'"
proof -
  have "rcvd_count e sn \<noteq> - 1" if sn: "pdu_sn e b = Inr sn" for sn
  proof
    assume c: "rcvd_count e sn = - 1"
    have "0 \<le> sn \<and> sn < 2 ^ nat (sn_size e)" using sn rcvd_sn_range [OF assms(2)] by (auto simp: pdu_sn_def res_simps)
    then have "uint (- 1 :: u32) < uint (rx_deliv e) + window_size e"
      using rcvd_count_bound [OF assms(2), of sn] assms(3) sn unfolding c by (simp add: regular_def)
    moreover have "uint (- 1 :: u32) = 2 ^ 32 - 1" by (simp add: unsigned_minus_1_eq_mask mask_eq_exp_minus_1)
    ultimately show False using assms(3) by (simp add: regular_def)
  qed
  moreover obtain C where C: "set (counts (rx_list e')) \<union> set (counts (delivered e'))
      \<subseteq> C \<union> set (counts (rx_list e)) \<union> set (counts (delivered e))"
    "C \<subseteq> {c. \<exists>sn. pdu_sn e b = Inr sn \<and> c = rcvd_count e sn}"
    using recv_contents [OF assms(1)] by (elim exE conjE) (rule that)
  ultimately have "- 1 \<notin> C" by (auto dest: subsetD)
  then show ?thesis using C(1) assms(4) unfolding below_top_def by blast
qed

lemma below_top_eq: "below_top e \<longleftrightarrow> - 1 \<notin> sdu_count ` (set (rx_list e) \<union> set (delivered e))"
  by (simp add: below_top_def counts_def image_Un)

lemma set_time_below_top: "below_top e \<Longrightarrow> below_top (nr_pdcp_entity_set_time e now)"
  unfolding below_top_eq time_contents .

lemma config_static: "static e' = static e \<Longrightarrow> pdcp_config e' = pdcp_config e"
  by (simp add: pdcp_config_def static_def)

lemma run_below_top:
  assumes "pdcp_rx_run aes e ops = Inr e'" "pdcp_config e" "regular_run aes e ops" "below_top e"
  shows "below_top e'"
  using assms
proof (induction aes e ops rule: pdcp_rx_run.induct)
  case (2 aes e b ops)
  then obtain e1 where e1: "nr_pdcp_entity_recv_pdu aes e b = Inr e1" "pdcp_rx_run aes e1 ops = Inr e'"
    by (auto simp: res_simps)
  have "regular e b" "regular_run aes e1 ops" using 2(4) e1(1) by simp_all
  then show ?case
    using 2(1) [OF e1] 2(3) recv_below_top [OF e1(1) 2(3) _ 2(5)] config_static [OF static_recv_pdu [OF e1(1)]] by blast
next
  case (3 aes e now ops)
  have "static (nr_pdcp_entity_set_time e now) = static e" by (simp add: nr_pdcp_entity_set_time_def)
  from config_static [OF this] show ?case using 3(1) 3(2) 3(3) 3(4) set_time_below_top [OF 3(5)] by simp
qed (simp add: below_top_def)

lemma new_pdcp_config:
  assumes "new_nr_pdcp_entity type' gnb rb session sdap_rx sdap_tx n reordering discard security_parameters = Inr e"
    and "n = 12 \<or> n = 18"
  shows "pdcp_config e"
  using set_security_frame [OF assms(1) [unfolded new_nr_pdcp_entity_def]] assms(2)
  by (auto simp: pdcp_config_def push_bit_eq_mult)





text \<open>
  (CX) Bearer 32 is a legal DRB identity, and the managers and NIA2 accept it, but NEA2 asserts a
  bearer below 32: an entity of bearer 32 that was set up with NEA2 aborts the process on every
  PDU that passes the size check.
\<close>

theorem pdcp_bearer_32_aborts:
  assumes "new_nr_pdcp_entity type' gnb 32 session sdap_rx sdap_tx n reordering discard security_parameters = Inr e0"
    and "ciphering_algorithm security_parameters = 2" and "pdu_fits e0 b"
  shows "nr_pdcp_entity_recv_pdu aes e0 b = Inl Assert_fatal"
proof -
  have nonempty: "b \<noteq> []" using assms(3) size_bounds [of e0] by (auto simp: pdu_fits_def)
  then obtain b1 where b1: "data_pdu e0 b = Inr b1" "length b1 = length b" using data_pdu_ok by blast
  have fits: "pdu_fits e0 b1" using assms(3) b1(2) by (simp add: pdu_fits_def)
  then obtain sn where sn: "rcvd_sn e0 b1 = Inr sn"
    using rcvd_sn_ok [of e0 b1] size_bounds [of e0] by (auto simp: pdu_fits_def)
  obtain mi where mi: "msg_integrity e0 b1 (rcvd_count e0 sn) = Inr mi" using msg_integrity_ok [OF fits] by blast
  have frame: "rb_id e0 = 32" "\<not> entity_suspended e0"
    using set_security_frame [OF assms(1) [unfolded new_nr_pdcp_entity_def]] by simp_all
  have sec: "has_ciphering e0" "decipher e0 = Some Nea2_cipher" "\<exists>k. entity_cipher_key e0 = Some k"
    using assms(1,2) unfolding new_nr_pdcp_entity_def
    by (auto simp: nr_pdcp_entity_set_security_def set_integrity_def set_ciphering_def set_keys_def res_simps Let_def
        entity_cipher_key_def context_key_def split: if_splits)
  have "decipher_pdu aes e0 b1 (rcvd_count e0 sn) = Inl Assert_fatal"
    using sec frame fits size_bounds [of e0]
    by (auto simp: decipher_pdu_def call_cipher_def nr_pdcp_security_nea2_cipher_def Let_def c_slice_def pdu_fits_def res_simps)
  then show ?thesis
    using nonempty b1 sn mi frame fits by (simp add: nr_pdcp_entity_recv_pdu_def Let_def pdu_fits_def)
qed

theorem pdcp_bearer_32_aborts_witness:
  "\<exists>e0. new_nr_pdcp_entity NR_PDCP_DRB_AM False 32 1 False False 12 100 (-1) demo_keys = Inr e0
     \<and> nr_pdcp_entity_recv_pdu plain_aes e0 [128, 0, 5] = Inl Assert_fatal"
proof -
  let ?new = "new_nr_pdcp_entity NR_PDCP_DRB_AM False 32 1 False False 12 100 (-1) demo_keys"
  have "res_bind ?new (\<lambda>e0. Inr (header_size e0, sdap_rx_size e0, integrity_size e0)) = Inr (2, 0, 0)" by code_simp
  then obtain e0 where e0: "?new = Inr e0" "header_size e0 = 2" "sdap_rx_size e0 = 0" "integrity_size e0 = 0"
    by (auto simp: res_simps)
  have "nr_pdcp_entity_recv_pdu plain_aes e0 [128, 0, 5] = Inl Assert_fatal"
    by (rule pdcp_bearer_32_aborts [OF e0(1)]) (simp_all add: demo_keys_def pdu_fits_def e0)
  then show ?thesis using e0(1) by blast
qed

text \<open>
  (C36) The sequence number is read before the size of the PDU is checked: a data PDU shorter
  than its header makes an entity that is not suspended read past the end of the buffer.
\<close>

theorem pdcp_short_pdu_overread:
  assumes "\<not> entity_suspended e" and "b \<noteq> []" and "int (length b) < header_size e"
  shows "nr_pdcp_entity_recv_pdu aes e b = Inl Out_of_bounds"
proof -
  obtain b1 where b1: "data_pdu e b = Inr b1" "length b1 = length b" using data_pdu_ok assms(2) by blast
  have "rcvd_sn e b1 = Inl Out_of_bounds"
    using assms(2,3) b1(2) by (cases b1) (auto simp: rcvd_sn_def c_index_def header_size_def split: if_splits)
  then show ?thesis using assms(1,2) b1(1) by (simp add: nr_pdcp_entity_recv_pdu_def Let_def)
qed

theorem pdcp_short_pdu_overread_witness:
  "\<exists>e. demo_entity False = Inr e \<and> nr_pdcp_entity_recv_pdu plain_aes e [128] = Inl Out_of_bounds"
proof -
  have "res_bind (demo_entity False) (\<lambda>e0. Inr (header_size e0, entity_suspended e0)) = Inr (2, False)" by code_simp
  then obtain e where "demo_entity False = Inr e" "header_size e = 2" "\<not> entity_suspended e" by (auto simp: res_simps)
  then show ?thesis using pdcp_short_pdu_overread [of e "[128]" plain_aes] by simp
qed

section \<open>The accounting of the reception buffer\<close>

definition size_inv :: "nr_pdcp_entity \<Rightarrow> bool" where
  "size_inv e \<longleftrightarrow> rx_size e = sum_list (map sdu_size (rx_list e))
     + integrity_size e * int (length (rx_list e) + length (delivered e))"

lemma size_inv_static: "integrity_size e' = integrity_size e" if "static e' = static e"
  using that by (simp add: static_def integrity_size_def)

lemma size_inv_deliver_head: "rx_list e = cur # l \<Longrightarrow> size_inv e \<Longrightarrow> size_inv (deliver_head cur l e)"
  using size_inv_static [of "deliver_head cur l e" e]
  by (simp add: size_inv_def) (simp add: deliver_head_def with_stats_def)

lemma size_inv_loops:
  "rx_list e = l \<Longrightarrow> size_inv e \<Longrightarrow> size_inv (snd (deliver_from l c e))"
  "rx_list e = l \<Longrightarrow> size_inv e \<Longrightarrow> size_inv (deliver_below l c e)"
  by (induction l arbitrary: c e) (simp_all add: size_inv_deliver_head)

lemma size_inv_updates [simp]:
  "size_inv (e\<lparr>rx_reord := r\<rparr>) = size_inv e" "size_inv (e\<lparr>t_reordering_start := t\<rparr>) = size_inv e"
  "size_inv (e\<lparr>rx_next := c\<rparr>) = size_inv e" "size_inv (e\<lparr>rx_deliv := c\<rparr>) = size_inv e" "size_inv (e\<lparr>t_current := t\<rparr>) = size_inv e"
  "size_inv (with_stats f e) = size_inv e" "size_inv (discard_duplicate e b) = size_inv e"
  by (simp_all add: size_inv_def integrity_size_def with_stats_def discard_duplicate_def Let_def)

lemma size_inv_in_sequence: "size_inv e \<Longrightarrow> size_inv (deliver_in_sequence c e)"
  using size_inv_loops(1) [of e "rx_list e" c]
  by (cases "deliver_from (rx_list e) c e") (simp add: deliver_in_sequence_def)

lemma size_inv_set_time: "size_inv e \<Longrightarrow> size_inv (nr_pdcp_entity_set_time e now)"
  by (simp add: nr_pdcp_entity_set_time_def check_t_reordering_def size_inv_loops(2) size_inv_in_sequence Let_def)

lemma size_inv_store:
  assumes "size_inv e" "n = sdu_size sdu + integrity_size e"
  shows "size_inv (store_sdu e c sdu n)"
proof -
  have "size_inv (e\<lparr>rx_list := nr_pdcp_sdu_list_add (rx_list e) sdu, rx_size := rx_size e + n\<rparr>)"
    using assms by (simp add: size_inv_def integrity_size_def algebra_simps)
  then show ?thesis by (simp add: store_sdu_def update_t_reordering_def size_inv_in_sequence Let_def)
qed

lemma size_inv_accept:
  assumes "accept_pdu e b c mi = Inr e'" "size_inv e"
  shows "size_inv e'"
proof (cases "c < rx_deliv e \<or> nr_pdcp_sdu_in_list (rx_list e) c")
  case True
  then show ?thesis using assms by (auto simp: accept_pdu_def)
next
  case False
  then obtain b' where b': "c_slice b (header_size e) (int (length b) - header_size e - integrity_size e) = Inr b'"
    "e' = store_sdu e c (nr_pdcp_new_sdu c b' mi) (int (length b) - header_size e)"
    using assms(1) by (auto simp: accept_pdu_def Let_def res_simps)
  then have "int (length b') = int (length b) - header_size e - integrity_size e"
    by (auto simp: c_slice_Inr)
  then show ?thesis using assms(2) b'(2) by (auto simp: nr_pdcp_new_sdu_def intro: size_inv_store)
qed

lemma size_inv_recv: "nr_pdcp_entity_recv_pdu aes e b = Inr e' \<Longrightarrow> size_inv e \<Longrightarrow> size_inv e'"
  unfolding nr_pdcp_entity_recv_pdu_def
  by (auto simp: res_simps Let_def split: if_splits intro: size_inv_accept)

lemma size_inv_run: "pdcp_rx_run aes e ops = Inr e' \<Longrightarrow> size_inv e \<Longrightarrow> size_inv e'"
  by (induction aes e ops rule: pdcp_rx_run.induct) (auto simp: res_simps intro: size_inv_recv size_inv_set_time)

text \<open>
  (C37) The receive budget of an entity with integrity drifts: a PDU adds its size without the
  header to \<open>rx_size\<close>, the SDU that is delivered gives back only its own size. After any run
  \<open>rx_size\<close> is the bytes stored plus four bytes for every SDU stored or delivered so far.
\<close>

theorem pdcp_rx_size_drift:
  assumes "new_nr_pdcp_entity type' gnb rb session sdap_rx sdap_tx n reordering discard security_parameters = Inr e0"
    and "pdcp_rx_run aes e0 ops = Inr e"
  shows "rx_size e = sum_list (map sdu_size (rx_list e)) + integrity_size e * int (length (rx_list e) + length (delivered e))"
proof -
  have "rx_size e0 = 0"
    using assms(1) unfolding new_nr_pdcp_entity_def nr_pdcp_entity_set_security_def set_integrity_def set_ciphering_def set_keys_def
    by (auto simp: res_simps Let_def split: if_splits)
  then have "size_inv e0"
    using set_security_frame [OF assms(1) [unfolded new_nr_pdcp_entity_def]] by (simp add: size_inv_def)
  then show ?thesis using size_inv_run [OF assms(2)] by (simp add: size_inv_def)
qed

theorem pdcp_rx_size_drift_witness:
  "\<exists>e0 e. new_nr_pdcp_entity NR_PDCP_SRB False 1 0 False False 12 100 (-1) no_keys = Inr e0
     \<and> pdcp_rx_run plain_aes e0 [Recv [0, 0, 5, 0, 0, 0, 0], Recv [0, 1, 6, 0, 0, 0, 0]] = Inr e \<and> rx_list e = [] \<and> rx_size e = 8"
proof -
  let ?ops = "[Recv [0, 0, 5, 0, 0, 0, 0], Recv [0, 1, 6, 0, 0, 0, 0]]"
  have "res_bind (new_nr_pdcp_entity NR_PDCP_SRB False 1 0 False False 12 100 (-1) no_keys) (\<lambda>e0.
      res_bind (pdcp_rx_run plain_aes e0 ?ops) (\<lambda>e. Inr (length (delivered e), length (rx_list e), integrity_size e))) = Inr (2, 0, 4)"
    by code_simp
  then obtain e0 e where e: "new_nr_pdcp_entity NR_PDCP_SRB False 1 0 False False 12 100 (-1) no_keys = Inr e0"
    "pdcp_rx_run plain_aes e0 ?ops = Inr e" "length (delivered e) = 2" "rx_list e = []" "integrity_size e = 4"
    by (auto simp: res_simps)
  with pdcp_rx_size_drift [OF e(1,2)] show ?thesis by auto
qed

section \<open>A sequence number far ahead\<close>

lemma pdcp_rx_run_static: "pdcp_rx_run aes e ops = Inr e' \<Longrightarrow> static e' = static e"
proof (induction aes e ops rule: pdcp_rx_run.induct)
  case (3 aes e now ops)
  then show ?case by (simp add: nr_pdcp_entity_set_time_def)
qed (auto simp: res_bind_Inr_iff dest: static_recv_pdu)

lemma store_far_ahead:
  assumes "c \<noteq> rx_deliv e"
  shows "delivered (store_sdu e c sdu n) = delivered e" "rx_deliv (store_sdu e c sdu n) = rx_deliv e"
    "rx_next (store_sdu e c sdu n) = (if c \<ge> rx_next e then c + 1 else rx_next e)"
    "sdu \<in> set (rx_list (store_sdu e c sdu n))"
proof -
  show d: "delivered (store_sdu e c sdu n) = delivered e"
    using assms by (simp add: store_sdu_def update_t_reordering_def Let_def)
  show "rx_deliv (store_sdu e c sdu n) = rx_deliv e"
    "rx_next (store_sdu e c sdu n) = (if c \<ge> rx_next e then c + 1 else rx_next e)"
    using assms by (simp_all add: store_sdu_def update_t_reordering_def Let_def)
  show "sdu \<in> set (rx_list (store_sdu e c sdu n))"
    using assms by (simp add: store_sdu_def update_t_reordering_def Let_def)
qed

text \<open>
  (C38) In the first cycle of sequence numbers (hyper frame number 0) a sequence number half the
  space or more ahead of \<open>rx_deliv\<close> is taken for one of the previous cycle, which does not exist: the
  hyper frame number wraps to \<open>2 ^ 32 - 1\<close>, and the COUNT lands at the very end of its range.
  On an active bearer without integrity protection such a PDU, when its COUNT is not buffered yet, is
  stored with that COUNT instead of being discarded, and \<open>rx_next\<close> moves behind it.
\<close>

theorem pdcp_stray_count:
  assumes "pdcp_config e" "sec_ok e" "aes_ok aes" "\<not> entity_suspended e" "\<not> has_integrity e"
    and "pdu_fits e b" "pdu_sn e b = Inr sn" "stray e sn"
    and "c = word_of_int (2 ^ 32 - 2 ^ nat (sn_size e) + sn)" "c \<notin> set (counts (rx_list e))"
  shows "\<exists>e' sdu. nr_pdcp_entity_recv_pdu aes e b = Inr e' \<and> sdu \<in> set (rx_list e') \<and> sdu_count sdu = c
    \<and> uint c = 2 ^ 32 - 2 ^ nat (sn_size e) + sn \<and> rx_deliv e' = rx_deliv e \<and> delivered e' = delivered e
    \<and> rx_next e' = (if c \<ge> rx_next e then c + 1 else rx_next e)"
proof -
  have sn: "sn < 2 ^ nat (sn_size e)" using assms(7) rcvd_sn_range [OF assms(1)] by (auto simp: pdu_sn_def res_simps)
  have u: "uint (rcvd_count e sn) = 2 ^ 32 - 2 ^ nat (sn_size e) + sn" "rx_deliv e < rcvd_count e sn"
    using rcvd_count_stray [OF assms(1) _ _ sn] assms(8) by (simp_all add: stray_def)
  then have c: "rcvd_count e sn = c" using assms(9) by (metis word_of_int_uint)
  obtain e1 b2 mi f where r: "length b2 = length b" "e1 = with_stats f e"
    "nr_pdcp_entity_recv_pdu aes e b = accept_pdu e1 b2 c mi"
    using recv_accepts [OF assms(4,5,2,3,6,7)] unfolding c by (elim exE conjE) (rule that)
  have e1: "rx_deliv e1 = rx_deliv e" "delivered e1 = delivered e" "rx_next e1 = rx_next e" "rx_list e1 = rx_list e"
    unfolding r(2) by (simp_all add: with_stats_def)
  have "pdu_fits e1 b2" using assms(6) r(1,2) by (simp add: pdu_fits_def)
  moreover have "\<not> (c < rx_deliv e1 \<or> nr_pdcp_sdu_in_list (rx_list e1) c)"
    using u(2) assms(10) unfolding c e1 by auto
  ultimately obtain b3 n where "accept_pdu e1 b2 c mi = Inr (store_sdu e1 c (nr_pdcp_new_sdu c b3 mi) n)"
    using size_bounds [of e1] by (auto simp: accept_pdu_def pdu_fits_def c_slice_def Let_def)
  moreover have "c \<noteq> rx_deliv e1" using u(2) unfolding c e1 by auto
  ultimately show ?thesis
    using r(3) store_far_ahead [of c e1 "nr_pdcp_new_sdu c b3 mi" n] u(1) unfolding c e1
    by (intro exI [of _ "store_sdu e1 c (nr_pdcp_new_sdu c b3 mi) n"] exI [of _ "nr_pdcp_new_sdu c b3 mi"])
      (simp add: nr_pdcp_new_sdu_def)
qed

text \<open>
  Two stray PDUs after SDUs 0 and 1 exhaust the range of COUNTs: once the reordering timer has
  delivered them \<open>rx_deliv\<close> is 0 again, and replayed PDUs 0 and 1 are delivered a second time.
\<close>

theorem pdcp_stray_count_witness:
  "\<exists>e0 e1 e2 e. demo_entity False = Inr e0 \<and> pdcp_rx_run plain_aes e0 [Tick 1, Recv [128, 0, 5], Recv [128, 1, 6]] = Inr e1
     \<and> nr_pdcp_entity_recv_pdu plain_aes e1 [143, 255, 9] = Inr e2 \<and> 0xFFFFFFFF \<in> set (counts (rx_list e2))
     \<and> pdcp_rx_run plain_aes e2 [Recv [143, 254, 8], Tick 200, Recv [128, 0, 5], Recv [128, 1, 6]] = Inr e
     \<and> counts (delivered e) = [0, 1, 0xFFFFFFFE, 0xFFFFFFFF, 0, 1]"
proof -
  let ?ops = "[Tick 1, Recv [128, 0, 5], Recv [128, 1, 6]]" and ?b = "[143, 255, 9]"
    and ?ops' = "[Recv [143, 254, 8], Tick 200, Recv [128, 0, 5], Recv [128, 1, 6]]"
  have a: "res_bind (demo_entity False) (\<lambda>e0. res_bind (pdcp_rx_run plain_aes e0 ?ops) (\<lambda>e1.
      Inr (sn_size e1, sn_max e1, window_size e1, rx_deliv e1, rx_list e1, header_size e1, sdap_rx_size e1, integrity_size e1)))
      = Inr (12, 4095, 2048, 2, [], 2, 0, 0)" by code_simp
  have b: "res_bind (demo_entity False) (\<lambda>e0. res_bind (pdcp_rx_run plain_aes e0 ?ops) (\<lambda>e1.
      res_bind (pdu_sn e1 ?b) (\<lambda>sn. Inr (sn, entity_suspended e1, has_integrity e1)))) = Inr (4095, False, False)" by code_simp
  have d: "res_bind (demo_entity False) (\<lambda>e0. res_bind (pdcp_rx_run plain_aes e0 ?ops) (\<lambda>e1.
      res_bind (nr_pdcp_entity_recv_pdu plain_aes e1 ?b) (\<lambda>e2. res_bind (pdcp_rx_run plain_aes e2 ?ops') (\<lambda>e.
      Inr (counts (delivered e)))))) = Inr [0, 1, 0xFFFFFFFE, 0xFFFFFFFF, 0, 1]" by code_simp
  obtain e0 e1 where e: "demo_entity False = Inr e0" "pdcp_rx_run plain_aes e0 ?ops = Inr e1" "sn_size e1 = 12" "sn_max e1 = 4095"
    "window_size e1 = 2048" "rx_deliv e1 = 2" "rx_list e1 = []" "header_size e1 = 2" "sdap_rx_size e1 = 0" "integrity_size e1 = 0"
    using a by (auto simp: res_bind_Inr_iff)
  have s: "pdu_sn e1 ?b = Inr 4095" "\<not> entity_suspended e1" "\<not> has_integrity e1" using b e(1,2) by (auto simp: res_bind_Inr_iff)
  have "sec_ok e0" by (rule new_pdcp_sec_ok [OF e(1) [unfolded demo_entity_def]]) simp_all
  then have "sec_ok e1" using pdcp_rx_run_static [OF e(2)] sec_ok_static by blast
  then obtain e2 where e2: "nr_pdcp_entity_recv_pdu plain_aes e1 ?b = Inr e2" "0xFFFFFFFF \<in> set (counts (rx_list e2))"
    using pdcp_stray_count [of e1 plain_aes ?b 4095 "0xFFFFFFFF"] e s
    by (auto simp: pdcp_config_def pdu_fits_def stray_def counts_def image_iff)
  then show ?thesis using d e(1,2) by (auto simp: res_bind_Inr_iff)
qed

end
