(* ===== verification/PDCP_Channel.thy ===== *)
theory PDCP_Channel
  imports PDCP_Rx
begin

text \<open>
  Two PDCP entities over a network that loses, duplicates and reorders PDUs. A PDU that
  \<open>process_sdu\<close> has numbered, protected and ciphered is recognised by \<open>recv_pdu\<close> of a peer with
  the same security configuration: it recovers the COUNT and the bytes of the SDU.
  \<open>pdcp_net\<close> is the step relation of the pair, and its invariant ties every SDU in the
  receiver to the SDU the sender was given with the same COUNT.
\<close>

section \<open>Slices of a concatenation\<close>

lemma c_slice_middle:
  "int (length a) = off \<Longrightarrow> int (length b) = n \<Longrightarrow> c_slice (a @ b @ r) off n = Inr b"
  by (auto simp: c_slice_def)

lemma c_blit_middle:
  "int (length a) = off \<Longrightarrow> length b' = length b \<Longrightarrow> c_blit (a @ b @ r) off b' = Inr (a @ b' @ r)"
  by (auto simp: c_blit_def)

lemma split_at: "n \<le> length xs \<Longrightarrow> \<exists>a b. xs = a @ b \<and> length a = n"
  by (metis append_take_drop_id length_take min.absorb2)

lemma take_drop_append: "take n xs @ drop n xs @ ys = xs @ ys"
  by (simp flip: append_assoc)

section \<open>The PDU of an SDU\<close>

definition sdap_tx_size :: "nr_pdcp_entity \<Rightarrow> nat" where
  "sdap_tx_size e = (if has_sdap_tx e then 1 else 0)"

text \<open>An SDU that holds its SDAP header and at least one byte more.\<close>

definition sdu_ok :: "nr_pdcp_entity \<Rightarrow> byte list \<Rightarrow> bool" where
  "sdu_ok e sdu \<longleftrightarrow> sdap_tx_size e < length sdu \<and> length sdu < 2 ^ 27"

definition tx_sn :: "nr_pdcp_entity \<Rightarrow> int" where
  "tx_sn e = uint (tx_next e AND word_of_int (sn_max e))"

lemma with_stats_tx [simp]:
  "pdcp_header (with_stats f e) = pdcp_header e" "tx_next (with_stats f e) = tx_next e" "sn_max (with_stats f e) = sn_max e"
  "pdcp_mac aes (with_stats f e) = pdcp_mac aes e" "cipher_pdu aes (with_stats f e) = cipher_pdu aes e"
  by (auto simp: with_stats_def pdcp_header_def pdcp_mac_def cipher_pdu_def header_size_def integrity_size_def
      entity_cipher_key_def entity_integrity_key_def fun_eq_iff Let_def)

text \<open>
  The PDU that is produced: the header, the SDAP header in clear, and the ciphered rest of the
  SDU with the MAC-I.
\<close>

lemma process_sdu_pdu:
  assumes ns: "\<not> entity_suspended e" and sec: "sec_ok e" and aes: "aes_ok aes" and sdu: "sdu_ok e sdu"
    and room: "nr_max_pdcp_pdu_size (int (length sdu)) \<le> int (length buf)"
  obtains mac b out e' where
    "pdcp_mac aes e (pdcp_header e (tx_sn e) @ sdu) (tx_next e) = Inr mac" "int (length mac) = integrity_size e"
    "if has_ciphering e
     then call_cipher aes (cipher e) (entity_cipher_key e) (drop (sdap_tx_size e) (sdu @ mac)) (rb_id e) (tx_next e)
            (if is_gnb e then 1 else 0) = Inr b
     else b = drop (sdap_tx_size e) (sdu @ mac)"
    "length b = length (drop (sdap_tx_size e) (sdu @ mac))"
    "nr_pdcp_entity_process_sdu aes e sdu buf = Inr (header_size e + int (length sdu) + integrity_size e, out, e')"
    "take (nat (header_size e + int (length sdu) + integrity_size e)) out
       = pdcp_header e (tx_sn e) @ take (sdap_tx_size e) sdu @ b"
    "tx_next e' = tx_next e + 1" "static e' = static e"
proof -
  let ?H = "pdcp_header e (tx_sn e)" and ?n = "length sdu" and ?d = "if is_gnb e then 1 else 0 :: int"
  have in_ok: "cipher_input m (rb_id e) ?d" if "m \<noteq> []" "length m < 2 ^ 29" for m
    using sec that by (auto simp: cipher_input_def sec_ok_def)
  have H: "length ?H \<le> 3" "?H \<noteq> []" by (simp_all add: pdcp_header_def Let_def)
  have "\<exists>mac. pdcp_mac aes e (?H @ sdu) (tx_next e) = Inr mac \<and> int (length mac) = integrity_size e"
  proof (cases "has_integrity e")
    case True
    then obtain f k where fk: "integrity e = Some f" "entity_integrity_key e = Some k" using sec by (auto simp: sec_ok_def)
    have "cipher_input (?H @ sdu) (rb_id e) ?d" using H sdu by (intro in_ok) (auto simp: sdu_ok_def)
    then obtain mac where "call_integrity aes (Some f) (Some k) [0, 0, 0, 0] (?H @ sdu) (rb_id e) (tx_next e) ?d = Inr mac" "length mac = 4"
      using call_integrity_total [OF aes] by blast
    then show ?thesis using True fk by (auto simp: pdcp_mac_def c_slice_def integrity_size_def)
  qed (auto simp: pdcp_mac_def integrity_size_def)
  then obtain mac where mac: "pdcp_mac aes e (?H @ sdu) (tx_next e) = Inr mac" "int (length mac) = integrity_size e" by blast
  have lm: "length mac \<le> 4" using mac(2) by (auto simp: integrity_size_def split: if_splits)
  let ?m = "drop (sdap_tx_size e) (sdu @ mac)"
  have m: "?m \<noteq> []" "length ?m < 2 ^ 29" using sdu lm by (auto simp: sdu_ok_def)
  have "\<exists>b. (if has_ciphering e then call_cipher aes (cipher e) (entity_cipher_key e) ?m (rb_id e) (tx_next e) ?d = Inr b
       else b = ?m) \<and> length b = length ?m"
  proof (cases "has_ciphering e")
    case True
    then obtain f k where fk: "cipher e = Some f" "entity_cipher_key e = Some k" "f = Nea2_cipher \<longrightarrow> rb_id e < 32"
      using sec by (auto simp: sec_ok_def)
    then show ?thesis using call_cipher_twice [OF aes in_ok [OF m] fk(3), of k "tx_next e"] True by auto
  qed simp
  then obtain b where b: "if has_ciphering e then call_cipher aes (cipher e) (entity_cipher_key e) ?m (rb_id e) (tx_next e) ?d = Inr b
       else b = ?m" "length b = length ?m" by blast
  have "length ?H + ?n + length mac \<le> length buf"
    using room H(1) lm by (simp add: nr_max_pdcp_pdu_size_def)
  then have l: "length ?H \<le> length buf" "?n + length mac \<le> length buf - length ?H" by simp_all
  obtain h0 b1 where h0: "buf = h0 @ b1" "length h0 = length ?H" using split_at [OF l(1)] by blast
  have l1: "?n \<le> length b1" "length mac \<le> length b1 - ?n" using l(2) h0 by simp_all
  obtain s0 b2 where s0: "b1 = s0 @ b2" "length s0 = ?n" using split_at [OF l1(1)] by blast
  have l2: "length mac \<le> length b2" using l1(2) s0 by simp
  obtain m0 r where m0: "b2 = m0 @ r" "length m0 = length mac" using split_at [OF l2] by blast
  have buf: "buf = h0 @ s0 @ m0 @ r" using h0(1) s0(1) m0(1) by simp
  have hs: "int (length ?H) = header_size e" by simp
  have b1: "c_blit buf 0 ?H = Inr (?H @ s0 @ m0 @ r)"
    using c_blit_middle [of "[]" 0 ?H h0 "s0 @ m0 @ r"] h0(2) unfolding buf by simp
  have b2: "c_blit (?H @ s0 @ m0 @ r) (header_size e) sdu = Inr (?H @ sdu @ m0 @ r)"
    by (rule c_blit_middle [OF hs]) (simp add: s0(2))
  have hn: "int (length (?H @ sdu)) = header_size e + int ?n" by simp
  have b3: "c_slice (?H @ sdu @ m0 @ r) 0 (header_size e + int ?n) = Inr (?H @ sdu)"
    using c_slice_middle [of "[]" 0 "?H @ sdu", OF _ hn, of "m0 @ r"] by simp
  have b4: "c_blit (?H @ sdu @ m0 @ r) (header_size e + int ?n) mac = Inr (?H @ sdu @ mac @ r)"
    using c_blit_middle [OF hn, of mac m0 r] m0(2) by simp
  let ?s = "sdap_tx_size e"
  have split: "?H @ sdu @ mac @ r = (?H @ take ?s sdu) @ ?m @ r"
    using sdu by (simp add: sdu_ok_def take_drop_append)
  have off: "int (length (?H @ take ?s sdu)) = header_size e + int ?s"
    using sdu by (simp add: sdu_ok_def)
  have len: "int (length ?m) = int ?n + integrity_size e - int ?s"
    using sdu mac(2) by (simp add: sdu_ok_def)
  have s: "(if has_sdap_tx e then 1 else 0) = int ?s" by (simp add: sdap_tx_size_def)
  have b5: "cipher_pdu aes e (?H @ sdu @ mac @ r) (tx_next e) (int ?n) = Inr (?H @ take ?s sdu @ b @ r)"
  proof (cases "has_ciphering e")
    case True
    have "c_slice (?H @ sdu @ mac @ r) (header_size e + int ?s) (int ?n + integrity_size e - int ?s) = Inr ?m"
      unfolding split by (rule c_slice_middle [OF off len])
    moreover have "c_blit (?H @ sdu @ mac @ r) (header_size e + int ?s) b = Inr ((?H @ take ?s sdu) @ b @ r)"
      unfolding split by (rule c_blit_middle [OF off b(2)])
    ultimately show ?thesis using True b(1) unfolding cipher_pdu_def Let_def s by simp
  next
    case False
    then show ?thesis using b(1) split by (simp add: cipher_pdu_def)
  qed
  define out where "out = ?H @ take ?s sdu @ b @ r"
  define e' where "e' = (let e1 = with_stats (\<lambda>st. st\<lparr>rxsdu_pkts := rxsdu_pkts st + 1,
      rxsdu_bytes := rxsdu_bytes st + word_of_int (int ?n)\<rparr>) e in with_stats (\<lambda>st. st\<lparr>txpdu_pkts := txpdu_pkts st + 1,
      txpdu_bytes := txpdu_bytes st + word_of_int (header_size e + int ?n + integrity_size e), txpdu_sn := word_of_int (tx_sn e)\<rparr>)
      (e1\<lparr>tx_next := tx_next e1 + 1\<rparr>))"
  have ret: "nr_pdcp_entity_process_sdu aes e sdu buf = Inr (header_size e + int ?n + integrity_size e, out, e')"
    using room ns b1 b2 b3 mac(1) b4 b5
    unfolding nr_pdcp_entity_process_sdu_def Let_def e'_def tx_sn_def out_def by simp
  have "take (nat (header_size e + int ?n + integrity_size e)) out = ?H @ take ?s sdu @ b"
  proof -
    have "int (length (?H @ take ?s sdu @ b)) = header_size e + int ?n + integrity_size e"
      using off len b(2) by simp
    then have "nat (header_size e + int ?n + integrity_size e) = length (?H @ take ?s sdu @ b)" by (metis nat_int)
    moreover have "out = (?H @ take ?s sdu @ b) @ r" by (simp add: out_def)
    ultimately show ?thesis by (metis append_eq_conv_conj)
  qed
  moreover have "tx_next e' = tx_next e + 1" "static e' = static e"
    by (simp_all add: e'_def Let_def) (simp add: static_def with_stats_def)
  ultimately show ?thesis using that [OF mac b ret] by blast
qed

section \<open>Reception of that PDU\<close>

text \<open>A receiver with the configuration of the sender, on the other side of the air interface.\<close>

definition pdcp_peers :: "nr_pdcp_entity \<Rightarrow> nr_pdcp_entity \<Rightarrow> bool" where
  "pdcp_peers tx rx \<longleftrightarrow> pdcp_config tx \<and> sec_ok tx \<and> sec_ok rx \<and> \<not> entity_suspended tx \<and> \<not> entity_suspended rx
     \<and> entity_type rx = entity_type tx \<and> rb_id rx = rb_id tx \<and> sn_size rx = sn_size tx \<and> sn_max rx = sn_max tx
     \<and> window_size rx = window_size tx \<and> has_ciphering rx = has_ciphering tx \<and> decipher rx = cipher tx
     \<and> entity_cipher_key rx = entity_cipher_key tx \<and> has_integrity rx = has_integrity tx \<and> integrity rx = integrity tx
     \<and> entity_integrity_key rx = entity_integrity_key tx \<and> is_gnb rx = (\<not> is_gnb tx) \<and> has_sdap_rx rx = has_sdap_tx tx"

lemma static_sel:
  assumes "static e' = static e"
  shows "entity_type e' = entity_type e" "rb_id e' = rb_id e" "has_sdap_rx e' = has_sdap_rx e" "has_sdap_tx e' = has_sdap_tx e"
    "sn_size e' = sn_size e" "sn_max e' = sn_max e" "window_size e' = window_size e" "has_ciphering e' = has_ciphering e"
    "has_integrity e' = has_integrity e" "cipher e' = cipher e" "decipher e' = decipher e" "integrity e' = integrity e"
    "is_gnb e' = is_gnb e" "entity_suspended e' = entity_suspended e"
    "entity_cipher_key e' = entity_cipher_key e" "entity_integrity_key e' = entity_integrity_key e"
  using assms by (simp_all add: static_def entity_cipher_key_def entity_integrity_key_def)

lemma pdcp_peers_static:
  assumes "static tx' = static tx" "static rx' = static rx"
  shows "pdcp_peers tx' rx' = pdcp_peers tx rx"
  unfolding pdcp_peers_def pdcp_config_def sec_ok_static [OF assms(1)] sec_ok_static [OF assms(2)]
    static_sel [OF assms(1)] static_sel [OF assms(2)] by (rule refl)

lemma peers_eq:
  assumes "pdcp_peers tx rx"
  shows "header_size rx = header_size tx" "integrity_size rx = integrity_size tx" "sdap_rx_size rx = int (sdap_tx_size tx)"
    "pdcp_header rx sn = pdcp_header tx sn" "pdcp_config rx" "(if is_gnb rx then 0 else 1 :: int) = (if is_gnb tx then 1 else 0)"
  using assms by (simp_all add: pdcp_peers_def header_size_def integrity_size_def sdap_rx_size_def sdap_tx_size_def
      pdcp_header_def pdcp_config_def Let_def)

definition in_window :: "nr_pdcp_entity \<Rightarrow> u32 \<Rightarrow> bool" where
  "in_window rx c \<longleftrightarrow> uint (rx_deliv rx) - window_size rx \<le> uint c \<and> uint c < uint (rx_deliv rx) + window_size rx"

lemma recv_genuine:
  assumes peers: "pdcp_peers tx rx" and aes: "aes_ok aes" and sdu: "sdu_ok tx sdu" and win: "in_window rx (tx_next tx)"
    and mac: "pdcp_mac aes tx (pdcp_header tx (tx_sn tx) @ sdu) (tx_next tx) = Inr mac" "int (length mac) = integrity_size tx"
    and b: "if has_ciphering tx
     then call_cipher aes (cipher tx) (entity_cipher_key tx) (drop (sdap_tx_size tx) (sdu @ mac)) (rb_id tx) (tx_next tx)
            (if is_gnb tx then 1 else 0) = Inr b
     else b = drop (sdap_tx_size tx) (sdu @ mac)"
    "length b = length (drop (sdap_tx_size tx) (sdu @ mac))"
  shows "\<exists>mi f. nr_pdcp_entity_recv_pdu aes rx (pdcp_header tx (tx_sn tx) @ take (sdap_tx_size tx) sdu @ b) =
     Inr (let rx1 = with_stats f rx in
          if tx_next tx < rx_deliv rx \<or> nr_pdcp_sdu_in_list (rx_list rx) (tx_next tx)
          then discard_duplicate rx1 (pdcp_header tx (tx_sn tx) @ sdu @ mac)
          else store_sdu rx1 (tx_next tx) (nr_pdcp_new_sdu (tx_next tx) sdu mi) (int (length sdu) + integrity_size tx))"
proof -
  let ?H = "pdcp_header rx (tx_sn tx)" and ?s = "sdap_tx_size tx" and ?c = "tx_next tx"
  let ?pdu = "?H @ take ?s sdu @ b" and ?m = "drop (sdap_tx_size tx) (sdu @ mac)"
  note pe = peers_eq [OF peers]
  define rx1 where "rx1 = with_stats (\<lambda>st. st\<lparr>rxpdu_sn := word_of_int (tx_sn tx)\<rparr>) (with_stats (count_rx_pdu ?pdu) rx)"
  have st: "static rx1 = static rx" by (simp add: rx1_def)
  have sn: "rcvd_sn rx ?pdu = Inr (tx_sn tx)"
  proof -
    have "sn_max tx = sn_max rx" using peers by (simp add: pdcp_peers_def)
    then have "tx_sn tx = uint ?c mod 2 ^ nat (sn_size rx)"
      unfolding tx_sn_def by (simp add: sn_of_count [OF pe(5)])
    then have "0 \<le> tx_sn tx" "tx_sn tx \<le> sn_max rx"
      using pe(5) by (simp_all add: pdcp_config_def)
    then show ?thesis by (rule rcvd_sn_header [OF pe(5)])
  qed
  have cnt: "rcvd_count rx (tx_sn tx) = ?c"
  proof -
    have "sn_max tx = sn_max rx" using peers by (simp add: pdcp_peers_def)
    then show ?thesis
      unfolding tx_sn_def using rcvd_count_correct [OF pe(5), of ?c] win by (simp add: in_window_def)
  qed
  have len: "int (length ?pdu) = header_size rx + int (length sdu) + integrity_size rx"
    using sdu mac(2) b(2) pe by (simp add: sdu_ok_def)
  have "integrity_size rx \<le> 4" by (simp add: integrity_size_def)
  then have "int (length ?pdu) < 2 ^ 28" unfolding len using sdu size_bounds(2) [of rx] by (simp add: sdu_ok_def)
  then have "length ?pdu < 2 ^ 28" by (metis of_nat_less_iff of_nat_numeral of_nat_power)
  moreover have "header_size rx + sdap_rx_size rx + integrity_size rx + 1 \<le> int (length ?pdu)"
    unfolding len pe(3) using sdu by (simp add: sdu_ok_def)
  ultimately have fits: "pdu_fits rx1 ?pdu" by (simp add: pdu_fits_def rx1_def)
  obtain mi where mi: "msg_integrity rx ?pdu ?c = Inr mi"
    using msg_integrity_ok [OF fits] by (auto simp: rx1_def)
  have split: "?H @ sdu @ mac = (?H @ take ?s sdu) @ ?m"
    using sdu by (simp add: sdu_ok_def take_drop_append)
  have off: "int (length (?H @ take ?s sdu)) = header_size rx + sdap_rx_size rx"
    using sdu pe by (simp add: sdu_ok_def)
  have dec: "decipher_pdu aes rx ?pdu ?c = Inr (?H @ sdu @ mac)"
  proof (cases "has_ciphering rx")
    case True
    have "call_cipher aes (decipher rx) (entity_cipher_key rx) b (rb_id rx) ?c (if is_gnb rx then 0 else 1) = Inr ?m"
    proof -
      have hc: "has_ciphering tx" using True peers by (simp add: pdcp_peers_def)
      then obtain f k where fk: "cipher tx = Some f" "entity_cipher_key tx = Some k" "f = Nea2_cipher \<longrightarrow> rb_id tx < 32"
        using peers by (auto simp: pdcp_peers_def sec_ok_def)
      have "length mac \<le> 4" using mac(2) by (auto simp: integrity_size_def split: if_splits)
      then have "cipher_input ?m (rb_id tx) (if is_gnb tx then 1 else 0)"
        using sdu peers by (auto simp: cipher_input_def sdu_ok_def pdcp_peers_def sec_ok_def)
      from call_cipher_twice [OF aes this fk(3), of k ?c] b(1) hc fk(1,2)
      have "call_cipher aes (Some f) (Some k) b (rb_id tx) ?c (if is_gnb tx then 1 else 0) = Inr ?m" by auto
      then show ?thesis unfolding pe(6) using peers fk by (simp add: pdcp_peers_def)
    qed
    moreover have "c_slice ?pdu (header_size rx + sdap_rx_size rx) (int (length ?pdu) - (header_size rx + sdap_rx_size rx)) = Inr b"
    proof -
      have "int (length b) = int (length ?pdu) - (header_size rx + sdap_rx_size rx)" unfolding off [symmetric] by simp
      then show ?thesis using c_slice_middle [OF off, of b _ "[]"] by (metis append.right_neutral append_assoc)
    qed
    moreover have "c_blit ?pdu (header_size rx + sdap_rx_size rx) ?m = Inr (?H @ sdu @ mac)"
      unfolding split using c_blit_middle [OF off, of ?m b "[]"] b(2) by simp
    ultimately show ?thesis using True by (simp add: decipher_pdu_def Let_def)
  next
    case False
    then show ?thesis using b(1) peers unfolding split by (simp add: decipher_pdu_def pdcp_peers_def)
  qed
  have hsl: "int (length ?H) = header_size rx" by simp
  have int: "integrity_passes aes rx (?H @ sdu @ mac) ?c = Inr True"
  proof (cases "has_integrity rx")
    case True
    then have hi: "has_integrity tx" and l4: "integrity_size rx = 4" "length mac = 4"
      using peers mac(2) by (simp_all add: pdcp_peers_def integrity_size_def)
    obtain mac' where m': "call_integrity aes (integrity tx) (entity_integrity_key tx) [0, 0, 0, 0] (?H @ sdu) (rb_id tx) ?c
        (if is_gnb tx then 1 else 0) = Inr mac'" "c_slice mac' 0 4 = Inr mac"
      using mac(1) hi unfolding pdcp_mac_def pe(4) by (auto simp: res_simps)
    obtain f k where fk: "integrity tx = Some f" "entity_integrity_key tx = Some k"
      using peers hi by (auto simp: pdcp_peers_def sec_ok_def)
    have "cipher_input (?H @ sdu) (rb_id tx) (if is_gnb tx then 1 else 0)"
    proof -
      have "0 < rb_id tx" "rb_id tx \<le> 32" using peers by (simp_all add: pdcp_peers_def sec_ok_def)
      moreover have "length ?H \<le> 3" by (simp add: pdcp_header_def Let_def)
      moreover have "sdu \<noteq> []" using sdu by (auto simp: sdu_ok_def)
      ultimately show ?thesis using sdu by (simp add: cipher_input_def sdu_ok_def)
    qed
    then have "length mac' = 4"
      using call_integrity_total [OF aes, of "?H @ sdu" "rb_id tx" "if is_gnb tx then 1 else 0" f k "[0, 0, 0, 0]" ?c] m'(1) fk by auto
    then have "mac' = mac" using m'(2) by (simp add: c_slice_def)
    then have ci: "call_integrity aes (integrity rx) (entity_integrity_key rx) [0, 0, 0, 0] (?H @ sdu) (rb_id rx) ?c
        (if is_gnb rx then 0 else 1) = Inr mac"
      unfolding pe(6) using peers m'(1) by (simp add: pdcp_peers_def)
    have n: "int (length (?H @ sdu @ mac)) - integrity_size rx = int (length (?H @ sdu))" using l4 by simp
    have "c_slice (?H @ sdu @ mac) 0 (int (length (?H @ sdu))) = Inr (?H @ sdu)"
      using c_slice_middle [of "[]" 0 "?H @ sdu" _ mac] by simp
    moreover have "c_slice (?H @ sdu @ mac) (int (length (?H @ sdu))) 4 = Inr mac"
      using c_slice_middle [of "?H @ sdu" _ mac 4 "[]"] l4 by simp
    ultimately show ?thesis using True ci unfolding integrity_passes_def Let_def n by simp
  qed (simp add: integrity_passes_def)
  have acc: "accept_pdu rx1 (?H @ sdu @ mac) ?c mi = Inr (if ?c < rx_deliv rx \<or> nr_pdcp_sdu_in_list (rx_list rx) ?c
      then discard_duplicate rx1 (?H @ sdu @ mac)
      else store_sdu rx1 ?c (nr_pdcp_new_sdu ?c sdu mi) (int (length sdu) + integrity_size tx))"
  proof -
    have lp: "int (length (?H @ sdu @ mac)) = header_size rx + int (length sdu) + integrity_size rx"
      using mac(2) pe(2) by simp
    have "c_slice (?H @ sdu @ mac) (header_size rx) (int (length sdu)) = Inr sdu"
      by (rule c_slice_middle [OF hsl]) simp
    then show ?thesis unfolding accept_pdu_def Let_def lp by (simp add: rx1_def pe(2))
  qed
  have "\<not> entity_suspended rx" using peers by (simp add: pdcp_peers_def)
  moreover have "\<not> int (length ?pdu) < 1" "\<not> int (length ?pdu) < header_size rx + sdap_rx_size rx + integrity_size rx + 1"
    using fits size_bounds [of rx] by (auto simp: pdu_fits_def rx1_def)
  ultimately have "nr_pdcp_entity_recv_pdu aes rx ?pdu = accept_pdu rx1 (?H @ sdu @ mac) ?c mi"
    using sn mi dec int cnt unfolding nr_pdcp_entity_recv_pdu_def rx1_def Let_def by simp
  moreover have "rx1 = with_stats (\<lambda>st. (count_rx_pdu ?pdu st)\<lparr>rxpdu_sn := word_of_int (tx_sn tx)\<rparr>) rx"
    by (simp add: rx1_def with_stats_def)
  ultimately show ?thesis unfolding acc pe(4) [symmetric] Let_def by metis
qed

section \<open>A sender, a receiver, and a network in between\<close>

text \<open>
  The network remembers every PDU it was given and may hand any of them to the receiver, at
  any time, any number of times and in any order, as long as its COUNT is within the window of
  the receiver. The sender gets its SDUs one by one, and the clock of the receiver may advance
  at any time.
\<close>

record pdcp_net =
  net_tx :: nr_pdcp_entity
  net_rx :: nr_pdcp_entity
  net_sdus :: "byte list list"
  net_pdus :: "byte list list"

inductive pdcp_step :: "aes_lib \<Rightarrow> pdcp_net \<Rightarrow> pdcp_net \<Rightarrow> bool" for aes where
  send: "sdu_ok (net_tx s) sdu \<Longrightarrow> nr_pdcp_entity_process_sdu aes (net_tx s) sdu buf = Inr (n, out, tx') \<Longrightarrow>
    pdcp_step aes s (s\<lparr>net_tx := tx', net_sdus := net_sdus s @ [sdu], net_pdus := net_pdus s @ [take (nat n) out]\<rparr>)"
| receive: "i < length (net_pdus s) \<Longrightarrow> in_window (net_rx s) (of_nat i) \<Longrightarrow>
    nr_pdcp_entity_recv_pdu aes (net_rx s) (net_pdus s ! i) = Inr rx' \<Longrightarrow> pdcp_step aes s (s\<lparr>net_rx := rx'\<rparr>)"
| tick: "pdcp_step aes s (s\<lparr>net_rx := nr_pdcp_entity_set_time (net_rx s) now\<rparr>)"

definition net_init :: "pdcp_net \<Rightarrow> bool" where
  "net_init s \<longleftrightarrow> pdcp_peers (net_tx s) (net_rx s) \<and> tx_next (net_tx s) = 0 \<and> rx_deliv (net_rx s) = 0
     \<and> rx_list (net_rx s) = [] \<and> delivered (net_rx s) = [] \<and> t_reordering_start (net_rx s) = 0
     \<and> net_sdus s = [] \<and> net_pdus s = []"

definition from_sender :: "byte list list \<Rightarrow> nr_pdcp_sdu \<Rightarrow> bool" where
  "from_sender sdus x \<longleftrightarrow> unat (sdu_count x) < length sdus \<and> sdu_buffer x = sdus ! unat (sdu_count x)"

text \<open>What the network knows of its PDU \<open>i\<close>: any peer receiver that has \<open>i\<close> in its window accepts it.\<close>

definition genuine :: "aes_lib \<Rightarrow> nr_pdcp_entity \<Rightarrow> u32 \<Rightarrow> byte list \<Rightarrow> byte list \<Rightarrow> bool" where
  "genuine aes tx c sdu pdu \<longleftrightarrow> (\<forall>rx. pdcp_peers tx rx \<and> in_window rx c \<longrightarrow>
     (\<exists>mi f b n. nr_pdcp_entity_recv_pdu aes rx pdu =
       Inr (let rx1 = with_stats f rx in
          if c < rx_deliv rx \<or> nr_pdcp_sdu_in_list (rx_list rx) c then discard_duplicate rx1 b
          else store_sdu rx1 c (nr_pdcp_new_sdu c sdu mi) n)))"

definition net_inv :: "aes_lib \<Rightarrow> pdcp_net \<Rightarrow> bool" where
  "net_inv aes s \<longleftrightarrow> pdcp_peers (net_tx s) (net_rx s) \<and> length (net_pdus s) = length (net_sdus s)
     \<and> tx_next (net_tx s) = of_nat (length (net_sdus s)) \<and> pdcp_rx_inv (net_rx s)
     \<and> (\<forall>i < length (net_sdus s). genuine aes (net_tx s) (of_nat i) (net_sdus s ! i) (net_pdus s ! i))
     \<and> (\<forall>x\<in>set (rx_list (net_rx s)) \<union> set (delivered (net_rx s)). from_sender (net_sdus s) x)"

lemma process_genuine:
  assumes peers: "pdcp_peers tx rx" and aes: "aes_ok aes" and sdu: "sdu_ok tx sdu"
    and p: "nr_pdcp_entity_process_sdu aes tx sdu buf = Inr (n, out, tx')"
  shows "genuine aes tx (tx_next tx) sdu (take (nat n) out)" "tx_next tx' = tx_next tx + 1" "static tx' = static tx"
proof -
  have ns: "\<not> entity_suspended tx" "sec_ok tx" using peers by (simp_all add: pdcp_peers_def)
  have room: "nr_max_pdcp_pdu_size (int (length sdu)) \<le> int (length buf)"
    using p unfolding nr_pdcp_entity_process_sdu_def Let_def by (rule contrapos_pp) simp
  obtain mac b out' e' where q:
    "pdcp_mac aes tx (pdcp_header tx (tx_sn tx) @ sdu) (tx_next tx) = Inr mac" "int (length mac) = integrity_size tx"
    "if has_ciphering tx
     then call_cipher aes (cipher tx) (entity_cipher_key tx) (drop (sdap_tx_size tx) (sdu @ mac)) (rb_id tx) (tx_next tx)
            (if is_gnb tx then 1 else 0) = Inr b
     else b = drop (sdap_tx_size tx) (sdu @ mac)"
    "length b = length (drop (sdap_tx_size tx) (sdu @ mac))"
    "nr_pdcp_entity_process_sdu aes tx sdu buf = Inr (header_size tx + int (length sdu) + integrity_size tx, out', e')"
    "take (nat (header_size tx + int (length sdu) + integrity_size tx)) out'
       = pdcp_header tx (tx_sn tx) @ take (sdap_tx_size tx) sdu @ b"
    "tx_next e' = tx_next tx + 1" "static e' = static tx"
    by (rule process_sdu_pdu [OF ns aes sdu room])
  have eq: "n = header_size tx + int (length sdu) + integrity_size tx" "out = out'" "tx' = e'" using p q(5) by simp_all
  show "tx_next tx' = tx_next tx + 1" "static tx' = static tx" using q(7,8) eq(3) by simp_all
  show "genuine aes tx (tx_next tx) sdu (take (nat n) out)"
    unfolding genuine_def eq q(6)
  proof (intro allI impI)
    fix r assume "pdcp_peers tx r \<and> in_window r (tx_next tx)"
    then have "pdcp_peers tx r" "in_window r (tx_next tx)" by simp_all
    from recv_genuine [OF this(1) aes sdu this(2) q(1-4)]
    show "\<exists>mi f b' n. nr_pdcp_entity_recv_pdu aes r (pdcp_header tx (tx_sn tx) @ take (sdap_tx_size tx) sdu @ b) =
      Inr (let rx1 = with_stats f r in
          if tx_next tx < rx_deliv r \<or> nr_pdcp_sdu_in_list (rx_list r) (tx_next tx) then discard_duplicate rx1 b'
          else store_sdu rx1 (tx_next tx) (nr_pdcp_new_sdu (tx_next tx) sdu mi) n)"
      by blast
  qed
qed

lemma genuine_static:
  assumes "static tx' = static tx"
  shows "genuine aes tx' c sdu pdu = genuine aes tx c sdu pdu"
  using pdcp_peers_static [OF assms refl] by (simp add: genuine_def)

lemma from_sender_append: "from_sender sdus x \<Longrightarrow> from_sender (sdus @ later) x"
  by (auto simp: from_sender_def nth_append)

section \<open>The invariant of the network\<close>

lemma net_inv_send:
  assumes inv: "net_inv aes s" and aes: "aes_ok aes" and sdu: "sdu_ok (net_tx s) sdu"
    and p: "nr_pdcp_entity_process_sdu aes (net_tx s) sdu buf = Inr (n, out, tx')"
  shows "net_inv aes (s\<lparr>net_tx := tx', net_sdus := net_sdus s @ [sdu], net_pdus := net_pdus s @ [take (nat n) out]\<rparr>)"
proof -
  have peers: "pdcp_peers (net_tx s) (net_rx s)" using inv by (simp add: net_inv_def)
  note g = process_genuine [OF peers aes sdu p]
  have "pdcp_peers tx' (net_rx s)" using peers pdcp_peers_static [OF g(3) refl] by simp
  moreover have "genuine aes tx' (of_nat i) ((net_sdus s @ [sdu]) ! i) ((net_pdus s @ [take (nat n) out]) ! i)"
    if "i < Suc (length (net_sdus s))" for i
    using that g(1) inv unfolding genuine_static [OF g(3)] by (auto simp: net_inv_def nth_append less_Suc_eq)
  ultimately show ?thesis
    using inv g(2) by (auto simp: net_inv_def intro: from_sender_append)
qed

lemma net_inv_receive:
  assumes inv: "net_inv aes s" and small: "length (net_sdus s) < 2 ^ 32"
    and i: "i < length (net_pdus s)" "in_window (net_rx s) (of_nat i)"
    and r: "nr_pdcp_entity_recv_pdu aes (net_rx s) (net_pdus s ! i) = Inr rx'"
  shows "net_inv aes (s\<lparr>net_rx := rx'\<rparr>)"
proof -
  let ?rx = "net_rx s" and ?c = "of_nat i :: u32"
  have len: "i < length (net_sdus s)" using inv i(1) by (simp add: net_inv_def)
  have st: "static rx' = static ?rx" by (rule static_recv_pdu [OF r])
  have gen: "genuine aes (net_tx s) ?c (net_sdus s ! i) (net_pdus s ! i)" and peers: "pdcp_peers (net_tx s) ?rx"
    using inv len by (simp_all add: net_inv_def)
  obtain mi f b n where "rx' = (let rx1 = with_stats f ?rx in
      if ?c < rx_deliv ?rx \<or> nr_pdcp_sdu_in_list (rx_list ?rx) ?c then discard_duplicate rx1 b
      else store_sdu rx1 ?c (nr_pdcp_new_sdu ?c (net_sdus s ! i) mi) n)"
    using gen peers i(2) r unfolding genuine_def by fastforce
  then have "set (rx_list rx') \<union> set (delivered rx') \<subseteq> insert (nr_pdcp_new_sdu ?c (net_sdus s ! i) mi) (set (rx_list ?rx) \<union> set (delivered ?rx))"
    using store_contents [of "with_stats f ?rx" ?c "nr_pdcp_new_sdu ?c (net_sdus s ! i) mi" n]
    by (auto simp: Let_def discard_duplicate_def with_stats_def split: if_splits)
  moreover have "from_sender (net_sdus s) (nr_pdcp_new_sdu ?c (net_sdus s ! i) mi)"
  proof -
    have "unat ?c = i" using len small by (simp add: unat_of_nat)
    then show ?thesis using len by (simp add: from_sender_def nr_pdcp_new_sdu_def)
  qed
  ultimately have "\<forall>x\<in>set (rx_list rx') \<union> set (delivered rx'). from_sender (net_sdus s) x"
    using inv by (auto simp: net_inv_def)
  moreover have "pdcp_peers (net_tx s) rx'" using peers pdcp_peers_static [OF refl st] by simp
  ultimately show ?thesis using inv recv_pdu_inv [OF r] by (simp add: net_inv_def)
qed

lemma net_inv_tick:
  assumes "net_inv aes s"
  shows "net_inv aes (s\<lparr>net_rx := nr_pdcp_entity_set_time (net_rx s) now\<rparr>)"
proof -
  have "static (nr_pdcp_entity_set_time (net_rx s) now) = static (net_rx s)" by (simp add: nr_pdcp_entity_set_time_def)
  from pdcp_peers_static [OF refl this, of "net_tx s"]
  show ?thesis using assms set_time_inv [of "net_rx s" now] time_contents [of "net_rx s" now]
    by (simp add: net_inv_def)
qed

lemma net_inv_init: "net_init s \<Longrightarrow> net_inv aes s"
  by (simp add: net_init_def net_inv_def pdcp_rx_inv_def in_order_def)

lemma net_reachable:
  assumes "(pdcp_step aes)\<^sup>*\<^sup>* s0 s" "net_init s0" "aes_ok aes"
  shows "length (net_sdus s) < 2 ^ 32 \<Longrightarrow> net_inv aes s"
  using assms
proof (induction rule: rtranclp_induct)
  case base
  then show ?case by (simp add: net_inv_init)
next
  case (step s t)
  have "length (net_sdus s) \<le> length (net_sdus t)" using step.hyps(2) by cases simp_all
  then have small: "length (net_sdus s) < 2 ^ 32" using step.prems(1) by linarith
  with step have inv: "net_inv aes s" by simp
  from step.hyps(2) show ?case
    by cases (use inv small step.prems(3) in \<open>auto intro: net_inv_send net_inv_receive net_inv_tick\<close>)
qed

section \<open>What the receiver makes of a PDU in its window\<close>

definition carries :: "nr_pdcp_sdu list \<Rightarrow> u32 \<Rightarrow> byte list \<Rightarrow> bool" where
  "carries l c d \<longleftrightarrow> (\<exists>x\<in>set l. sdu_count x = c \<and> sdu_buffer x = d)"

lemma deliver_from_delivered: "set (delivered e) \<subseteq> set (delivered (snd (deliver_from l c e)))"
proof (induction l arbitrary: c e)
  case (Cons x l)
  have "set (delivered e) \<subseteq> set (delivered (deliver_head x l e))" by (auto simp: deliver_head_def)
  then show ?case using Cons.IH [of "deliver_head x l e" "c + 1"] by auto
qed simp

lemma store_at_deliv:
  assumes "pdcp_rx_inv e" "sdu_count sdu = rx_deliv e"
  shows "sdu \<in> set (delivered (store_sdu e (rx_deliv e) sdu n))"
proof -
  have add: "nr_pdcp_sdu_list_add (rx_list e) sdu = sdu # rx_list e"
    using assms by (cases "rx_list e") (auto simp: pdcp_rx_inv_def)
  have "sdu \<in> set (delivered (deliver_in_sequence (rx_deliv e) e1))" if "rx_list e1 = sdu # rx_list e" for e1
  proof -
    have "sdu \<in> set (delivered (deliver_head sdu (rx_list e) e1))" by (simp add: deliver_head_def)
    then have "sdu \<in> set (delivered (snd (deliver_from (rx_list e1) (rx_deliv e) e1)))"
      using deliver_from_delivered [of "deliver_head sdu (rx_list e) e1" "rx_list e" "rx_deliv e + 1"] assms(2)
      unfolding that by auto
    then show ?thesis by (cases "deliver_from (rx_list e1) (rx_deliv e) e1") (simp add: deliver_in_sequence_def)
  qed
  then show ?thesis by (simp add: store_sdu_def update_t_reordering_def Let_def add)
qed

lemma net_top_free:
  assumes "net_inv aes s" "length (net_sdus s) < 2 ^ 32"
  shows "- 1 \<notin> set (counts (delivered (net_rx s)))"
proof -
  have "unat (- 1 :: u32) = 2 ^ 32 - 1" by (simp add: unsigned_minus_1_eq_mask mask_eq_exp_minus_1)
  moreover have "\<forall>x\<in>set (delivered (net_rx s)). from_sender (net_sdus s) x" using assms(1) by (simp add: net_inv_def)
  ultimately show ?thesis using assms(2) by (fastforce simp: counts_def from_sender_def)
qed

lemma net_accepts:
  assumes inv: "net_inv aes s" and small: "length (net_sdus s) < 2 ^ 32"
    and i: "i < length (net_pdus s)" "in_window (net_rx s) (of_nat i)"
  shows "(\<exists>rx'. nr_pdcp_entity_recv_pdu aes (net_rx s) (net_pdus s ! i) = Inr rx'
           \<and> (of_nat i < rx_deliv (net_rx s) \<or> carries (rx_list rx' @ delivered rx') (of_nat i) (net_sdus s ! i))
           \<and> (of_nat i = rx_deliv (net_rx s) \<longrightarrow> carries (delivered rx') (of_nat i) (net_sdus s ! i) \<and> rx_deliv (net_rx s) < rx_deliv rx'))"
proof -
  let ?rx = "net_rx s" and ?c = "of_nat i :: u32"
  have len: "i < length (net_sdus s)" using inv i(1) by (simp add: net_inv_def)
  then have u: "unat ?c = i" using small by (simp add: unat_of_nat)
  have "genuine aes (net_tx s) ?c (net_sdus s ! i) (net_pdus s ! i)" "pdcp_peers (net_tx s) ?rx"
    using inv len by (simp_all add: net_inv_def)
  then obtain mi f b n where r: "nr_pdcp_entity_recv_pdu aes ?rx (net_pdus s ! i) = Inr (let rx1 = with_stats f ?rx in
      if ?c < rx_deliv ?rx \<or> nr_pdcp_sdu_in_list (rx_list ?rx) ?c then discard_duplicate rx1 b
      else store_sdu rx1 ?c (nr_pdcp_new_sdu ?c (net_sdus s ! i) mi) n)" (is "_ = Inr ?rx'")
    using i(2) unfolding genuine_def by blast
  let ?x = "nr_pdcp_new_sdu ?c (net_sdus s ! i) mi"
  have x: "sdu_count ?x = ?c" "sdu_buffer ?x = net_sdus s ! i" by (simp_all add: nr_pdcp_new_sdu_def)
  have rinv: "pdcp_rx_inv ?rx" "pdcp_rx_inv (with_stats f ?rx)" using inv by (simp_all add: net_inv_def)
  have held: "carries (rx_list ?rx' @ delivered ?rx') ?c (net_sdus s ! i)" if "\<not> ?c < rx_deliv ?rx"
  proof (cases "?c \<in> set (counts (rx_list ?rx))")
    case True
    then obtain y where y: "y \<in> set (rx_list ?rx)" "sdu_count y = ?c" by (auto simp: counts_def)
    then have "sdu_buffer y = net_sdus s ! i" using inv u by (auto simp: net_inv_def from_sender_def)
    moreover have "rx_list ?rx' = rx_list ?rx" using True by (simp add: Let_def discard_duplicate_def with_stats_def)
    ultimately show ?thesis using y by (auto simp: carries_def)
  next
    case False
    then have "?x \<in> set (rx_list ?rx') \<union> set (delivered ?rx')"
      using that store_contents [of "with_stats f ?rx" ?c ?x n] by (simp add: Let_def)
    then show ?thesis using x by (auto simp: carries_def)
  qed
  have next_one: "carries (delivered ?rx') ?c (net_sdus s ! i) \<and> rx_deliv ?rx < rx_deliv ?rx'" if at: "?c = rx_deliv ?rx"
  proof -
    have "\<not> (?c < rx_deliv ?rx \<or> ?c \<in> set (counts (rx_list ?rx)))" using at rinv(1) by (auto simp: pdcp_rx_inv_def)
    then have d: "?x \<in> set (delivered ?rx')"
      using store_at_deliv [OF rinv(2), of ?x n] x(1) at by (simp add: Let_def)
    have inv': "net_inv aes (s\<lparr>net_rx := ?rx'\<rparr>)" by (rule net_inv_receive [OF inv small i r])
    then have "\<forall>c\<in>set (counts (delivered ?rx')). c < rx_deliv ?rx'"
      using net_top_free [OF inv'] small by (simp add: net_inv_def pdcp_rx_inv_def in_order_def)
    then have "?c < rx_deliv ?rx'" using d x(1) by (auto simp: counts_def)
    then show ?thesis using d x at unfolding carries_def by metis
  qed
  show ?thesis using r held next_one by blast
qed



end
