(* ===== verification/PDCP_Manager.thy ===== *)
theory PDCP_Manager
  imports PDCP_Rx
begin

text \<open>
  The users and bearers of the PDCP layer: the list of users (\<open>nr_pdcp_ue_manager.c\<close>), the
  functions other layers call (\<open>nr_pdcp_oai_api.c\<close>) and one round of the timer thread
  (\<open>nr_pdcp_timer_thread.c\<close>). A function of this theory runs under the manager's lock, so it is
  one step. Entities live at addresses: a bearer slot of a user is a pointer, and an entity that
  no slot points to any more and that has not been freed is a leak. What the layer hands to
  SDAP, RRC and RLC is a trace.
\<close>

section \<open>State\<close>

record nr_pdcp_ue =
  ue_id :: u64
  srb :: "addr option list"
  drb :: "addr option list"

record protocol_ctxt =
  module_id :: int
  ctxt_enb_flag :: bool
  ctxt_instance :: int
  rntiMaybeUEid :: u64
  eNB_index :: int
  brOption :: bool

datatype pdcp_upcall =
    Sdap_data_ind int bool int u64 "byte list"
  | F1ap_ul_rrc_message u64 int "byte list"
  | Nr_rrc_dcch_data_ind u64 int "byte list" nr_pdcp_integrity_data
  | Deliver_pdu u64 int "byte list" u32
  | Sdap_release_drb u64 int int

text \<open>
  \<open>nos1\<close> is the value of \<open>IS_SOFTMODEM_NOS1 || UE_NAS_USE_TUN\<close>, \<open>ticks\<close> is
  \<open>timer_thread_curtime\<close> and \<open>curtime\<close> the timer thread's own copy of it.
\<close>

record pdcp_layer =
  ue_list :: "nr_pdcp_ue list"
  enb_flag :: int
  entities :: "addr \<Rightarrow> nr_pdcp_entity option"
  next_addr :: addr
  upcalls :: "pdcp_upcall list"
  nos1 :: bool
  ticks :: u64
  curtime :: u64

definition MAX_DRBS_PER_UE :: nat where
  "MAX_DRBS_PER_UE = 32"

definition SHORT_SN_SIZE :: int where
  "SHORT_SN_SIZE = 12"

definition upcall :: "pdcp_layer \<Rightarrow> pdcp_upcall \<Rightarrow> pdcp_layer" where
  "upcall m u = m\<lparr>upcalls := upcalls m @ [u]\<rparr>"

section \<open>The user manager\<close>

definition new_nr_pdcp_ue_manager :: "int \<Rightarrow> bool \<Rightarrow> pdcp_layer" where
  "new_nr_pdcp_ue_manager flag tun =
     \<lparr>ue_list = [], enb_flag = flag, entities = Map.empty, next_addr = 0, upcalls = [], nos1 = tun, ticks = 0, curtime = 0\<rparr>"

fun find_ue :: "u64 \<Rightarrow> nr_pdcp_ue list \<Rightarrow> nat" where
  "find_ue u [] = 0"
| "find_ue u (ue # l) = (if ue_id ue = u then 0 else Suc (find_ue u l))"

definition new_ue :: "u64 \<Rightarrow> nr_pdcp_ue" where
  "new_ue u = \<lparr>ue_id = u, srb = replicate 3 None, drb = replicate MAX_DRBS_PER_UE None\<rparr>"

definition nr_pdcp_manager_get_ue :: "pdcp_layer \<Rightarrow> u64 \<Rightarrow> nat \<times> pdcp_layer" where
  "nr_pdcp_manager_get_ue m u =
     (let i = find_ue u (ue_list m)
      in if i < length (ue_list m) then (i, m) else (i, m\<lparr>ue_list := ue_list m @ [new_ue u]\<rparr>))"

text \<open>\<open>delete_entity\<close> through a pointer, and the loops over the slots of a user.\<close>

definition delete_entity :: "pdcp_layer \<Rightarrow> addr \<Rightarrow> pdcp_layer res" where
  "delete_entity m a =
     (case entities m a of None \<Rightarrow> Inl Use_after_free | Some e \<Rightarrow> Inr (m\<lparr>entities := (entities m)(a := None)\<rparr>))"

fun delete_slots :: "addr option list \<Rightarrow> pdcp_layer \<Rightarrow> pdcp_layer res" where
  "delete_slots [] m = Inr m"
| "delete_slots (None # l) m = delete_slots l m"
| "delete_slots (Some a # l) m = res_bind (delete_entity m a) (delete_slots l)"

definition nr_pdcp_manager_remove_ue :: "pdcp_layer \<Rightarrow> u64 \<Rightarrow> pdcp_layer res" where
  "nr_pdcp_manager_remove_ue m u =
     (let i = find_ue u (ue_list m)
      in if i = length (ue_list m) then Inr m
      else let ue = ue_list m ! i
      in res_bind (delete_slots (take 2 (srb ue)) m) (\<lambda>m.
         res_bind (delete_slots (take 5 (drb ue)) m) (\<lambda>m.
         Inr (m\<lparr>ue_list := take i (ue_list m) @ drop (Suc i) (ue_list m)\<rparr>))))"

definition nr_pdcp_ue_add_srb_pdcp_entity :: "nr_pdcp_ue \<Rightarrow> int \<Rightarrow> addr \<Rightarrow> nr_pdcp_ue res" where
  "nr_pdcp_ue_add_srb_pdcp_entity ue srb_id entity =
     (if srb_id < 1 \<or> srb_id > 2 then Inl Exit_fatal
      else res_bind (c_index (srb ue) (srb_id - 1)) (\<lambda>p.
           if p \<noteq> None then Inl Exit_fatal
           else res_bind (c_store (srb ue) (srb_id - 1) (Some entity)) (\<lambda>l. Inr (ue\<lparr>srb := l\<rparr>))))"

definition nr_pdcp_ue_add_drb_pdcp_entity :: "nr_pdcp_ue \<Rightarrow> int \<Rightarrow> addr \<Rightarrow> nr_pdcp_ue res" where
  "nr_pdcp_ue_add_drb_pdcp_entity ue drb_id entity =
     (if drb_id < 1 \<or> drb_id > int MAX_DRBS_PER_UE then Inl Exit_fatal
      else res_bind (c_index (drb ue) (drb_id - 1)) (\<lambda>p.
           if p \<noteq> None then Inl Exit_fatal
           else res_bind (c_store (drb ue) (drb_id - 1) (Some entity)) (\<lambda>l. Inr (ue\<lparr>drb := l\<rparr>))))"

definition nr_pdcp_get_first_ue_id :: "pdcp_layer \<Rightarrow> u64 option" where
  "nr_pdcp_get_first_ue_id m = (case ue_list m of [] \<Rightarrow> None | ue # _ \<Rightarrow> Some (ue_id ue))"

section \<open>Calls of an entity\<close>

definition nr_pdcp_get_rb :: "nr_pdcp_ue \<Rightarrow> int \<Rightarrow> bool \<Rightarrow> addr option res" where
  "nr_pdcp_get_rb ue rb srb_flag =
     (if srb_flag then if rb < 1 \<or> rb > 2 then Inr None else c_index (srb ue) (rb - 1)
      else if rb < 1 \<or> rb > int MAX_DRBS_PER_UE then Inr None else c_index (drb ue) (rb - 1))"

fun slot_of :: "addr \<Rightarrow> addr option list \<Rightarrow> nat" where
  "slot_of a [] = 0"
| "slot_of a (p # l) = (if p = Some a then 0 else Suc (slot_of a l))"

definition deliver_sdu_drb :: "nat \<Rightarrow> addr \<Rightarrow> nr_pdcp_entity \<Rightarrow> nr_pdcp_sdu \<Rightarrow> pdcp_layer \<Rightarrow> pdcp_layer res" where
  "deliver_sdu_drb i a e sdu m =
     (let ue = ue_list m ! i; j = slot_of a (drb ue)
      in if nos1 m then Inr (upcall m (Sdap_data_ind (rb_id e) False (pdusession_id e) (ue_id ue) (sdu_buffer sdu)))
      else if j < length (drb ue)
      then Inr (upcall m (Sdap_data_ind (int j + 1) (is_gnb e) (pdusession_id e) (ue_id ue) (sdu_buffer sdu)))
      else Inl Exit_fatal)"

definition deliver_sdu_srb :: "nat \<Rightarrow> addr \<Rightarrow> nr_pdcp_entity \<Rightarrow> nr_pdcp_sdu \<Rightarrow> pdcp_layer \<Rightarrow> pdcp_layer res" where
  "deliver_sdu_srb i a e sdu m =
     (let ue = ue_list m ! i; j = slot_of a (srb ue)
      in if j < length (srb ue)
      then Inr (upcall m (if is_gnb e then F1ap_ul_rrc_message (ue_id ue) (int j + 1) (sdu_buffer sdu)
                          else Nr_rrc_dcch_data_ind (ue_id ue) (int j + 1) (sdu_buffer sdu) (sdu_integrity sdu)))
      else Inl Exit_fatal)"

text \<open>The callback that the bearer's constructor call (\<open>add_srb\<close>, \<open>nr_pdcp_add_drb\<close>) installs.\<close>

fun deliver_sdus :: "nat \<Rightarrow> addr \<Rightarrow> nr_pdcp_entity \<Rightarrow> nr_pdcp_sdu list \<Rightarrow> pdcp_layer \<Rightarrow> pdcp_layer res" where
  "deliver_sdus i a e [] m = Inr m"
| "deliver_sdus i a e (sdu # l) m =
     res_bind (if entity_type e = NR_PDCP_SRB then deliver_sdu_srb i a e sdu m else deliver_sdu_drb i a e sdu m)
       (deliver_sdus i a e l)"

text \<open>
  An operation of the entity at an address, for the user at position \<open>i\<close>: the SDUs it has
  delivered go up in the order of delivery.
\<close>

definition call_entity ::
  "pdcp_layer \<Rightarrow> nat \<Rightarrow> addr \<Rightarrow> (nr_pdcp_entity \<Rightarrow> ('r \<times> nr_pdcp_entity) res) \<Rightarrow> ('r \<times> pdcp_layer) res" where
  "call_entity m i a f =
     (case entities m a of
        None \<Rightarrow> Inl Use_after_free
      | Some e \<Rightarrow> res_bind (f e) (\<lambda>(r, e').
          res_bind (deliver_sdus i a e' (drop (length (delivered e)) (delivered e')) (m\<lparr>entities := (entities m)(a \<mapsto> e')\<rparr>))
            (\<lambda>m. Inr (r, m))))"

text \<open>\<open>get_ue\<close> then \<open>get_rb\<close>: if there is no such bearer the result is \<open>none\<close>, else the operation runs on its entity.\<close>

definition on_rb ::
  "pdcp_layer \<Rightarrow> u64 \<Rightarrow> int \<Rightarrow> bool \<Rightarrow> 'r \<Rightarrow> (nr_pdcp_entity \<Rightarrow> ('r \<times> nr_pdcp_entity) res) \<Rightarrow> ('r \<times> pdcp_layer) res" where
  "on_rb m u rb srb_flag none f =
     (let (i, m) = nr_pdcp_manager_get_ue m u
      in res_bind (nr_pdcp_get_rb (ue_list m ! i) rb srb_flag) (\<lambda>p.
         case p of None \<Rightarrow> Inr (none, m) | Some a \<Rightarrow> call_entity m i a f))"

section \<open>The interface to the other layers\<close>

definition ctxt_ok :: "protocol_ctxt \<Rightarrow> bool" where
  "ctxt_ok c \<longleftrightarrow> module_id c = 0 \<and> ctxt_instance c = 0 \<and> eNB_index c = 0"

definition do_pdcp_data_ind ::
  "aes_lib \<Rightarrow> pdcp_layer \<Rightarrow> protocol_ctxt \<Rightarrow> bool \<Rightarrow> int \<Rightarrow> byte list \<Rightarrow> pdcp_layer res" where
  "do_pdcp_data_ind aes m c srb_flag rb buffer =
     (if \<not> ctxt_ok c \<or> brOption c then Inl Exit_fatal
      else res_bind (on_rb m (rntiMaybeUEid c) rb srb_flag ()
             (\<lambda>e. res_bind (nr_pdcp_entity_recv_pdu aes e buffer) (\<lambda>e. Inr ((), e)))) (\<lambda>(_, m). Inr m))"

definition cu_f1u_data_req ::
  "aes_lib \<Rightarrow> pdcp_layer \<Rightarrow> protocol_ctxt \<Rightarrow> bool \<Rightarrow> int \<Rightarrow> byte list \<Rightarrow> (bool \<times> pdcp_layer) res" where
  "cu_f1u_data_req aes m c srb_flag rb buffer =
     res_bind (do_pdcp_data_ind aes m c srb_flag rb buffer) (\<lambda>m. Inr (True, m))"

text \<open>
  The bearer is new: the entity is allocated and its address goes into the slot. The decoded
  values of the ASN.1 configuration are arguments.
\<close>

definition add_entity ::
  "pdcp_layer \<Rightarrow> nat \<Rightarrow> nr_pdcp_entity res \<Rightarrow> (nr_pdcp_ue \<Rightarrow> addr \<Rightarrow> nr_pdcp_ue res) \<Rightarrow> pdcp_layer res" where
  "add_entity m i new_entity add_slot =
     res_bind new_entity (\<lambda>e.
     let a = next_addr m; m = m\<lparr>entities := (entities m)(a \<mapsto> e), next_addr := a + 1\<rparr>
     in res_bind (add_slot (ue_list m ! i) a) (\<lambda>ue. Inr (m\<lparr>ue_list := (ue_list m)[i := ue]\<rparr>)))"

definition add_srb ::
  "pdcp_layer \<Rightarrow> bool \<Rightarrow> u64 \<Rightarrow> int \<Rightarrow> int option \<Rightarrow> nr_pdcp_entity_security_keys_and_algos \<Rightarrow> pdcp_layer res" where
  "add_srb m gnb u srb_id t_Reordering security_parameters =
     (let reordering = (case t_Reordering of None \<Rightarrow> -1 | Some t \<Rightarrow> t);
          (i, m) = nr_pdcp_manager_get_ue m u
      in res_bind (nr_pdcp_get_rb (ue_list m ! i) srb_id True) (\<lambda>p.
         if p \<noteq> None then Inr m
         else add_entity m i
           (new_nr_pdcp_entity NR_PDCP_SRB gnb srb_id 0 False False SHORT_SN_SIZE reordering (-1) security_parameters)
           (\<lambda>ue. nr_pdcp_ue_add_srb_pdcp_entity ue srb_id)))"

fun nr_pdcp_add_srbs ::
  "pdcp_layer \<Rightarrow> bool \<Rightarrow> u64 \<Rightarrow> (int \<times> int option) list \<Rightarrow> nr_pdcp_entity_security_keys_and_algos \<Rightarrow> pdcp_layer res" where
  "nr_pdcp_add_srbs m gnb u [] security_parameters = Inr m"
| "nr_pdcp_add_srbs m gnb u ((srb_id, t_Reordering) # l) security_parameters =
     res_bind (add_srb m gnb u srb_id t_Reordering security_parameters) (\<lambda>m. nr_pdcp_add_srbs m gnb u l security_parameters)"

record drb_config =
  cfg_drb :: bool
  cfg_drb_id :: int
  cfg_pdusession_id :: int
  cfg_sdap_rx :: bool
  cfg_sdap_tx :: bool
  sn_size_ul :: int
  sn_size_dl :: int
  cfg_discard_timer :: int
  cfg_t_reordering :: "int option"
  integrityProtection :: bool
  cipheringDisabled :: bool

definition nr_pdcp_add_drb ::
  "pdcp_layer \<Rightarrow> bool \<Rightarrow> u64 \<Rightarrow> drb_config \<Rightarrow> nr_pdcp_entity_security_keys_and_algos \<Rightarrow> pdcp_layer res" where
  "nr_pdcp_add_drb m gnb u c security_parameters =
     (if \<not> cfg_drb c then Inr m
      else let reordering = (case cfg_t_reordering c of None \<Rightarrow> -1 | Some t \<Rightarrow> t);
          actual = security_parameters\<lparr>
            ciphering_algorithm := if cipheringDisabled c then 0 else ciphering_algorithm security_parameters,
            integrity_algorithm := if integrityProtection c then integrity_algorithm security_parameters else 0\<rparr>;
          (i, m) = nr_pdcp_manager_get_ue m u
      in res_bind (nr_pdcp_get_rb (ue_list m ! i) (cfg_drb_id c) False) (\<lambda>p.
         if p \<noteq> None then Inr m
         else if sn_size_ul c \<noteq> sn_size_dl c then Inl Exit_fatal
         else add_entity m i
           (new_nr_pdcp_entity NR_PDCP_DRB_AM gnb (cfg_drb_id c) (cfg_pdusession_id c) (cfg_sdap_rx c) (cfg_sdap_tx c)
              (sn_size_dl c) reordering (cfg_discard_timer c) actual)
           (\<lambda>ue. nr_pdcp_ue_add_drb_pdcp_entity ue (cfg_drb_id c))))"

fun drb_ids_loop :: "pdcp_layer \<Rightarrow> int \<Rightarrow> addr option list \<Rightarrow> int list res" where
  "drb_ids_loop m session [] = Inr []"
| "drb_ids_loop m session (None # l) = drb_ids_loop m session l"
| "drb_ids_loop m session (Some a # l) =
     (case entities m a of
        None \<Rightarrow> Inl Use_after_free
      | Some e \<Rightarrow> res_bind (drb_ids_loop m session l) (\<lambda>ids.
          Inr (if pdusession_id e = session then rb_id e # ids else ids)))"

definition nr_pdcp_get_drb_ids_for_pdusession :: "pdcp_layer \<Rightarrow> u64 \<Rightarrow> int \<Rightarrow> (int list \<times> pdcp_layer) res" where
  "nr_pdcp_get_drb_ids_for_pdusession m u session =
     (let (i, m) = nr_pdcp_manager_get_ue m u
      in res_bind (drb_ids_loop m session (drb (ue_list m ! i))) (\<lambda>ids. Inr (ids, m)))"

definition nr_pdcp_remove_UE :: "pdcp_layer \<Rightarrow> u64 \<Rightarrow> pdcp_layer res" where
  "nr_pdcp_remove_UE m u = nr_pdcp_manager_remove_ue m u"

definition nr_pdcp_config_set_security ::
  "pdcp_layer \<Rightarrow> u64 \<Rightarrow> int \<Rightarrow> bool \<Rightarrow> nr_pdcp_entity_security_keys_and_algos \<Rightarrow> (unit \<times> pdcp_layer) res" where
  "nr_pdcp_config_set_security m u rb is_srb parameters =
     on_rb m u rb is_srb () (\<lambda>e. res_bind (nr_pdcp_entity_set_security e parameters) (\<lambda>e. Inr ((), e)))"

definition nr_pdcp_check_integrity_srb ::
  "aes_lib \<Rightarrow> pdcp_layer \<Rightarrow> u64 \<Rightarrow> int \<Rightarrow> byte list \<Rightarrow> nr_pdcp_integrity_data \<Rightarrow> (bool \<times> pdcp_layer) res" where
  "nr_pdcp_check_integrity_srb aes m u srb_id msg mi =
     on_rb m u srb_id True False (\<lambda>e. res_bind (nr_pdcp_entity_check_integrity aes e msg mi) (\<lambda>ok. Inr (ok, e)))"

text \<open>\<open>data_req\<close>: the PDU buffer on the stack, \<open>process_sdu\<close>, then the callback with the PDU.\<close>

definition data_req ::
  "aes_lib \<Rightarrow> pdcp_layer \<Rightarrow> u64 \<Rightarrow> int \<Rightarrow> bool \<Rightarrow> u32 \<Rightarrow> byte list \<Rightarrow> (bool \<times> pdcp_layer) res" where
  "data_req aes m u rb srb_flag mui sdu =
     res_bind (on_rb m u rb srb_flag None (\<lambda>e.
       res_bind (nr_pdcp_entity_process_sdu aes e sdu (replicate (nat (nr_max_pdcp_pdu_size (int (length sdu)))) 0))
         (\<lambda>(n, buf, e). Inr (if n = -1 then None else Some (take (nat n) buf), e)))) (\<lambda>(pdu, m).
     case pdu of None \<Rightarrow> Inr (False, m) | Some pdu \<Rightarrow> Inr (True, upcall m (Deliver_pdu u rb pdu mui)))"

definition nr_pdcp_data_req_srb ::
  "aes_lib \<Rightarrow> pdcp_layer \<Rightarrow> u64 \<Rightarrow> int \<Rightarrow> u32 \<Rightarrow> byte list \<Rightarrow> (bool \<times> pdcp_layer) res" where
  "nr_pdcp_data_req_srb aes m u rb mui sdu = data_req aes m u rb True mui sdu"

definition nr_pdcp_data_req_drb ::
  "aes_lib \<Rightarrow> pdcp_layer \<Rightarrow> protocol_ctxt \<Rightarrow> bool \<Rightarrow> int \<Rightarrow> u32 \<Rightarrow> byte list \<Rightarrow> (bool \<times> pdcp_layer) res" where
  "nr_pdcp_data_req_drb aes m c srb_flag rb mui sdu =
     (if srb_flag then Inl Assert_fatal
      else if \<not> ctxt_ok c then Inl Exit_fatal
      else data_req aes m (rntiMaybeUEid c) rb False mui sdu)"

definition nr_pdcp_suspend_srb :: "pdcp_layer \<Rightarrow> u64 \<Rightarrow> int \<Rightarrow> (unit \<times> pdcp_layer) res" where
  "nr_pdcp_suspend_srb m u srb_id = on_rb m u srb_id True () (\<lambda>e. Inr ((), nr_pdcp_entity_suspend e))"

definition nr_pdcp_suspend_drb :: "pdcp_layer \<Rightarrow> u64 \<Rightarrow> int \<Rightarrow> (unit \<times> pdcp_layer) res" where
  "nr_pdcp_suspend_drb m u drb_id = on_rb m u drb_id False () (\<lambda>e. Inr ((), nr_pdcp_entity_suspend e))"

definition nr_pdcp_reconfigure_srb :: "pdcp_layer \<Rightarrow> u64 \<Rightarrow> int \<Rightarrow> int \<Rightarrow> (unit \<times> pdcp_layer) res" where
  "nr_pdcp_reconfigure_srb m u srb_id t = on_rb m u srb_id True () (\<lambda>e. Inr ((), e\<lparr>t_reordering := t\<rparr>))"

text \<open>\<open>pdcp_config\<close> with its optional members: \<open>t_Reordering\<close>, and under \<open>drb\<close> the discard timer and the sizes.\<close>

record drb_reconfig =
  rc_t_reordering :: "int option"
  rc_drb :: bool
  rc_discard_timer :: "int option"
  rc_sn_size_ul :: "int option"
  rc_sn_size_dl :: "int option"

definition reconfigure_drb :: "drb_reconfig \<Rightarrow> nr_pdcp_entity \<Rightarrow> nr_pdcp_entity res" where
  "reconfigure_drb c e =
     (let e = e\<lparr>t_reordering := case rc_t_reordering c of None \<Rightarrow> -1 | Some t \<Rightarrow> t\<rparr>
      in if \<not> rc_drb c then Inr e
      else let e = (case rc_discard_timer c of None \<Rightarrow> e | Some t \<Rightarrow> e\<lparr>discard_timer := t\<rparr>);
               e = (case rc_sn_size_ul c of None \<Rightarrow> e | Some n \<Rightarrow> e\<lparr>sn_size := n\<rparr>)
      in case rc_sn_size_dl c of
           None \<Rightarrow> Inr e
         | Some n \<Rightarrow> if rc_sn_size_ul c \<noteq> None \<and> n \<noteq> sn_size e then Inl Assert_fatal else Inr (e\<lparr>sn_size := n\<rparr>))"

definition nr_pdcp_reconfigure_drb :: "pdcp_layer \<Rightarrow> u64 \<Rightarrow> int \<Rightarrow> drb_reconfig option \<Rightarrow> (unit \<times> pdcp_layer) res" where
  "nr_pdcp_reconfigure_drb m u drb_id config =
     on_rb m u drb_id False () (\<lambda>e. case config of
         None \<Rightarrow> Inr ((), e) | Some c \<Rightarrow> res_bind (reconfigure_drb c e) (\<lambda>e. Inr ((), e)))"

definition nr_pdcp_release_srb :: "pdcp_layer \<Rightarrow> u64 \<Rightarrow> int \<Rightarrow> pdcp_layer res" where
  "nr_pdcp_release_srb m u srb_id =
     (let (i, m) = nr_pdcp_manager_get_ue m u; ue = ue_list m ! i
      in res_bind (c_index (srb ue) (srb_id - 1)) (\<lambda>p.
         case p of None \<Rightarrow> Inr m
         | Some a \<Rightarrow> res_bind (delete_entity m a) (\<lambda>m.
             res_bind (c_store (srb ue) (srb_id - 1) None) (\<lambda>l.
             Inr (m\<lparr>ue_list := (ue_list m)[i := ue\<lparr>srb := l\<rparr>]\<rparr>)))))"

definition nr_pdcp_release_drb :: "pdcp_layer \<Rightarrow> u64 \<Rightarrow> int \<Rightarrow> pdcp_layer res" where
  "nr_pdcp_release_drb m u drb_id =
     (let (i, m) = nr_pdcp_manager_get_ue m u; ue = ue_list m ! i
      in res_bind (c_index (drb ue) (drb_id - 1)) (\<lambda>p.
         case p of None \<Rightarrow> Inr m
         | Some a \<Rightarrow> (case entities m a of None \<Rightarrow> Inl Use_after_free | Some e \<Rightarrow>
             res_bind (call_entity (upcall m (Sdap_release_drb u drb_id (pdusession_id e))) i a
                         (\<lambda>e. Inr ((), nr_pdcp_entity_release e))) (\<lambda>(_, m).
             res_bind (delete_entity m a) (\<lambda>m.
             res_bind (c_store (drb ue) (drb_id - 1) None) (\<lambda>l.
             Inr (m\<lparr>ue_list := (ue_list m)[i := ue\<lparr>drb := l\<rparr>]\<rparr>)))))))"

definition nr_pdcp_reestablishment ::
  "pdcp_layer \<Rightarrow> u64 \<Rightarrow> int \<Rightarrow> bool \<Rightarrow> nr_pdcp_entity_security_keys_and_algos \<Rightarrow> (unit \<times> pdcp_layer) res" where
  "nr_pdcp_reestablishment m u rb srb_flag security_parameters =
     on_rb m u rb srb_flag () (\<lambda>e. res_bind (reestablish_entity e security_parameters) (\<lambda>e. Inr ((), e)))"

definition nr_pdcp_get_statistics :: "pdcp_layer \<Rightarrow> u64 \<Rightarrow> bool \<Rightarrow> int \<Rightarrow> (nr_pdcp_statistics option \<times> pdcp_layer) res" where
  "nr_pdcp_get_statistics m u srb_flag rb = on_rb m u rb srb_flag None (\<lambda>e. Inr (Some (nr_pdcp_entity_get_stats e), e))"

definition nr_pdcp_get_num_ues :: "pdcp_layer \<Rightarrow> int \<Rightarrow> nat \<times> u64 list" where
  "nr_pdcp_get_num_ues m len = (length (ue_list m), map ue_id (take (nat len) (ue_list m)))"

definition nr_pdcp_count_update ::
  "pdcp_layer \<Rightarrow> u64 \<Rightarrow> int \<Rightarrow> nr_pdcp_count \<Rightarrow> nr_pdcp_count \<Rightarrow> int \<Rightarrow> (unit \<times> pdcp_layer) res" where
  "nr_pdcp_count_update m u drb_id dl_count ul_count n =
     on_rb m u drb_id False () (\<lambda>e.
       Inr ((), nr_pdcp_entity_set_count_ul (nr_pdcp_entity_set_count_dl e dl_count n) ul_count n))"

definition nr_pdcp_get_drb_count_values ::
  "pdcp_layer \<Rightarrow> u64 \<Rightarrow> int \<Rightarrow> ((nr_pdcp_count \<times> nr_pdcp_count) option \<times> pdcp_layer) res" where
  "nr_pdcp_get_drb_count_values m u rb =
     on_rb m u rb False None (\<lambda>e. Inr (Some (nr_pdcp_entity_get_count_ul e, nr_pdcp_entity_get_count_dl e), e))"

section \<open>The timer thread\<close>

fun tick_slots :: "nat \<Rightarrow> u64 \<Rightarrow> addr option list \<Rightarrow> pdcp_layer \<Rightarrow> pdcp_layer res" where
  "tick_slots i now [] m = Inr m"
| "tick_slots i now (None # l) m = tick_slots i now l m"
| "tick_slots i now (Some a # l) m =
     res_bind (call_entity m i a (\<lambda>e. Inr ((), nr_pdcp_entity_set_time e now))) (\<lambda>(_, m). tick_slots i now l m)"

fun tick_ues :: "u64 \<Rightarrow> nat list \<Rightarrow> pdcp_layer \<Rightarrow> pdcp_layer res" where
  "tick_ues now [] m = Inr m"
| "tick_ues now (i # is) m =
     res_bind (tick_slots i now (take 2 (srb (ue_list m ! i))) m) (\<lambda>m.
     res_bind (tick_slots i now (take 5 (drb (ue_list m ! i))) m) (tick_ues now is))"

definition nr_pdcp_ms_tick :: "pdcp_layer \<Rightarrow> pdcp_layer" where
  "nr_pdcp_ms_tick m = m\<lparr>ticks := ticks m + 1\<rparr>"

text \<open>One turn of the thread's loop; it waits while the time has not changed.\<close>

definition nr_pdcp_timer_thread :: "pdcp_layer \<Rightarrow> pdcp_layer res" where
  "nr_pdcp_timer_thread m =
     (if curtime m = ticks m then Inr m
      else tick_ues (ticks m) [0..<length (ue_list m)] (m\<lparr>curtime := ticks m\<rparr>))"

section \<open>Runs of the layer\<close>

datatype pdcp_op =
    Data_ind protocol_ctxt bool int "byte list"
  | Add_srbs bool u64 "(int \<times> int option) list" nr_pdcp_entity_security_keys_and_algos
  | Add_drb bool u64 drb_config nr_pdcp_entity_security_keys_and_algos
  | Remove_UE u64
  | Set_security u64 int bool nr_pdcp_entity_security_keys_and_algos
  | Data_req_srb u64 int u32 "byte list"
  | Data_req_drb protocol_ctxt bool int u32 "byte list"
  | Suspend u64 int bool
  | Reconfigure_srb u64 int int
  | Reconfigure_drb u64 int "drb_reconfig option"
  | Release_srb u64 int
  | Release_drb u64 int
  | Reestablish u64 int bool nr_pdcp_entity_security_keys_and_algos
  | Count_update u64 int nr_pdcp_count nr_pdcp_count int
  | Get_statistics u64 bool int
  | Ms_tick
  | Timer_turn

definition drop_result :: "('r \<times> pdcp_layer) res \<Rightarrow> pdcp_layer res" where
  "drop_result r = res_bind r (\<lambda>(_, m). Inr m)"

fun pdcp_op_step :: "aes_lib \<Rightarrow> pdcp_op \<Rightarrow> pdcp_layer \<Rightarrow> pdcp_layer res" where
  "pdcp_op_step aes (Data_ind c s rb b) m = do_pdcp_data_ind aes m c s rb b"
| "pdcp_op_step aes (Add_srbs g u l keys) m = nr_pdcp_add_srbs m g u l keys"
| "pdcp_op_step aes (Add_drb g u c keys) m = nr_pdcp_add_drb m g u c keys"
| "pdcp_op_step aes (Remove_UE u) m = nr_pdcp_remove_UE m u"
| "pdcp_op_step aes (Set_security u rb s keys) m = drop_result (nr_pdcp_config_set_security m u rb s keys)"
| "pdcp_op_step aes (Data_req_srb u rb mui b) m = drop_result (nr_pdcp_data_req_srb aes m u rb mui b)"
| "pdcp_op_step aes (Data_req_drb c s rb mui b) m = drop_result (nr_pdcp_data_req_drb aes m c s rb mui b)"
| "pdcp_op_step aes (Suspend u rb s) m = drop_result (if s then nr_pdcp_suspend_srb m u rb else nr_pdcp_suspend_drb m u rb)"
| "pdcp_op_step aes (Reconfigure_srb u rb t) m = drop_result (nr_pdcp_reconfigure_srb m u rb t)"
| "pdcp_op_step aes (Reconfigure_drb u rb c) m = drop_result (nr_pdcp_reconfigure_drb m u rb c)"
| "pdcp_op_step aes (Release_srb u rb) m = nr_pdcp_release_srb m u rb"
| "pdcp_op_step aes (Release_drb u rb) m = nr_pdcp_release_drb m u rb"
| "pdcp_op_step aes (Reestablish u rb s keys) m = drop_result (nr_pdcp_reestablishment m u rb s keys)"
| "pdcp_op_step aes (Count_update u rb dl ul n) m = drop_result (nr_pdcp_count_update m u rb dl ul n)"
| "pdcp_op_step aes (Get_statistics u s rb) m = drop_result (nr_pdcp_get_statistics m u s rb)"
| "pdcp_op_step aes Ms_tick m = Inr (nr_pdcp_ms_tick m)"
| "pdcp_op_step aes Timer_turn m = nr_pdcp_timer_thread m"

fun pdcp_ops :: "aes_lib \<Rightarrow> pdcp_op list \<Rightarrow> pdcp_layer \<Rightarrow> pdcp_layer res" where
  "pdcp_ops aes [] m = Inr m"
| "pdcp_ops aes (op # ops) m = res_bind (pdcp_op_step aes op m) (pdcp_ops aes ops)"

end
