(* ===== verification/PDCP_Layer.thy ===== *)
theory PDCP_Layer
  imports PDCP_Manager
begin

text \<open>
  The consistency of the users and bearers of \<open>PDCP_Manager\<close>: the invariant \<open>layer_ok\<close>, which
  every function of the interface keeps, and what it says about the removal of users and the
  timer thread.
\<close>

section \<open>The bearers in use\<close>

definition ptrs :: "addr option list \<Rightarrow> addr list" where
  "ptrs l = map the (filter (\<lambda>p. p \<noteq> None) l)"

definition ue_ptrs :: "nr_pdcp_ue \<Rightarrow> addr list" where
  "ue_ptrs ue = ptrs (srb ue @ drb ue)"

definition layer_ptrs :: "nr_pdcp_ue list \<Rightarrow> addr list" where
  "layer_ptrs l = concat (map ue_ptrs l)"

lemma ptrs_simps [simp]:
  "ptrs [] = []" "ptrs (None # l) = ptrs l" "ptrs (Some a # l) = a # ptrs l" "ptrs (l @ l') = ptrs l @ ptrs l'"
  "ptrs (replicate n None) = []"
  by (simp_all add: ptrs_def)

lemma set_ptrs: "a \<in> set (ptrs l) \<longleftrightarrow> Some a \<in> set l"
  by (force simp: ptrs_def)

lemma distinct_ptrs_take: "distinct (ptrs l) \<Longrightarrow> distinct (ptrs (take n l))"
  by (metis append_take_drop_id distinct_append ptrs_simps(4))

lemma ptrs_set_slot:
  assumes "k < length l" "l ! k = None"
  shows "\<exists>A B. ptrs l = A @ B \<and> ptrs (l[k := Some a]) = A @ a # B"
  using assms by (intro exI [of _ "ptrs (take k l)"] exI [of _ "ptrs (drop (Suc k) l)"])
    (simp add: upd_conv_take_nth_drop, subst (1) id_take_nth_drop [of k l], simp_all)

lemma ptrs_clear_slot:
  assumes "k < length l" "l ! k = Some a"
  shows "\<exists>A B. ptrs l = A @ a # B \<and> ptrs (l[k := None]) = A @ B"
  using assms by (intro exI [of _ "ptrs (take k l)"] exI [of _ "ptrs (drop (Suc k) l)"])
    (simp add: upd_conv_take_nth_drop, subst (1) id_take_nth_drop [of k l], simp_all)

lemma layer_ptrs_update:
  assumes "i < length l"
  shows "\<exists>P Q. layer_ptrs l = P @ ue_ptrs (l ! i) @ Q \<and> layer_ptrs (l[i := ue]) = P @ ue_ptrs ue @ Q
    \<and> layer_ptrs (take i l @ drop (Suc i) l) = P @ Q"
  using assms by (intro exI [of _ "layer_ptrs (take i l)"] exI [of _ "layer_ptrs (drop (Suc i) l)"])
    (simp add: upd_conv_take_nth_drop layer_ptrs_def, subst (1) id_take_nth_drop [of i l], simp_all)

lemma layer_ptrs_simps [simp]:
  "layer_ptrs [] = []" "layer_ptrs (l @ l') = layer_ptrs l @ layer_ptrs l'" "layer_ptrs [new_ue u] = []"
  by (simp_all add: layer_ptrs_def ue_ptrs_def new_ue_def)

text \<open>
  The state of the layer: no user twice, the arrays have their sizes, every pointer is to an
  entity that is allocated, and no two slots share an entity.
\<close>

definition slots_ok :: "nr_pdcp_ue \<Rightarrow> bool" where
  "slots_ok ue \<longleftrightarrow> length (srb ue) = 3 \<and> length (drb ue) = MAX_DRBS_PER_UE"

definition layer_ok :: "pdcp_layer \<Rightarrow> bool" where
  "layer_ok m \<longleftrightarrow> distinct (map ue_id (ue_list m)) \<and> list_all slots_ok (ue_list m)
     \<and> distinct (layer_ptrs (ue_list m)) \<and> (\<forall>a \<in> set (layer_ptrs (ue_list m)). entities m a \<noteq> None)
     \<and> (\<forall>a. entities m a \<noteq> None \<longrightarrow> a < next_addr m)"

lemma new_layer_ok: "layer_ok (new_nr_pdcp_ue_manager flag tun)"
  by (simp add: layer_ok_def new_nr_pdcp_ue_manager_def)

lemma find_ue_found: "find_ue u l < length l \<Longrightarrow> ue_id (l ! find_ue u l) = u"
  by (induction l) (auto split: if_splits)

lemma find_ue_missing: "\<not> find_ue u l < length l \<Longrightarrow> find_ue u l = length l \<and> u \<notin> ue_id ` set l"
  by (induction l) (auto split: if_splits)

lemma get_ue_ok:
  assumes "layer_ok m" "nr_pdcp_manager_get_ue m u = (i, m')"
  shows "layer_ok m' \<and> i < length (ue_list m') \<and> ue_id (ue_list m' ! i) = u \<and> slots_ok (ue_list m' ! i)
    \<and> entities m' = entities m \<and> layer_ptrs (ue_list m') = layer_ptrs (ue_list m) \<and> next_addr m' = next_addr m"
proof (cases "find_ue u (ue_list m) < length (ue_list m)")
  case True
  then show ?thesis using assms find_ue_found [OF True]
    by (auto simp: nr_pdcp_manager_get_ue_def layer_ok_def list_all_length)
next
  case False
  then show ?thesis using assms find_ue_missing [OF False]
    by (auto simp: nr_pdcp_manager_get_ue_def layer_ok_def slots_ok_def) (simp_all add: new_ue_def)
qed

lemma layer_ok_frame:
  assumes "layer_ok m" "ue_list m' = ue_list m" "entities m' = entities m" "next_addr m' = next_addr m"
  shows "layer_ok m'"
  using assms by (simp add: layer_ok_def)

lemma slot_in_layer:
  assumes "i < length l" "Some a \<in> set (srb (l ! i)) \<union> set (drb (l ! i))"
  shows "a \<in> set (layer_ptrs l)"
  using assms by (force simp: layer_ptrs_def ue_ptrs_def set_ptrs)

lemma c_index_mem: "c_index l k = Inr x \<Longrightarrow> x \<in> set l"
  by (auto simp: c_index_def split: if_splits)

lemma get_rb_slot:
  assumes "nr_pdcp_get_rb ue rb srb_flag = Inr (Some a)"
  shows "Some a \<in> set (srb ue) \<union> set (drb ue)"
  using assms by (auto simp: nr_pdcp_get_rb_def dest: c_index_mem split: if_splits)

text \<open>Deliveries only add to the trace.\<close>

lemma deliver_sdus_frame:
  assumes "deliver_sdus i a e l m = Inr m'"
  shows "ue_list m' = ue_list m \<and> entities m' = entities m \<and> next_addr m' = next_addr m \<and> curtime m' = curtime m"
  using assms
proof (induction l arbitrary: m)
  case (Cons sdu l)
  then obtain m1 where "(if entity_type e = NR_PDCP_SRB then deliver_sdu_srb i a e sdu m else deliver_sdu_drb i a e sdu m) = Inr m1"
    "deliver_sdus i a e l m1 = Inr m'" by (auto simp: res_simps)
  then show ?case using Cons.IH [of m1]
    by (auto simp: deliver_sdu_srb_def deliver_sdu_drb_def upcall_def Let_def split: if_splits)
qed simp

lemma call_entity_frame:
  assumes "call_entity m i a f = Inr (r, m')"
  shows "\<exists>e e'. entities m a = Some e \<and> f e = Inr (r, e') \<and> entities m' = (entities m)(a \<mapsto> e') \<and> ue_list m' = ue_list m
    \<and> next_addr m' = next_addr m \<and> curtime m' = curtime m"
  using assms by (auto simp: call_entity_def res_simps split: option.splits dest!: deliver_sdus_frame)

lemma call_entity_ok:
  assumes "layer_ok m" "call_entity m i a f = Inr (r, m')"
  shows "layer_ok m'"
  using assms(1) call_entity_frame [OF assms(2)] by (auto simp: layer_ok_def split: if_splits)

text \<open>Freeing the entities of some slots.\<close>

lemma delete_slots_ok:
  assumes "distinct (ptrs l)" "\<forall>a \<in> set (ptrs l). entities m a \<noteq> None"
  shows "delete_slots l m = Inr (m\<lparr>entities := \<lambda>a. if a \<in> set (ptrs l) then None else entities m a\<rparr>)"
  using assms
proof (induction l arbitrary: m)
  case (Cons p l)
  show ?case
  proof (cases p)
    case None
    then show ?thesis using Cons by simp
  next
    case (Some a)
    let ?m = "m\<lparr>entities := (entities m)(a := None)\<rparr>"
    obtain e where e: "entities m a = Some e" using Cons.prems Some by auto
    have "\<forall>b \<in> set (ptrs l). entities ?m b \<noteq> None" using Cons.prems Some by auto
    then have "delete_slots l ?m = Inr (?m\<lparr>entities := \<lambda>b. if b \<in> set (ptrs l) then None else entities ?m b\<rparr>)"
      using Cons.IH [of ?m] Cons.prems Some by simp
    moreover have "(\<lambda>b. if b \<in> set (ptrs l) then None else entities ?m b) = (\<lambda>b. if b \<in> set (ptrs (p # l)) then None else entities m b)"
      using Some by auto
    ultimately show ?thesis using Some e by (simp add: delete_entity_def)
  qed
qed simp

lemma remove_ue_eq:
  assumes "layer_ok m" "i = find_ue u (ue_list m)" "i < length (ue_list m)"
  shows "nr_pdcp_remove_UE m u = Inr (m\<lparr>ue_list := take i (ue_list m) @ drop (Suc i) (ue_list m),
    entities := \<lambda>a. if a \<in> set (ptrs (take 2 (srb (ue_list m ! i)) @ take 5 (drb (ue_list m ! i)))) then None else entities m a\<rparr>)"
proof -
  let ?ue = "ue_list m ! i"
  obtain P Q where "layer_ptrs (ue_list m) = P @ ue_ptrs ?ue @ Q" using layer_ptrs_update [OF assms(3)] by blast
  then have d: "distinct (ptrs (srb ?ue) @ ptrs (drb ?ue))" "\<forall>a \<in> set (ptrs (srb ?ue) @ ptrs (drb ?ue)). entities m a \<noteq> None"
    using assms(1) by (auto simp: layer_ok_def ue_ptrs_def)
  have in_s: "a \<in> set (ptrs (srb ?ue))" if "a \<in> set (ptrs (take 2 (srb ?ue)))" for a
    using that by (auto simp: set_ptrs dest: in_set_takeD)
  have in_d: "a \<in> set (ptrs (drb ?ue))" if "a \<in> set (ptrs (take 5 (drb ?ue)))" for a
    using that by (auto simp: set_ptrs dest: in_set_takeD)
  let ?m = "m\<lparr>entities := \<lambda>a. if a \<in> set (ptrs (take 2 (srb ?ue))) then None else entities m a\<rparr>"
  have "delete_slots (take 2 (srb ?ue)) m = Inr ?m"
    using d in_s by (intro delete_slots_ok) (auto intro: distinct_ptrs_take)
  moreover have "delete_slots (take 5 (drb ?ue)) ?m
      = Inr (?m\<lparr>entities := \<lambda>a. if a \<in> set (ptrs (take 5 (drb ?ue))) then None else entities ?m a\<rparr>)"
    using d in_s in_d by (intro delete_slots_ok) (auto intro: distinct_ptrs_take)
  moreover have "(\<lambda>a. if a \<in> set (ptrs (take 5 (drb ?ue))) then None else entities ?m a)
      = (\<lambda>a. if a \<in> set (ptrs (take 2 (srb ?ue) @ take 5 (drb ?ue))) then None else entities m a)" by auto
  ultimately show ?thesis using assms(2,3) by (simp add: nr_pdcp_remove_UE_def nr_pdcp_manager_remove_ue_def Let_def)
qed

lemma find_ue_nth:
  assumes "distinct (map ue_id l)" "i < length l"
  shows "find_ue (ue_id (l ! i)) l = i"
  using assms by (induction l arbitrary: i) (auto simp: nth_Cons split: nat.splits)

lemma remove_ue_ok:
  assumes "layer_ok m"
  shows "\<exists>m'. nr_pdcp_remove_UE m u = Inr m' \<and> layer_ok m'"
proof (cases "find_ue u (ue_list m) < length (ue_list m)")
  case True
  let ?l = "ue_list m" and ?i = "find_ue u (ue_list m)"
  obtain P Q where pq: "layer_ptrs ?l = P @ ue_ptrs (?l ! ?i) @ Q" "layer_ptrs (take ?i ?l @ drop (Suc ?i) ?l) = P @ Q"
    using layer_ptrs_update [OF True] by blast
  have "map ue_id (take ?i ?l @ drop (Suc ?i) ?l) = take ?i (map ue_id ?l) @ drop (Suc ?i) (map ue_id ?l)"
    by (simp add: take_map drop_map)
  moreover have "distinct (take ?i (map ue_id ?l) @ drop (Suc ?i) (map ue_id ?l))"
    using assms by (simp add: layer_ok_def set_take_disj_set_drop_if_distinct)
  moreover have "set (ptrs (take 2 (srb (?l ! ?i)) @ take 5 (drb (?l ! ?i)))) \<subseteq> set (ue_ptrs (?l ! ?i))"
    by (auto simp: ue_ptrs_def set_ptrs dest: in_set_takeD)
  ultimately show ?thesis
    using assms pq remove_ue_eq [OF assms refl True]
    by (auto simp: layer_ok_def list_all_iff dest: in_set_takeD in_set_dropD)
next
  case False
  then show ?thesis using assms find_ue_missing [OF False] by (simp add: nr_pdcp_remove_UE_def nr_pdcp_manager_remove_ue_def)
qed

section \<open>The invariant\<close>

lemma on_rb_ok:
  assumes "layer_ok m" "on_rb m u rb srb_flag none f = Inr (r, m')"
  shows "layer_ok m'"
proof -
  obtain i m1 where g: "nr_pdcp_manager_get_ue m u = (i, m1)" by fastforce
  have "layer_ok m1" using get_ue_ok [OF assms(1) g] by blast
  then show ?thesis using assms(2) g
    by (auto simp: on_rb_def res_simps split: option.splits intro: call_entity_ok)
qed

definition adds_slot :: "addr \<Rightarrow> nr_pdcp_ue \<Rightarrow> nr_pdcp_ue \<Rightarrow> bool" where
  "adds_slot a ue ue' \<longleftrightarrow> ue_id ue' = ue_id ue \<and> slots_ok ue' \<and> (\<exists>A B. ue_ptrs ue = A @ B \<and> ue_ptrs ue' = A @ a # B)"

definition clears_slot :: "addr \<Rightarrow> nr_pdcp_ue \<Rightarrow> nr_pdcp_ue \<Rightarrow> bool" where
  "clears_slot a ue ue' \<longleftrightarrow> ue_id ue' = ue_id ue \<and> slots_ok ue' \<and> (\<exists>A B. ue_ptrs ue = A @ a # B \<and> ue_ptrs ue' = A @ B)"

lemma slot_updates:
  assumes "slots_ok ue"
  shows "k < length (srb ue) \<Longrightarrow> srb ue ! k = None \<Longrightarrow> adds_slot a ue (ue\<lparr>srb := (srb ue)[k := Some a]\<rparr>)"
    "k < length (drb ue) \<Longrightarrow> drb ue ! k = None \<Longrightarrow> adds_slot a ue (ue\<lparr>drb := (drb ue)[k := Some a]\<rparr>)"
    "k < length (srb ue) \<Longrightarrow> srb ue ! k = Some a \<Longrightarrow> clears_slot a ue (ue\<lparr>srb := (srb ue)[k := None]\<rparr>)"
    "k < length (drb ue) \<Longrightarrow> drb ue ! k = Some a \<Longrightarrow> clears_slot a ue (ue\<lparr>drb := (drb ue)[k := None]\<rparr>)"
  using assms ptrs_set_slot [of k "srb ue" a] ptrs_set_slot [of k "drb ue" a]
    ptrs_clear_slot [of k "srb ue" a] ptrs_clear_slot [of k "drb ue" a]
  by (auto simp: adds_slot_def clears_slot_def slots_ok_def ue_ptrs_def) (metis append.assoc append_Cons)+

lemma add_slot_cases:
  assumes "slots_ok ue"
  shows "nr_pdcp_ue_add_srb_pdcp_entity ue k a = Inr ue' \<Longrightarrow> adds_slot a ue ue'"
    "nr_pdcp_ue_add_drb_pdcp_entity ue k a = Inr ue' \<Longrightarrow> adds_slot a ue ue'"
  using slot_updates(1,2) [OF assms, of "nat (k - 1)" a]
  by (auto simp: nr_pdcp_ue_add_srb_pdcp_entity_def nr_pdcp_ue_add_drb_pdcp_entity_def c_index_def c_store_def res_simps split: if_splits)

lemma slots_ok_update: "list_all P l \<Longrightarrow> P ue \<Longrightarrow> list_all P (l[i := ue])"
  by (auto simp: list_all_iff dest: set_update_subset_insert [THEN subsetD])

lemma ids_update: "i < length l \<Longrightarrow> ue_id ue = ue_id (l ! i) \<Longrightarrow> map ue_id (l[i := ue]) = map ue_id l"
  by (metis length_map list_update_id map_update nth_map)

lemma add_entity_ok:
  assumes "layer_ok m" "i < length (ue_list m)" "add_entity m i new_entity add_slot = Inr m'"
    "\<And>a ue'. add_slot (ue_list m ! i) a = Inr ue' \<Longrightarrow> adds_slot a (ue_list m ! i) ue'"
  shows "layer_ok m'"
proof -
  let ?a = "next_addr m"
  obtain e ue' where e: "add_slot (ue_list m ! i) ?a = Inr ue'"
    "m' = m\<lparr>entities := (entities m)(?a \<mapsto> e), next_addr := ?a + 1, ue_list := (ue_list m)[i := ue']\<rparr>"
    using assms(3) by (auto simp: add_entity_def res_simps Let_def)
  obtain A B where ab: "ue_ptrs (ue_list m ! i) = A @ B" "ue_ptrs ue' = A @ ?a # B" and ue': "ue_id ue' = ue_id (ue_list m ! i)" "slots_ok ue'"
    using assms(4) [OF e(1)] by (auto simp: adds_slot_def)
  obtain P Q where pq: "layer_ptrs (ue_list m) = P @ ue_ptrs (ue_list m ! i) @ Q" "layer_ptrs ((ue_list m)[i := ue']) = P @ ue_ptrs ue' @ Q"
    using layer_ptrs_update [OF assms(2)] by blast
  have "\<forall>a \<in> set (P @ A @ B @ Q). entities m a \<noteq> None \<and> a < ?a" "distinct (P @ A @ B @ Q)"
    using assms(1) pq(1) ab(1) by (auto simp: layer_ok_def)
  then have "distinct (layer_ptrs ((ue_list m)[i := ue']))"
    "\<forall>a \<in> set (layer_ptrs ((ue_list m)[i := ue'])). ((entities m)(?a \<mapsto> e)) a \<noteq> None"
    unfolding pq(2) ab(2) by auto
  moreover have "\<forall>a. ((entities m)(?a \<mapsto> e)) a \<noteq> None \<longrightarrow> a < ?a + 1"
    using assms(1) by (auto simp: layer_ok_def less_Suc_eq)
  ultimately show ?thesis
    using assms(1,2) ue' unfolding layer_ok_def e(2) by (simp add: ids_update slots_ok_update)
qed

lemma add_bearer_ok:
  assumes "layer_ok m"
  shows "add_srb m gnb u k t keys = Inr m' \<Longrightarrow> layer_ok m'"
    "nr_pdcp_add_drb m gnb u c keys = Inr m' \<Longrightarrow> layer_ok m'"
proof -
  obtain i m1 where g: "nr_pdcp_manager_get_ue m u = (i, m1)" by fastforce
  have m1: "layer_ok m1" "i < length (ue_list m1)" "slots_ok (ue_list m1 ! i)" using get_ue_ok [OF assms g] by blast+
  note add = add_entity_ok [OF m1(1,2) _ add_slot_cases(1) [OF m1(3)]] add_entity_ok [OF m1(1,2) _ add_slot_cases(2) [OF m1(3)]]
  show "add_srb m gnb u k t keys = Inr m' \<Longrightarrow> layer_ok m'" "nr_pdcp_add_drb m gnb u c keys = Inr m' \<Longrightarrow> layer_ok m'"
    using m1(1) g assms by (auto simp: add_srb_def nr_pdcp_add_drb_def res_simps Let_def split: if_splits intro: add)
qed

lemma add_srbs_ok: "layer_ok m \<Longrightarrow> nr_pdcp_add_srbs m gnb u l keys = Inr m' \<Longrightarrow> layer_ok m'"
  by (induction m gnb u l keys rule: nr_pdcp_add_srbs.induct) (auto simp: res_simps dest: add_bearer_ok(1))

text \<open>The bearer's entity is deleted and its slot cleared.\<close>

lemma clear_slot_ok:
  assumes "layer_ok m" "i < length (ue_list m)" "clears_slot a (ue_list m ! i) ue'"
  shows "layer_ok (m\<lparr>entities := (entities m)(a := None), ue_list := (ue_list m)[i := ue']\<rparr>)"
proof -
  obtain A B where ab: "ue_ptrs (ue_list m ! i) = A @ a # B" "ue_ptrs ue' = A @ B" and ue': "ue_id ue' = ue_id (ue_list m ! i)" "slots_ok ue'"
    using assms(3) by (auto simp: clears_slot_def)
  obtain P Q where pq: "layer_ptrs (ue_list m) = P @ ue_ptrs (ue_list m ! i) @ Q" "layer_ptrs ((ue_list m)[i := ue']) = P @ ue_ptrs ue' @ Q"
    using layer_ptrs_update [OF assms(2)] by blast
  show ?thesis using assms(1,2) pq ab ue' by (auto simp: layer_ok_def ids_update slots_ok_update)
qed

lemma release_ok:
  assumes "layer_ok m"
  shows "nr_pdcp_release_srb m u k = Inr m' \<Longrightarrow> layer_ok m'" "nr_pdcp_release_drb m u k = Inr m' \<Longrightarrow> layer_ok m'"
proof -
  obtain i m1 where g: "nr_pdcp_manager_get_ue m u = (i, m1)" by fastforce
  have m1: "layer_ok m1" "i < length (ue_list m1)" "slots_ok (ue_list m1 ! i)" using get_ue_ok [OF assms g] by blast+
  show "nr_pdcp_release_srb m u k = Inr m' \<Longrightarrow> layer_ok m'"
    using m1 g slot_updates(3) [OF m1(3), of "nat (k - 1)"]
    by (auto simp: nr_pdcp_release_srb_def delete_entity_def c_index_def c_store_def res_simps Let_def split: if_splits option.splits intro!: clear_slot_ok)
  assume "nr_pdcp_release_drb m u k = Inr m'"
  then show "layer_ok m'"
  proof (cases "c_index (drb (ue_list m1 ! i)) (k - 1)")
    case (Inr p)
    then show ?thesis
    proof (cases p)
      case (Some a)
      let ?ue = "(ue_list m1 ! i)\<lparr>drb := (drb (ue_list m1 ! i))[nat (k - 1) := None]\<rparr>"
      have c: "clears_slot a (ue_list m1 ! i) ?ue"
        using Inr Some slot_updates(4) [OF m1(3), of "nat (k - 1)" a] by (auto simp: c_index_def split: if_splits)
      obtain e :: nr_pdcp_entity and m2 where m2: "call_entity (upcall m1 (Sdap_release_drb u k (pdusession_id e))) i a (\<lambda>e. Inr ((), nr_pdcp_entity_release e)) = Inr ((), m2)"
        "m' = m2\<lparr>entities := (entities m2)(a := None), ue_list := (ue_list m2)[i := ?ue]\<rparr>"
        using \<open>nr_pdcp_release_drb m u k = Inr m'\<close> g Inr Some
        by (auto simp: nr_pdcp_release_drb_def delete_entity_def c_index_def c_store_def res_simps Let_def split: if_splits option.splits)
      have "layer_ok (upcall m1 (Sdap_release_drb u k (pdusession_id e)))" using m1(1) by (simp add: layer_ok_def upcall_def)
      from call_entity_ok [OF this m2(1)] call_entity_frame [OF m2(1)] show ?thesis
        using m1(2) m2(2) c by (auto simp: upcall_def intro: clear_slot_ok)
    qed (use \<open>nr_pdcp_release_drb m u k = Inr m'\<close> g m1 in \<open>simp add: nr_pdcp_release_drb_def\<close>)
  qed (use \<open>nr_pdcp_release_drb m u k = Inr m'\<close> g in \<open>simp add: nr_pdcp_release_drb_def\<close>)
qed

lemma tick_slots_ok: "layer_ok m \<Longrightarrow> tick_slots i now l m = Inr m' \<Longrightarrow> layer_ok m'"
  by (induction i now l m rule: tick_slots.induct) (auto simp: res_simps dest: call_entity_ok)

lemma tick_ues_ok:
  assumes "layer_ok m" "tick_ues now is m = Inr m'"
  shows "layer_ok m'"
  using assms
proof (induction "is" arbitrary: m)
  case (Cons i "is")
  then obtain m1 m2 where "tick_slots i now (take 2 (srb (ue_list m ! i))) m = Inr m1"
    "tick_slots i now (take 5 (drb (ue_list m1 ! i))) m1 = Inr m2" "tick_ues now is m2 = Inr m'" by (auto simp: res_simps)
  then show ?case using tick_slots_ok [OF tick_slots_ok [OF Cons.prems(1)]] Cons.IH by blast
qed simp

lemma timer_thread_ok:
  assumes "layer_ok m" "nr_pdcp_timer_thread m = Inr m'"
  shows "layer_ok m'"
proof (cases "curtime m = ticks m")
  case False
  have "layer_ok (m\<lparr>curtime := ticks m\<rparr>)" using assms(1) by (rule layer_ok_frame) simp_all
  then show ?thesis using assms(2) False by (auto simp: nr_pdcp_timer_thread_def elim: tick_ues_ok)
qed (use assms in \<open>simp add: nr_pdcp_timer_thread_def\<close>)

lemma data_req_ok:
  assumes "layer_ok m" "data_req aes m u rb s mui b = Inr (r, m')"
  shows "layer_ok m'"
  using assms(2)
  by (auto simp: data_req_def res_simps split: option.splits dest!: on_rb_ok [OF assms(1)]) (simp add: upcall_def layer_ok_def)

lemmas on_rb_defs = do_pdcp_data_ind_def nr_pdcp_config_set_security_def nr_pdcp_suspend_srb_def nr_pdcp_suspend_drb_def
  nr_pdcp_reconfigure_srb_def nr_pdcp_reconfigure_drb_def nr_pdcp_reestablishment_def nr_pdcp_count_update_def
  nr_pdcp_get_statistics_def drop_result_def

lemmas ops_keep = on_rb_ok data_req_ok add_bearer_ok(2) add_srbs_ok release_ok timer_thread_ok

lemma pdcp_op_step_ok:
  assumes "layer_ok m" "pdcp_op_step aes op m = Inr m'"
  shows "layer_ok m'"
proof (cases op)
  case (Remove_UE u)
  then show ?thesis using assms remove_ue_ok [OF assms(1), of u] by auto
next
  case Ms_tick
  then show ?thesis using assms by (auto simp: nr_pdcp_ms_tick_def layer_ok_def)
qed (use assms(2) in \<open>auto simp: on_rb_defs nr_pdcp_data_req_srb_def nr_pdcp_data_req_drb_def res_simps split: if_splits
    dest: ops_keep [OF assms(1)]\<close>)

lemma pdcp_ops_ok: "layer_ok m \<Longrightarrow> pdcp_ops aes ops m = Inr m' \<Longrightarrow> layer_ok m'"
  by (induction ops arbitrary: m) (auto simp: res_simps dest: pdcp_op_step_ok)

text \<open>
  (C6) Removing a user leaks its entities beyond the fifth data bearer: \<open>nr_pdcp_manager_remove_ue\<close>
  deletes the entities of data bearers 1 to 5 only, while a user may have 32. The entity of any
  later bearer stays allocated, no user points to it any more, and so nothing can free it.
\<close>

theorem pdcp_remove_ue_leaks:
  assumes "layer_ok m" "i < length (ue_list m)" "5 \<le> k" "k < MAX_DRBS_PER_UE" "drb (ue_list m ! i) ! k = Some a"
  shows "\<exists>m'. nr_pdcp_remove_UE m (ue_id (ue_list m ! i)) = Inr m' \<and> entities m' a = entities m a \<and> entities m' a \<noteq> None
     \<and> a \<notin> set (layer_ptrs (ue_list m'))"
proof -
  let ?ue = "ue_list m ! i"
  have i: "find_ue (ue_id ?ue) (ue_list m) = i" using assms(1,2) by (intro find_ue_nth) (simp_all add: layer_ok_def)
  obtain P Q where pq: "layer_ptrs (ue_list m) = P @ ue_ptrs ?ue @ Q" "layer_ptrs (take i (ue_list m) @ drop (Suc i) (ue_list m)) = P @ Q"
    using layer_ptrs_update [OF assms(2)] by blast
  have len: "k < length (drb ?ue)" using assms(1,2,4) by (simp add: layer_ok_def slots_ok_def list_all_length)
  have split: "ptrs (drb ?ue) = ptrs (take 5 (drb ?ue)) @ ptrs (drop 5 (drb ?ue))"
    using ptrs_simps(4) [of "take 5 (drb ?ue)" "drop 5 (drb ?ue)"] by simp
  have "drop 5 (drb ?ue) ! (k - 5) = Some a" "k - 5 < length (drop 5 (drb ?ue))" using len assms(3,5) by simp_all
  then have a: "a \<in> set (ptrs (drop 5 (drb ?ue)))" by (metis nth_mem set_ptrs)
  have "distinct (P @ (ptrs (srb ?ue) @ ptrs (take 5 (drb ?ue)) @ ptrs (drop 5 (drb ?ue))) @ Q)"
    using assms(1) pq(1) split by (simp add: layer_ok_def ue_ptrs_def)
  then have "a \<notin> set (ptrs (srb ?ue))" "a \<notin> set (ptrs (take 5 (drb ?ue)))" "a \<notin> set (P @ Q)" using a by auto
  then have "a \<in> set (ue_ptrs ?ue)" "a \<notin> set (ptrs (take 2 (srb ?ue) @ take 5 (drb ?ue)))" "a \<notin> set (P @ Q)"
    using a split by (auto simp: ue_ptrs_def set_ptrs dest: in_set_takeD)
  then show ?thesis using remove_ue_eq [OF assms(1) i [symmetric] assms(2)] pq assms(1) by (auto simp: layer_ok_def)
qed

definition demo_drb :: "int \<Rightarrow> drb_config" where
  "demo_drb k = \<lparr>cfg_drb = True, cfg_drb_id = k, cfg_pdusession_id = 1, cfg_sdap_rx = False, cfg_sdap_tx = False, sn_size_ul = 12, sn_size_dl = 12,
     cfg_discard_timer = -1, cfg_t_reordering = Some 100, integrityProtection = False, cipheringDisabled = False\<rparr>"

text \<open>A user with the data bearers 1 and 6.\<close>

definition demo_layer :: "pdcp_layer res" where
  "demo_layer = pdcp_ops plain_aes [Add_drb True 7 (demo_drb 1) demo_keys, Add_drb True 7 (demo_drb 6) demo_keys] (new_nr_pdcp_ue_manager 1 False)"

lemma demo_layer_slots:
  "res_bind demo_layer (\<lambda>m. Inr (map ue_id (ue_list m), drb (ue_list m ! 0) ! 0, drb (ue_list m ! 0) ! 5, layer_ptrs (ue_list m),
     list_all slots_ok (ue_list m), map_option entity_type (entities m 0), map_option entity_type (entities m 1), next_addr m))
   = Inr ([7], Some 0, Some 1, [0, 1], True, Some NR_PDCP_DRB_AM, Some NR_PDCP_DRB_AM, 2)"
  by code_simp

lemma demo_layer_ok:
  "\<exists>m. demo_layer = Inr m \<and> layer_ok m \<and> length (ue_list m) = 1 \<and> ue_id (ue_list m ! 0) = 7 \<and> drb (ue_list m ! 0) ! 0 = Some 0
     \<and> drb (ue_list m ! 0) ! 5 = Some 1"
proof -
  obtain m where m: "demo_layer = Inr m" "map ue_id (ue_list m) = [7]" "drb (ue_list m ! 0) ! 0 = Some 0" "drb (ue_list m ! 0) ! 5 = Some 1"
    using demo_layer_slots by (auto simp: res_simps)
  have "layer_ok m" using pdcp_ops_ok [OF new_layer_ok m(1) [unfolded demo_layer_def]] .
  moreover have "length (ue_list m) = 1" using arg_cong [OF m(2), of length] by simp
  moreover have "ue_id (ue_list m ! 0) = 7" using m(2) by (cases "ue_list m") auto
  ultimately show ?thesis using m by blast
qed

theorem pdcp_remove_ue_leaks_witness:
  "\<exists>m m'. demo_layer = Inr m \<and> nr_pdcp_remove_UE m 7 = Inr m' \<and> entities m' 1 = entities m 1 \<and> entities m' 1 \<noteq> None
     \<and> 1 \<notin> set (layer_ptrs (ue_list m'))"
proof -
  obtain m where m: "demo_layer = Inr m" "layer_ok m" "length (ue_list m) = 1" "ue_id (ue_list m ! 0) = 7" "drb (ue_list m ! 0) ! 5 = Some 1"
    using demo_layer_ok by blast
  then show ?thesis using pdcp_remove_ue_leaks [of m 0 5 1] by (auto simp: MAX_DRBS_PER_UE_def)
qed

text \<open>
  (C2) Whatever sequence of calls the other layers make and however the timer turns fall
  between them, the layer stays consistent: no user is listed twice, every bearer slot points to
  an entity that is allocated, no two slots share an entity, and the removal of any user
  completes without touching freed memory.
\<close>

theorem pdcp_layer_consistent:
  assumes "pdcp_ops aes ops (new_nr_pdcp_ue_manager flag tun) = Inr m"
  shows "layer_ok m \<and> (\<exists>m'. nr_pdcp_remove_UE m u = Inr m' \<and> layer_ok m')"
  using pdcp_ops_ok [OF new_layer_ok assms] remove_ue_ok by blast

theorem pdcp_layer_consistent_witness:
  "\<exists>m m'. pdcp_ops plain_aes [Add_drb True 7 (demo_drb 1) demo_keys, Add_drb True 7 (demo_drb 6) demo_keys]
        (new_nr_pdcp_ue_manager 1 False) = Inr m \<and> layer_ok m \<and> nr_pdcp_remove_UE m 7 = Inr m' \<and> layer_ok m'"
proof -
  obtain m where "pdcp_ops plain_aes [Add_drb True 7 (demo_drb 1) demo_keys, Add_drb True 7 (demo_drb 6) demo_keys]
        (new_nr_pdcp_ue_manager 1 False) = Inr m"
    using demo_layer_ok unfolding demo_layer_def by blast
  then show ?thesis using pdcp_layer_consistent by blast
qed

section \<open>What the timer thread serves\<close>

definition served :: "nr_pdcp_ue \<Rightarrow> addr list" where
  "served ue = ptrs (take 2 (srb ue)) @ ptrs (take 5 (drb ue))"

text \<open>The entity in a slot is of the slot's kind, so its callback finds it.\<close>

definition kind_ok :: "pdcp_layer \<Rightarrow> nr_pdcp_ue \<Rightarrow> addr \<Rightarrow> bool" where
  "kind_ok m ue a \<longleftrightarrow> (case entities m a of None \<Rightarrow> False
     | Some e \<Rightarrow> if entity_type e = NR_PDCP_SRB then Some a \<in> set (srb ue) else Some a \<in> set (drb ue))"

definition kinds_ok :: "pdcp_layer \<Rightarrow> bool" where
  "kinds_ok m \<longleftrightarrow> list_all (\<lambda>ue. list_all (kind_ok m ue) (ue_ptrs ue)) (ue_list m)"

lemma slot_of_found: "Some a \<in> set l \<Longrightarrow> slot_of a l < length l"
  by (induction l) auto

lemma deliver_sdus_total:
  assumes "if entity_type e = NR_PDCP_SRB then Some a \<in> set (srb (ue_list m ! i)) else Some a \<in> set (drb (ue_list m ! i))"
  shows "\<exists>m'. deliver_sdus i a e l m = Inr m'"
  using assms
proof (induction l arbitrary: m)
  case (Cons sdu l)
  have "\<exists>x. (if entity_type e = NR_PDCP_SRB then deliver_sdu_srb i a e sdu m else deliver_sdu_drb i a e sdu m) = Inr (upcall m x)"
    using Cons.prems slot_of_found [of a] by (auto simp: deliver_sdu_srb_def deliver_sdu_drb_def Let_def split: if_splits)
  then obtain x where "deliver_sdus i a e (sdu # l) m = deliver_sdus i a e l (upcall m x)" by auto
  then show ?case using Cons.IH [of "upcall m x"] Cons.prems by (simp add: upcall_def)
qed simp

lemma t_current_head: "t_current (deliver_head cur l e) = t_current e"
  by (simp add: deliver_head_def with_stats_def)

lemma t_current_below: "t_current (deliver_below l c e) = t_current e"
  by (induction l c e rule: deliver_below.induct) (simp_all add: t_current_head)

lemma t_current_from: "t_current (snd (deliver_from l c e)) = t_current e"
  by (induction l c e rule: deliver_from.induct) (simp_all add: t_current_head)

lemma t_current_in_sequence: "t_current (deliver_in_sequence c e) = t_current e"
  using t_current_from [of "rx_list e" c e] by (auto simp: deliver_in_sequence_def split: prod.splits)

lemma t_current_check: "t_current (check_t_reordering e) = t_current e"
  by (simp add: check_t_reordering_def t_current_in_sequence t_current_below Let_def)

lemma set_time_type: "entity_type (nr_pdcp_entity_set_time e now) = entity_type e" "t_current (nr_pdcp_entity_set_time e now) = now"
proof -
  have "static (nr_pdcp_entity_set_time e now) = static (e\<lparr>t_current := now\<rparr>)" by (simp add: nr_pdcp_entity_set_time_def)
  then show "entity_type (nr_pdcp_entity_set_time e now) = entity_type e" by (simp add: static_def)
qed (simp add: nr_pdcp_entity_set_time_def t_current_check)

definition ticked :: "u64 \<Rightarrow> addr set \<Rightarrow> (addr \<Rightarrow> nr_pdcp_entity option) \<Rightarrow> addr \<Rightarrow> nr_pdcp_entity option" where
  "ticked now A es a = (if a \<in> A then map_option (\<lambda>e. nr_pdcp_entity_set_time e now) (es a) else es a)"

lemma ticked_simps: "ticked now {} es = es" "A \<inter> B = {} \<Longrightarrow> ticked now B (ticked now A es) = ticked now (A \<union> B) es"
  by (auto simp: ticked_def fun_eq_iff)

lemma kind_ok_ticked:
  assumes "entities m' = ticked now A (entities m)"
  shows "kind_ok m' ue a = kind_ok m ue a"
  using assms by (auto simp: kind_ok_def ticked_def set_time_type split: option.splits)

lemma tick_slots_eq:
  assumes "distinct (ptrs l)" "\<forall>a \<in> set (ptrs l). kind_ok m (ue_list m ! i) a"
  shows "\<exists>m'. tick_slots i now l m = Inr m' \<and> ue_list m' = ue_list m \<and> entities m' = ticked now (set (ptrs l)) (entities m)"
  using assms
proof (induction l arbitrary: m)
  case (Cons p l)
  show ?case
  proof (cases p)
    case None
    then show ?thesis using Cons by simp
  next
    case (Some a)
    obtain e where e: "entities m a = Some e" using Cons.prems Some by (auto simp: kind_ok_def split: option.splits)
    let ?e = "nr_pdcp_entity_set_time e now"
    let ?m = "m\<lparr>entities := (entities m)(a \<mapsto> ?e)\<rparr>"
    obtain m1 where d: "deliver_sdus i a ?e (drop (length (delivered e)) (delivered ?e)) ?m = Inr m1"
    proof -
      have "if entity_type ?e = NR_PDCP_SRB then Some a \<in> set (srb (ue_list ?m ! i)) else Some a \<in> set (drb (ue_list ?m ! i))"
        using Cons.prems(2) Some e by (simp add: kind_ok_def set_time_type)
      from deliver_sdus_total [OF this] that show ?thesis by blast
    qed
    have m1: "ue_list m1 = ue_list m" "entities m1 = ticked now {a} (entities m)"
      using deliver_sdus_frame [OF d] e by (auto simp: ticked_def fun_eq_iff)
    have call: "call_entity m i a (\<lambda>e. Inr ((), nr_pdcp_entity_set_time e now)) = Inr ((), m1)"
      using e d by (simp add: call_entity_def)
    obtain m2 where "tick_slots i now l m1 = Inr m2" "ue_list m2 = ue_list m1" "entities m2 = ticked now (set (ptrs l)) (entities m1)"
      using Cons.IH [of m1] Cons.prems Some m1 kind_ok_ticked [OF m1(2)] by auto
    then show ?thesis using call Some m1 Cons.prems(1) by (simp add: ticked_simps(2))
  qed
qed (simp add: ticked_simps)

lemma distinct_ue_ptrs:
  assumes "layer_ok m" "i < length (ue_list m)"
  shows "distinct (ue_ptrs (ue_list m ! i))"
proof -
  obtain P Q where "layer_ptrs (ue_list m) = P @ ue_ptrs (ue_list m ! i) @ Q" using layer_ptrs_update [OF assms(2)] by blast
  then show ?thesis using assms(1) by (simp add: layer_ok_def)
qed

lemma concat_disjoint:
  assumes "distinct (concat L)" "i < j" "j < length L"
  shows "set (L ! i) \<inter> set (L ! j) = {}"
proof -
  have "concat L = concat (take j L) @ L ! j @ concat (drop (Suc j) L)" by (subst id_take_nth_drop [OF assms(3)]) simp
  then have "set (concat (take j L)) \<inter> set (L ! j) = {}" using assms(1) by (metis distinct_append disjoint_iff set_append Un_iff)
  moreover have "L ! i \<in> set (take j L)" using assms(2,3) by (metis in_set_conv_nth length_take min_less_iff_conj nth_take order.strict_trans)
  ultimately show ?thesis by auto
qed

lemma served_disjoint:
  assumes "layer_ok m" "i < length (ue_list m)" "j < length (ue_list m)" "i \<noteq> j"
  shows "set (ue_ptrs (ue_list m ! i)) \<inter> set (ue_ptrs (ue_list m ! j)) = {}"
  using assms concat_disjoint [of "map ue_ptrs (ue_list m)" i j] concat_disjoint [of "map ue_ptrs (ue_list m)" j i]
  by (cases "i < j") (auto simp: layer_ok_def layer_ptrs_def)

lemma served_subset: "set (served ue) \<subseteq> set (ue_ptrs ue)"
  by (auto simp: served_def ue_ptrs_def set_ptrs dest: in_set_takeD)

lemma distinct_served:
  assumes "distinct (ue_ptrs ue)"
  shows "distinct (served ue)"
proof -
  have "set (ptrs (take 2 (srb ue))) \<subseteq> set (ptrs (srb ue))" "set (ptrs (take 5 (drb ue))) \<subseteq> set (ptrs (drb ue))"
    by (auto simp: set_ptrs dest: in_set_takeD)
  then show ?thesis using assms by (auto simp: served_def ue_ptrs_def intro: distinct_ptrs_take)
qed

lemma kinds_ok_nth: "kinds_ok m \<Longrightarrow> i < length (ue_list m) \<Longrightarrow> a \<in> set (ue_ptrs (ue_list m ! i)) \<Longrightarrow> kind_ok m (ue_list m ! i) a"
  by (auto simp: kinds_ok_def list_all_iff)

lemma kinds_ok_ticked:
  assumes "entities m' = ticked now A (entities m)" "ue_list m' = ue_list m" "kinds_ok m"
  shows "kinds_ok m'"
  using assms(3) kind_ok_ticked [OF assms(1)] by (simp add: kinds_ok_def assms(2) list_all_iff)

lemma tick_ue_eq:
  assumes "layer_ok m" "kinds_ok m" "i < length (ue_list m)"
  shows "\<exists>m1 m2. tick_slots i now (take 2 (srb (ue_list m ! i))) m = Inr m1 \<and> tick_slots i now (take 5 (drb (ue_list m1 ! i))) m1 = Inr m2
    \<and> ue_list m2 = ue_list m \<and> entities m2 = ticked now (set (served (ue_list m ! i))) (entities m)"
proof -
  let ?ue = "ue_list m ! i"
  have "distinct (ue_ptrs ?ue)" using assms(1,3) by (rule distinct_ue_ptrs)
  then have d: "distinct (ptrs (take 2 (srb ?ue)))" "distinct (ptrs (take 5 (drb ?ue)))"
      "set (ptrs (take 2 (srb ?ue))) \<inter> set (ptrs (take 5 (drb ?ue))) = {}"
    using distinct_served [of ?ue] by (simp_all add: served_def)
  have k: "kind_ok m ?ue a" if "a \<in> set (served ?ue)" for a using that served_subset kinds_ok_nth [OF assms(2,3)] by blast
  obtain m1 where m1: "tick_slots i now (take 2 (srb ?ue)) m = Inr m1" "ue_list m1 = ue_list m"
      "entities m1 = ticked now (set (ptrs (take 2 (srb ?ue)))) (entities m)"
    using tick_slots_eq [OF d(1), of m i now] k by (auto simp: served_def)
  obtain m2 where m2: "tick_slots i now (take 5 (drb ?ue)) m1 = Inr m2" "ue_list m2 = ue_list m1"
      "entities m2 = ticked now (set (ptrs (take 5 (drb ?ue)))) (entities m1)"
    using tick_slots_eq [OF d(2), of m1 i now] k kind_ok_ticked [OF m1(3)] m1(2) by (auto simp: served_def)
  have "entities m2 = ticked now (set (served ?ue)) (entities m)" using m1(3) m2(3) d(3) by (simp add: ticked_simps(2) served_def)
  then show ?thesis using m1 m2 by auto
qed

lemma tick_ues_eq:
  assumes "layer_ok m" "kinds_ok m" "distinct is" "\<forall>i \<in> set is. i < length (ue_list m)"
  shows "\<exists>m'. tick_ues now is m = Inr m' \<and> ue_list m' = ue_list m
    \<and> entities m' = ticked now (\<Union>i \<in> set is. set (served (ue_list m ! i))) (entities m)"
  using assms
proof (induction "is" arbitrary: m)
  case (Cons i "is")
  obtain m1 m2 where m2: "tick_slots i now (take 2 (srb (ue_list m ! i))) m = Inr m1" "tick_slots i now (take 5 (drb (ue_list m1 ! i))) m1 = Inr m2"
      "ue_list m2 = ue_list m" "entities m2 = ticked now (set (served (ue_list m ! i))) (entities m)"
    using tick_ue_eq [OF Cons.prems(1,2), of i now] Cons.prems(4) by auto
  have "layer_ok m2" using tick_slots_ok [OF tick_slots_ok [OF Cons.prems(1) m2(1)] m2(2)] .
  then obtain m' where m': "tick_ues now is m2 = Inr m'" "ue_list m' = ue_list m2"
      "entities m' = ticked now (\<Union>i \<in> set is. set (served (ue_list m ! i))) (entities m2)"
    using Cons.IH [of m2] kinds_ok_ticked [OF m2(4,3) Cons.prems(2)] Cons.prems m2(3) by auto
  have "set (served (ue_list m ! i)) \<inter> (\<Union>j \<in> set is. set (served (ue_list m ! j))) = {}"
    using served_disjoint [OF Cons.prems(1), of i] Cons.prems(3,4) served_subset by fastforce
  then show ?case using m2 m' by (simp add: ticked_simps(2))
qed (simp add: ticked_simps)

lemma in_served:
  assumes "layer_ok m" "i < length (ue_list m)" "k < MAX_DRBS_PER_UE" "drb (ue_list m ! i) ! k = Some a"
  shows "(\<exists>j < length (ue_list m). a \<in> set (served (ue_list m ! j))) \<longleftrightarrow> k < 5"
proof -
  let ?ue = "ue_list m ! i"
  have len: "k < length (drb ?ue)" using assms(1-3) by (simp add: layer_ok_def slots_ok_def list_all_length)
  have split: "ptrs (drb ?ue) = ptrs (take 5 (drb ?ue)) @ ptrs (drop 5 (drb ?ue))"
    using ptrs_simps(4) [of "take 5 (drb ?ue)" "drop 5 (drb ?ue)"] by simp
  have "distinct (ue_ptrs ?ue)" using assms(1,2) by (rule distinct_ue_ptrs)
  then have d: "distinct (ptrs (srb ?ue) @ ptrs (take 5 (drb ?ue)) @ ptrs (drop 5 (drb ?ue)))" by (simp add: ue_ptrs_def split)
  have a: "a \<in> set (ue_ptrs ?ue)" using len assms(4) by (auto simp: ue_ptrs_def set_ptrs) (metis nth_mem)
  have here: "a \<in> set (served (ue_list m ! j)) \<Longrightarrow> j < length (ue_list m) \<Longrightarrow> j = i" for j
    using served_disjoint [OF assms(1,2), of j] served_subset [of "ue_list m ! j"] a by blast
  show ?thesis
  proof (cases "k < 5")
    case True
    then have "Some a \<in> set (take 5 (drb ?ue))" using len assms(4) by (auto simp: in_set_conv_nth intro!: exI [of _ k])
    then show ?thesis using True assms(2) by (auto simp: served_def set_ptrs)
  next
    case False
    then have "drop 5 (drb ?ue) ! (k - 5) = Some a" "k - 5 < length (drop 5 (drb ?ue))" using len assms(4) by simp_all
    then have "a \<in> set (ptrs (drop 5 (drb ?ue)))" by (metis nth_mem set_ptrs)
    then have "a \<notin> set (ptrs (srb ?ue))" "a \<notin> set (ptrs (take 5 (drb ?ue)))" using d by auto
    then have "a \<notin> set (served ?ue)" by (auto simp: served_def set_ptrs dest: in_set_takeD)
    then show ?thesis using False here by blast
  qed
qed

text \<open>
  (C5) The timer thread serves only the first five data bearers of a user. A turn of its loop
  runs to the end and sets the time of the entity of every data bearer up to number 5, with
  everything the expiry of its reordering timer brings; the entity of a bearer from number 6 on
  is left as it is. Its clock never moves, so its reordering timer never expires and one lost
  PDU blocks the delivery of the PDUs behind it for ever.
\<close>

theorem pdcp_timer_serves_five:
  assumes "layer_ok m" "kinds_ok m" "curtime m \<noteq> ticks m" "i < length (ue_list m)" "k < MAX_DRBS_PER_UE" "drb (ue_list m ! i) ! k = Some a"
  shows "\<exists>m' e. nr_pdcp_timer_thread m = Inr m' \<and> entities m a = Some e
    \<and> entities m' a = Some (if k < 5 then nr_pdcp_entity_set_time e (ticks m) else e)"
proof -
  let ?m = "m\<lparr>curtime := ticks m\<rparr>"
  have "layer_ok ?m" "kinds_ok ?m" using assms(1,2) by (simp_all add: layer_ok_def kinds_ok_def kind_ok_def list_all_iff)
  then obtain m' where m': "tick_ues (ticks m) [0..<length (ue_list m)] ?m = Inr m'"
      "entities m' = ticked (ticks m) (\<Union>i \<in> {0..<length (ue_list m)}. set (served (ue_list m ! i))) (entities m)"
    using tick_ues_eq [of ?m "[0..<length (ue_list m)]" "ticks m"] by auto
  have "a \<in> set (layer_ptrs (ue_list m))"
    using assms(1,4-6) by (intro slot_in_layer [of i]) (auto simp: layer_ok_def slots_ok_def list_all_length, metis nth_mem)
  then obtain e where "entities m a = Some e" using assms(1) by (auto simp: layer_ok_def)
  then show ?thesis using m' assms(3) in_served [OF assms(1,4-6)] by (auto simp: nr_pdcp_timer_thread_def ticked_def)
qed

lemma demo_layer_kinds: "res_bind demo_layer (\<lambda>m. Inr (kinds_ok (nr_pdcp_ms_tick m), curtime (nr_pdcp_ms_tick m), ticks (nr_pdcp_ms_tick m))) = Inr (True, 0, 1)"
  by code_simp

theorem pdcp_timer_serves_five_witness:
  "\<exists>m m' e e1. demo_layer = Inr m \<and> nr_pdcp_timer_thread (nr_pdcp_ms_tick m) = Inr m'
     \<and> entities m 0 = Some e \<and> entities m' 0 = Some (nr_pdcp_entity_set_time e 1) \<and> entities m 1 = Some e1 \<and> entities m' 1 = Some e1"
proof -
  obtain m where m: "demo_layer = Inr m" "layer_ok m" "length (ue_list m) = 1" "drb (ue_list m ! 0) ! 0 = Some 0" "drb (ue_list m ! 0) ! 5 = Some 1"
    using demo_layer_ok by blast
  let ?m = "nr_pdcp_ms_tick m"
  have k: "kinds_ok ?m" "curtime ?m \<noteq> ticks ?m" "ticks ?m = 1" using demo_layer_kinds [unfolded m(1)] by (auto simp: res_simps)
  have m': "layer_ok ?m" "0 < length (ue_list ?m)" "drb (ue_list ?m ! 0) ! 0 = Some 0" "drb (ue_list ?m ! 0) ! 5 = Some 1"
    using m by (simp_all add: nr_pdcp_ms_tick_def layer_ok_def)
  have ents: "entities ?m = entities m" by (simp add: nr_pdcp_ms_tick_def)
  obtain m1 e where 1: "nr_pdcp_timer_thread ?m = Inr m1" "entities m 0 = Some e" "entities m1 0 = Some (nr_pdcp_entity_set_time e 1)"
    using pdcp_timer_serves_five [OF m'(1) k(1,2) m'(2) _ m'(3)] k(3) ents by (auto simp: MAX_DRBS_PER_UE_def)
  obtain e1 where "entities m 1 = Some e1" "entities m1 1 = Some e1"
    using pdcp_timer_serves_five [OF m'(1) k(1,2) m'(2) _ m'(4)] 1(1) ents by (auto simp: MAX_DRBS_PER_UE_def)
  with m(1) 1 show ?thesis by blast
qed

end
