(* ===== verification/PDCP_Queue.thy ===== *)
theory PDCP_Queue
  imports PDCP_Manager
begin

text \<open>
  The two queues of \<open>nr_pdcp_oai_api.c\<close>, from PDCP to RLC (\<open>rlc_data_req_queue\<close>) and from RLC to
  PDCP (\<open>pdcp_data_ind_queue\<close>). Each is a ring of 10000 items shared by any number of producer
  threads and one consumer thread, with one mutex and one condition variable for both
  directions of waiting. The code of the two is the same but for the items, and so is the model:
  \<open>n\<close> is the size of the ring and \<open>handle\<close> what the consumer does with an item. A step of the
  relation \<open>queue_step\<close> is one critical section of a thread, or the call of the handler, which
  runs outside the mutex. A thread in \<open>pthread_cond_wait\<close> is asleep; \<open>pthread_cond_signal\<close> wakes
  one sleeping thread, of either kind, and a thread may wake up without a signal.
\<close>

section \<open>The ring\<close>

record 'a data_queue =
  items :: "'a list"
  q_start :: int
  q_length :: int

definition RLC_DATA_REQ_QUEUE_SIZE :: nat where
  "RLC_DATA_REQ_QUEUE_SIZE = 10000"

definition PDCP_DATA_IND_QUEUE_SIZE :: nat where
  "PDCP_DATA_IND_QUEUE_SIZE = 10000"

definition enqueue :: "nat \<Rightarrow> 'a \<Rightarrow> 'a data_queue \<Rightarrow> 'a data_queue res" where
  "enqueue n x q =
     (let i = (q_start q + q_length q) smod int n
      in res_bind (c_store (items q) i x) (\<lambda>l. Inr (q\<lparr>items := l, q_length := q_length q + 1\<rparr>)))"

definition dequeue :: "nat \<Rightarrow> 'a data_queue \<Rightarrow> 'a data_queue" where
  "dequeue n q = q\<lparr>q_length := q_length q - 1, q_start := (q_start q + 1) smod int n\<rparr>"

definition init_queue :: "nat \<Rightarrow> 'a \<Rightarrow> 'a data_queue" where
  "init_queue n zero = \<lparr>items = replicate n zero, q_start = 0, q_length = 0\<rparr>"

record rlc_data_req_queue_item =
  rq_ctxt :: protocol_ctxt
  rq_srb_flag :: bool
  rq_rb_id :: int
  rq_mui :: u32
  rq_confirm :: u32
  rq_sdu :: "byte list"

record pdcp_data_ind_queue_item =
  pi_ctxt :: protocol_ctxt
  pi_srb_flag :: bool
  pi_rb_id :: int
  pi_sdu_buffer :: "byte list"

definition enqueue_rlc_data_req ::
  "protocol_ctxt \<Rightarrow> bool \<Rightarrow> int \<Rightarrow> u32 \<Rightarrow> u32 \<Rightarrow> byte list \<Rightarrow> rlc_data_req_queue_item data_queue
   \<Rightarrow> rlc_data_req_queue_item data_queue res" where
  "enqueue_rlc_data_req c srb_flag rb mui confirm sdu q =
     enqueue RLC_DATA_REQ_QUEUE_SIZE
       \<lparr>rq_ctxt = c, rq_srb_flag = srb_flag, rq_rb_id = rb, rq_mui = mui, rq_confirm = confirm, rq_sdu = sdu\<rparr> q"

definition enqueue_pdcp_data_ind ::
  "protocol_ctxt \<Rightarrow> bool \<Rightarrow> int \<Rightarrow> byte list \<Rightarrow> pdcp_data_ind_queue_item data_queue
   \<Rightarrow> pdcp_data_ind_queue_item data_queue res" where
  "enqueue_pdcp_data_ind c srb_flag rb buffer q =
     enqueue PDCP_DATA_IND_QUEUE_SIZE \<lparr>pi_ctxt = c, pi_srb_flag = srb_flag, pi_rb_id = rb, pi_sdu_buffer = buffer\<rparr> q"

definition nr_pdcp_data_ind ::
  "protocol_ctxt \<Rightarrow> bool \<Rightarrow> int \<Rightarrow> byte list \<Rightarrow> pdcp_data_ind_queue_item data_queue
   \<Rightarrow> (bool \<times> pdcp_data_ind_queue_item data_queue) res" where
  "nr_pdcp_data_ind c srb_flag rb buffer q =
     res_bind (enqueue_pdcp_data_ind c srb_flag rb buffer q) (\<lambda>q. Inr (True, q))"

definition ctxt_of :: "bool \<Rightarrow> u64 \<Rightarrow> protocol_ctxt" where
  "ctxt_of enb u = \<lparr>module_id = 0, ctxt_enb_flag = enb, ctxt_instance = 0, rntiMaybeUEid = u, eNB_index = 0, brOption = False\<rparr>"

definition deliver_pdu_drb_ue ::
  "bool \<Rightarrow> u64 \<Rightarrow> int \<Rightarrow> byte list \<Rightarrow> u32 \<Rightarrow> rlc_data_req_queue_item data_queue \<Rightarrow> rlc_data_req_queue_item data_queue res" where
  "deliver_pdu_drb_ue data_is_null u rb buf sdu_id q =
     (if \<not> data_is_null then Inl Assert_fatal else enqueue_rlc_data_req (ctxt_of False u) False rb sdu_id 0 buf q)"

definition deliver_pdu_srb_rlc ::
  "u64 \<Rightarrow> int \<Rightarrow> byte list \<Rightarrow> u32 \<Rightarrow> rlc_data_req_queue_item data_queue \<Rightarrow> rlc_data_req_queue_item data_queue res" where
  "deliver_pdu_srb_rlc u srb_id buf sdu_id q = enqueue_rlc_data_req (ctxt_of True u) True srb_id sdu_id 0 buf q"

section \<open>The threads\<close>

text \<open>
  The consumer is about to test the length (\<open>Ready\<close>), in \<open>pthread_cond_wait\<close>, holding the index of
  the item it will pass to the handler (\<open>Busy\<close>), or back from the handler (\<open>Handled\<close>). A producer
  has no call in progress, is about to test the length, or waits for room.
\<close>

datatype consumer = Ready | Asleep | Busy int | Handled int

datatype 'a producer = Idle | Wants 'a | Waits 'a

text \<open>\<open>submitted\<close> and \<open>taken\<close> are the items put into the ring and passed to the handler so far.\<close>

record ('a, 's) queue_sys =
  dq :: "'a data_queue"
  consumer :: consumer
  producers :: "'a producer list"
  env :: "'s res"
  submitted :: "'a list"
  taken :: "'a list"

fun awake :: "'a producer \<Rightarrow> 'a producer" where
  "awake (Waits x) = Wants x"
| "awake p = p"

text \<open>\<open>pthread_cond_signal\<close>.\<close>

inductive signal :: "('a, 's) queue_sys \<Rightarrow> ('a, 's) queue_sys \<Rightarrow> bool" where
  wake_consumer: "consumer s = Asleep \<Longrightarrow> signal s (s\<lparr>consumer := Ready\<rparr>)"
| wake_producer: "k < length (producers s) \<Longrightarrow> producers s ! k = Waits x
    \<Longrightarrow> signal s (s\<lparr>producers := (producers s)[k := Wants x]\<rparr>)"
| wake_none: "consumer s \<noteq> Asleep \<Longrightarrow> (\<And>x. Waits x \<notin> set (producers s)) \<Longrightarrow> signal s s"

inductive queue_step :: "nat \<Rightarrow> ('a \<Rightarrow> 's \<Rightarrow> 's res) \<Rightarrow> ('a, 's) queue_sys \<Rightarrow> ('a, 's) queue_sys \<Rightarrow> bool"
  for n handle where
  producer_call: "k < length (producers s) \<Longrightarrow> producers s ! k = Idle
    \<Longrightarrow> queue_step n handle s (s\<lparr>producers := (producers s)[k := Wants x]\<rparr>)"
| producer_full: "k < length (producers s) \<Longrightarrow> producers s ! k = Wants x \<Longrightarrow> q_length (dq s) = int n
    \<Longrightarrow> queue_step n handle s (s\<lparr>producers := (producers s)[k := Waits x]\<rparr>)"
| producer_put: "k < length (producers s) \<Longrightarrow> producers s ! k = Wants x \<Longrightarrow> q_length (dq s) \<noteq> int n
    \<Longrightarrow> enqueue n x (dq s) = Inr q
    \<Longrightarrow> signal (s\<lparr>dq := q, producers := (producers s)[k := Idle], submitted := submitted s @ [x]\<rparr>) s'
    \<Longrightarrow> queue_step n handle s s'"
| consumer_empty: "consumer s = Ready \<Longrightarrow> q_length (dq s) = 0 \<Longrightarrow> queue_step n handle s (s\<lparr>consumer := Asleep\<rparr>)"
| consumer_peek: "consumer s = Ready \<Longrightarrow> q_length (dq s) \<noteq> 0
    \<Longrightarrow> queue_step n handle s (s\<lparr>consumer := Busy (q_start (dq s))\<rparr>)"
| consumer_handle: "consumer s = Busy i \<Longrightarrow> c_index (items (dq s)) i = Inr x
    \<Longrightarrow> queue_step n handle s (s\<lparr>consumer := Handled i, env := res_bind (env s) (handle x), taken := taken s @ [x]\<rparr>)"
| consumer_pop: "consumer s = Handled i \<Longrightarrow> signal (s\<lparr>dq := dequeue n (dq s), consumer := Ready\<rparr>) s'
    \<Longrightarrow> queue_step n handle s s'"
| spurious_consumer: "consumer s = Asleep \<Longrightarrow> queue_step n handle s (s\<lparr>consumer := Ready\<rparr>)"
| spurious_producer: "k < length (producers s) \<Longrightarrow> producers s ! k = Waits x
    \<Longrightarrow> queue_step n handle s (s\<lparr>producers := (producers s)[k := Wants x]\<rparr>)"

inductive_cases signalE: "signal s s'"

definition init_sys :: "nat \<Rightarrow> 'a \<Rightarrow> nat \<Rightarrow> 's \<Rightarrow> ('a, 's) queue_sys" where
  "init_sys n zero threads e0 = \<lparr>dq = init_queue n zero, consumer = Ready, producers = replicate threads Idle, env = Inr e0,
     submitted = [], taken = []\<rparr>"

section \<open>The ring is a bounded queue\<close>

text \<open>
  What the threads rely on: a queue with room takes an item at its end, and a queue that is not
  empty loses its first item. \<open>accounted\<close> is the bookkeeping of the two ends.
\<close>

locale fifo =
  fixes wf :: "'q \<Rightarrow> bool" and abs :: "'q \<Rightarrow> 'a list" and put :: "'a \<Rightarrow> 'q \<Rightarrow> 'q res" and pop :: "'q \<Rightarrow> 'q" and cap :: nat
  assumes put_law: "wf q \<Longrightarrow> length (abs q) < cap \<Longrightarrow> \<exists>q'. put x q = Inr q' \<and> wf q' \<and> abs q' = abs q @ [x]"
    and pop_law: "wf q \<Longrightarrow> abs q \<noteq> [] \<Longrightarrow> wf (pop q) \<and> abs (pop q) = tl (abs q)"
    and cap_law: "wf q \<Longrightarrow> length (abs q) \<le> cap"
begin

definition accounted :: "'a list \<Rightarrow> 'q \<Rightarrow> 'a list \<Rightarrow> bool" where
  "accounted out q sub \<longleftrightarrow> wf q \<and> sub = out @ abs q"

lemma accounted_put:
  assumes "accounted out q sub" "put x q = Inr q'" "length (abs q) < cap"
  shows "accounted out q' (sub @ [x])"
  using assms put_law [of q x] by (auto simp: accounted_def)

lemma accounted_pop:
  assumes "accounted out q sub" "abs q \<noteq> []"
  shows "accounted (out @ [hd (abs q)]) (pop q) sub"
  using assms pop_law [of q] by (simp add: accounted_def)

end

definition q_ok :: "nat \<Rightarrow> 'a data_queue \<Rightarrow> bool" where
  "q_ok n q \<longleftrightarrow> length (items q) = n \<and> 0 \<le> q_start q \<and> q_start q < int n \<and> 0 \<le> q_length q \<and> q_length q \<le> int n"

definition contents :: "nat \<Rightarrow> 'a data_queue \<Rightarrow> 'a list" where
  "contents n q = map (\<lambda>k. items q ! nat ((q_start q + int k) mod int n)) [0..<nat (q_length q)]"

lemma length_contents: "q_ok n q \<Longrightarrow> int (length (contents n q)) = q_length q"
  by (simp add: contents_def q_ok_def)

lemma ring_put:
  assumes "q_ok n q" "length (contents n q) < n"
  shows "\<exists>q'. enqueue n x q = Inr q' \<and> q_ok n q' \<and> contents n q' = contents n q @ [x]"
proof -
  let ?s = "q_start q" and ?l = "q_length q"
  let ?i = "(?s + ?l) mod int n"
  have q: "length (items q) = n" "0 \<le> ?s" "?s < int n" "0 \<le> ?l" "?l < int n" "0 < int n"
    using assms length_contents [OF assms(1)] by (auto simp: q_ok_def)
  have i: "0 \<le> ?i" "?i < int n" using q(6) by simp_all
  let ?q = "q\<lparr>items := (items q)[nat ?i := x], q_length := ?l + 1\<rparr>"
  have "enqueue n x q = Inr ?q" using q i by (simp add: enqueue_def c_store_def smod_eq_mod)
  moreover have "q_ok n ?q" using q by (simp add: q_ok_def)
  moreover have "contents n ?q = contents n q @ [x]"
  proof -
    have old: "(items q)[nat ?i := x] ! nat ((?s + int k) mod int n) = items q ! nat ((?s + int k) mod int n)" if "k < nat ?l" for k
    proof -
      have "(?s + int k) mod int n \<noteq> ?i"
      proof
        assume "(?s + int k) mod int n = ?i"
        then have "int k = ?l" by (rule mod_add_cancel_bounded) (use that q in linarith)+
        then show False using that by simp
      qed
      moreover have "0 \<le> (?s + int k) mod int n" using q(6) by simp
      ultimately show ?thesis using i by (simp add: nat_eq_iff)
    qed
    moreover have "nat (?l + 1) = Suc (nat ?l)" using q(4) by simp
    moreover have "(items q)[nat ?i := x] ! nat ?i = x" using q(1) i by (intro nth_list_update_eq) linarith
    ultimately show ?thesis using q(4) old by (simp add: contents_def)
  qed
  ultimately show ?thesis by blast
qed

lemma ring_pop:
  assumes "q_ok n q" "contents n q \<noteq> []"
  shows "q_ok n (dequeue n q) \<and> contents n (dequeue n q) = tl (contents n q)"
proof -
  have q: "0 \<le> q_start q" "q_start q < int n" "0 < q_length q" "q_length q \<le> int n" "0 < int n"
    using assms length_contents [OF assms(1)] by (auto simp: q_ok_def simp flip: length_greater_0_conv)
  have next_index: "((q_start q + 1) mod int n + int k) mod int n = (q_start q + int (Suc k)) mod int n" for k
    using mod_add_left_eq [of "q_start q + 1" "int n" "int k"] by (simp add: algebra_simps)
  have "[0..<nat (q_length q)] = 0 # map Suc [0..<nat (q_length q - 1)]"
    using q(3) by (simp add: upt_conv_Cons map_Suc_upt nat_diff_distrib Suc_diff_1)
  then have "contents n (dequeue n q) = tl (contents n q)"
    using q next_index by (simp add: contents_def dequeue_def smod_eq_mod comp_def)
  moreover have "q_ok n (dequeue n q)" using assms(1) q by (simp add: q_ok_def dequeue_def smod_eq_mod)
  ultimately show ?thesis by blast
qed

lemma ring_head:
  assumes "q_ok n q" "0 < q_length q"
  shows "c_index (items q) (q_start q) = Inr (hd (contents n q)) \<and> contents n q \<noteq> []"
  using assms by (auto simp: contents_def q_ok_def c_index_def upt_conv_Cons)

lemma ring_fifo: "0 < n \<Longrightarrow> fifo (q_ok n) (contents n) (enqueue n) (dequeue n) n"
proof unfold_locales
  fix q :: "'a data_queue"
  assume "q_ok n q"
  then show "length (contents n q) \<le> n" using length_contents [of n q] by (simp add: q_ok_def)
qed (rule ring_put ring_pop; assumption)+

interpretation rlcq: fifo "q_ok RLC_DATA_REQ_QUEUE_SIZE" "contents RLC_DATA_REQ_QUEUE_SIZE" "enqueue RLC_DATA_REQ_QUEUE_SIZE"
  "dequeue RLC_DATA_REQ_QUEUE_SIZE" RLC_DATA_REQ_QUEUE_SIZE
  by (rule ring_fifo) (simp add: RLC_DATA_REQ_QUEUE_SIZE_def)

interpretation pdcpq: fifo "q_ok PDCP_DATA_IND_QUEUE_SIZE" "contents PDCP_DATA_IND_QUEUE_SIZE" "enqueue PDCP_DATA_IND_QUEUE_SIZE"
  "dequeue PDCP_DATA_IND_QUEUE_SIZE" PDCP_DATA_IND_QUEUE_SIZE
  by (rule ring_fifo) (simp add: PDCP_DATA_IND_QUEUE_SIZE_def)

section \<open>The invariant of the threads\<close>

fun is_waiting :: "'a producer \<Rightarrow> bool" where
  "is_waiting (Waits x) = True"
| "is_waiting _ = False"

definition sleepers :: "('a, 's) queue_sys \<Rightarrow> nat" where
  "sleepers s = length (filter is_waiting (producers s))"

definition popped :: "('a, 's) queue_sys \<Rightarrow> 'a list" where
  "popped s = (case consumer s of Handled i \<Rightarrow> butlast (taken s) | _ \<Rightarrow> taken s)"

definition run_handler :: "('a \<Rightarrow> 's \<Rightarrow> 's res) \<Rightarrow> 's \<Rightarrow> 'a list \<Rightarrow> 's res" where
  "run_handler handle e0 xs = foldl (\<lambda>r x. res_bind r (handle x)) (Inr e0) xs"

definition data_inv :: "nat \<Rightarrow> ('a \<Rightarrow> 's \<Rightarrow> 's res) \<Rightarrow> 's \<Rightarrow> ('a, 's) queue_sys \<Rightarrow> bool" where
  "data_inv n handle e0 s \<longleftrightarrow> q_ok n (dq s) \<and> submitted s = popped s @ contents n (dq s)
     \<and> env s = run_handler handle e0 (taken s)
     \<and> (\<forall>i. consumer s = Busy i \<longrightarrow> i = q_start (dq s) \<and> 0 < q_length (dq s))
     \<and> (\<forall>i. consumer s = Handled i \<longrightarrow> 0 < q_length (dq s) \<and> taken s = popped s @ [hd (contents n (dq s))])"

text \<open>
  A sleeping consumer has an empty queue. Every signal sent while the consumer is awake wakes a
  waiting producer, so with \<open>w\<close> producers waiting at most \<open>threads - w\<close> items have left the full ring.
\<close>

definition sleep_inv :: "nat \<Rightarrow> nat \<Rightarrow> ('a, 's) queue_sys \<Rightarrow> bool" where
  "sleep_inv n threads s \<longleftrightarrow> length (producers s) = threads \<and> (consumer s = Asleep \<longrightarrow> q_length (dq s) = 0)
     \<and> (0 < sleepers s \<longrightarrow> int n + int (sleepers s) \<le> q_length (dq s) + int threads)"

lemma waiting_iff: "is_waiting p \<longleftrightarrow> (\<exists>x. p = Waits x)"
  by (cases p) auto

lemma sleepers_pos: "0 < sleepers s \<longleftrightarrow> (\<exists>x. Waits x \<in> set (producers s))"
  by (auto simp: sleepers_def filter_empty_conv waiting_iff)

lemma filter_update:
  assumes "k < length l"
  shows "length (filter P (l[k := y])) + (if P (l ! k) then 1 else 0) = length (filter P l) + (if P y then 1 else 0)"
proof -
  have "length (filter P l) = length (filter P (take k l)) + (if P (l ! k) then 1 else 0) + length (filter P (drop (Suc k) l))"
    using arg_cong [OF id_take_nth_drop [OF assms], of "\<lambda>l. length (filter P l)"] by simp
  then show ?thesis using assms by (simp add: upd_conv_take_nth_drop)
qed

lemma signal_frame:
  assumes "signal s s'"
  shows "dq s' = dq s \<and> env s' = env s \<and> submitted s' = submitted s \<and> taken s' = taken s \<and> length (producers s') = length (producers s)
     \<and> (consumer s' = consumer s \<or> consumer s = Asleep \<and> consumer s' = Ready)"
  using assms by (cases rule: signal.cases) auto

lemma signal_effect:
  assumes "signal s s'"
  shows "sleepers s' \<le> sleepers s" "consumer s \<noteq> Asleep \<Longrightarrow> sleepers s' = sleepers s - 1"
    "consumer s = Asleep \<Longrightarrow> sleepers s = 0 \<Longrightarrow> consumer s' = Ready"
proof -
  show "sleepers s' \<le> sleepers s" "consumer s \<noteq> Asleep \<Longrightarrow> sleepers s' = sleepers s - 1"
    using assms
  proof (induction rule: signal.induct)
    case (wake_producer k s x)
    have "sleepers (s\<lparr>producers := (producers s)[k := Wants x]\<rparr>) + 1 = sleepers s"
      using filter_update [OF wake_producer(1), of is_waiting "Wants x"] wake_producer(2) by (simp add: sleepers_def)
    then show "sleepers (s\<lparr>producers := (producers s)[k := Wants x]\<rparr>) \<le> sleepers s"
      "sleepers (s\<lparr>producers := (producers s)[k := Wants x]\<rparr>) = sleepers s - 1" by simp_all
  next
    case (wake_none s)
    then show "sleepers s = sleepers s - 1" using sleepers_pos [of s] by force
  qed (simp_all add: sleepers_def)
  show "consumer s' = Ready" if "consumer s = Asleep" "sleepers s = 0"
    using assms that
  proof (cases rule: signal.cases)
    case (wake_producer k x)
    then have "Waits x \<in> set (producers s)" by (metis nth_mem)
    then show ?thesis using that sleepers_pos [of s] by auto
  qed auto
qed

lemma popped_cong: "consumer s' = consumer s \<Longrightarrow> taken s' = taken s \<Longrightarrow> popped s' = popped s"
  by (cases "consumer s") (simp_all add: popped_def)

lemma popped_update [simp]:
  "popped (s\<lparr>dq := q\<rparr>) = popped s" "popped (s\<lparr>producers := ps\<rparr>) = popped s" "popped (s\<lparr>submitted := xs\<rparr>) = popped s"
  by (rule popped_cong; simp)+

lemma data_inv_signal:
  assumes "signal s s'" "data_inv n handle e0 s"
  shows "data_inv n handle e0 s'"
proof (cases "consumer s' = consumer s")
  case True
  then have "popped s' = popped s" using signal_frame [OF assms(1)] by (intro popped_cong) simp_all
  then show ?thesis using assms(2) signal_frame [OF assms(1)] True by (simp add: data_inv_def)
next
  case False
  then have "popped s' = popped s" "consumer s' = Ready" using signal_frame [OF assms(1)] by (auto simp: popped_def)
  then show ?thesis using assms(2) signal_frame [OF assms(1)] by (simp add: data_inv_def)
qed

lemma run_handler_snoc: "run_handler handle e0 (xs @ [x]) = res_bind (run_handler handle e0 xs) (handle x)"
  by (simp add: run_handler_def)

lemma queue_step_data:
  assumes "queue_step n handle s s'" "data_inv n handle e0 s"
  shows "data_inv n handle e0 s'"
  using assms
proof (induction rule: queue_step.induct)
  case (producer_put k s x q s')
  let ?s = "s\<lparr>dq := q, producers := (producers s)[k := Idle], submitted := submitted s @ [x]\<rparr>"
  have ok: "q_ok n (dq s)" using producer_put.prems by (simp add: data_inv_def)
  then have "length (contents n (dq s)) < n"
    using length_contents [OF ok] producer_put.hyps(3) by (simp add: q_ok_def)
  then have q: "q_ok n q" "contents n q = contents n (dq s) @ [x]" using ring_put [OF ok, of x] producer_put.hyps(4) by auto
  have len: "q_length q = q_length (dq s) + 1" "q_start q = q_start (dq s)"
    using producer_put.hyps(4) by (auto simp: enqueue_def res_simps)
  have "hd (contents n q) = hd (contents n (dq s))" if "0 < q_length (dq s)" using ring_head [OF ok that] q(2) by (simp add: hd_append)
  then have "data_inv n handle e0 ?s"
    using producer_put.prems q len by (auto simp: data_inv_def)
  then show ?case using data_inv_signal [OF producer_put.hyps(5)] by blast
next
  case (consumer_peek s)
  then show ?case by (auto simp: data_inv_def popped_def q_ok_def)
next
  case (consumer_handle s i x)
  then have i: "i = q_start (dq s)" "0 < q_length (dq s)" "q_ok n (dq s)" by (auto simp: data_inv_def)
  then have "x = hd (contents n (dq s))" using ring_head [of n "dq s"] consumer_handle.hyps(2) by simp
  moreover have "popped s = taken s" "popped (s\<lparr>consumer := Handled i, env := r, taken := taken s @ [x]\<rparr>) = taken s" for r
    using consumer_handle.hyps(1) by (simp_all add: popped_def)
  ultimately show ?case using consumer_handle.prems i by (simp add: data_inv_def run_handler_snoc)
next
  case (consumer_pop s i s')
  let ?s = "s\<lparr>dq := dequeue n (dq s), consumer := Ready\<rparr>"
  have s: "q_ok n (dq s)" "0 < q_length (dq s)" "taken s = popped s @ [hd (contents n (dq s))]" "submitted s = popped s @ contents n (dq s)"
    using consumer_pop.prems consumer_pop.hyps(1) by (auto simp: data_inv_def)
  have "contents n (dq s) \<noteq> []" using ring_head [OF s(1,2)] by blast
  moreover have "popped ?s = taken s" by (simp add: popped_def)
  moreover have "env s = run_handler handle e0 (taken s)" using consumer_pop.prems by (simp add: data_inv_def)
  ultimately have "data_inv n handle e0 ?s"
    using s ring_pop [OF s(1)] by (simp add: data_inv_def)
  then show ?case using data_inv_signal [OF consumer_pop.hyps(2)] by blast
next
  case (consumer_empty s)
  then show ?case by (simp add: data_inv_def popped_def)
next
  case (spurious_consumer s)
  then show ?case by (simp add: data_inv_def popped_def)
qed (simp_all add: data_inv_def)

lemma sleepers_update:
  assumes "k < length (producers s)" "producers s ! k = p"
  shows "sleepers (s\<lparr>producers := (producers s)[k := p']\<rparr>) + (if is_waiting p then 1 else 0) = sleepers s + (if is_waiting p' then 1 else 0)"
  using filter_update [OF assms(1), of is_waiting p'] assms(2) by (simp add: sleepers_def)

lemma sleepers_le: "sleepers s \<le> length (producers s)"
  by (simp add: sleepers_def)

lemma sleepers_frame: "producers s' = producers s \<Longrightarrow> sleepers s' = sleepers s"
  by (simp add: sleepers_def)

lemma queue_step_sleep:
  assumes "queue_step n handle s s'" "data_inv n handle e0 s" "sleep_inv n threads s" "threads \<le> n"
  shows "sleep_inv n threads s'"
  using assms
proof (induction rule: queue_step.induct)
  case (producer_call k s x)
  then show ?case using sleepers_update [OF producer_call.hyps, of "Wants x"] by (simp add: sleep_inv_def)
next
  case (producer_full k s x)
  then show ?case using sleepers_le [of "s\<lparr>producers := (producers s)[k := Waits x]\<rparr>"]
    by (auto simp: sleep_inv_def)
next
  case (producer_put k s x q s')
  let ?s = "s\<lparr>dq := q, producers := (producers s)[k := Idle], submitted := submitted s @ [x]\<rparr>"
  have w: "sleepers ?s = sleepers s"
    using sleepers_update [OF producer_put.hyps(1,2), of Idle] by (simp add: sleepers_def)
  have len: "q_length q = q_length (dq s) + 1" "0 \<le> q_length (dq s)"
    using producer_put.hyps(4) producer_put.prems(1) by (auto simp: enqueue_def res_simps data_inv_def q_ok_def)
  show ?case
  proof (cases "consumer s = Asleep")
    case True
    then have "q_length (dq s) = 0" "sleepers s = 0" using producer_put.prems by (auto simp: sleep_inv_def)
    then have "consumer s' = Ready" "sleepers s' = 0" using signal_effect [OF producer_put.hyps(5)] True w by auto
    then show ?thesis using signal_frame [OF producer_put.hyps(5)] producer_put.prems(2) by (simp add: sleep_inv_def)
  next
    case False
    then have "sleepers s' = sleepers s - 1" "consumer s' \<noteq> Asleep"
      using signal_effect(2) [OF producer_put.hyps(5)] signal_frame [OF producer_put.hyps(5)] w by auto
    then show ?thesis using signal_frame [OF producer_put.hyps(5)] producer_put.prems(2) len by (auto simp: sleep_inv_def)
  qed
next
  case (consumer_pop s i s')
  let ?s = "s\<lparr>dq := dequeue n (dq s), consumer := Ready\<rparr>"
  have "sleepers s' = sleepers s - 1" "consumer s' \<noteq> Asleep" "dq s' = dequeue n (dq s)"
    using signal_effect(2) [OF consumer_pop.hyps(2)] signal_frame [OF consumer_pop.hyps(2)] sleepers_frame [of ?s s] by auto
  then show ?case using signal_frame [OF consumer_pop.hyps(2)] consumer_pop.prems(2) by (auto simp: sleep_inv_def dequeue_def)
next
  case (spurious_producer k s x)
  then show ?case using sleepers_update [OF spurious_producer.hyps, of "Wants x"] by (auto simp: sleep_inv_def)
qed (auto simp: sleep_inv_def sleepers_def)

section \<open>Reachable states\<close>

abbreviation queue_run :: "nat \<Rightarrow> ('a \<Rightarrow> 's \<Rightarrow> 's res) \<Rightarrow> ('a, 's) queue_sys \<Rightarrow> ('a, 's) queue_sys \<Rightarrow> bool" where
  "queue_run n handle \<equiv> (queue_step n handle)\<^sup>*\<^sup>*"

lemma init_inv:
  assumes "0 < n"
  shows "data_inv n handle e0 (init_sys n zero threads e0)" "sleep_inv n threads (init_sys n zero threads e0)"
  using assms by (simp_all add: data_inv_def sleep_inv_def init_sys_def init_queue_def q_ok_def contents_def popped_def run_handler_def sleepers_def)

lemma run_data:
  assumes "queue_run n handle (init_sys n zero threads e0) s" "0 < n"
  shows "data_inv n handle e0 s"
  using assms(1)
proof (induction rule: rtranclp_induct)
  case base
  show ?case by (rule init_inv(1) [OF assms(2)])
qed (rule queue_step_data)

lemma run_sleep:
  assumes "queue_run n handle (init_sys n zero threads e0) s" "0 < n" "threads \<le> n"
  shows "sleep_inv n threads s"
  using assms(1)
proof (induction rule: rtranclp_induct)
  case base
  show ?case by (rule init_inv(2) [OF assms(2)])
next
  case (step s s')
  then show ?case using queue_step_sleep [OF step(2) run_data [OF step(1) assms(2)]] assms(3) by blast
qed

lemma data_inv_order:
  assumes "data_inv n handle e0 s"
  shows "\<exists>rest. submitted s = taken s @ rest \<and> length rest \<le> n"
proof -
  have ok: "q_ok n (dq s)" and sub: "submitted s = popped s @ contents n (dq s)" using assms by (auto simp: data_inv_def)
  have len: "length (contents n (dq s)) \<le> n" using length_contents [OF ok] ok by (simp add: q_ok_def)
  show ?thesis
  proof (cases "consumer s")
    case (Handled i)
    then have h: "0 < q_length (dq s)" "taken s = popped s @ [hd (contents n (dq s))]" using assms by (auto simp: data_inv_def)
    then have "submitted s = taken s @ tl (contents n (dq s))" using ring_head [OF ok h(1)] sub by (simp only: h(2)) simp
    then show ?thesis using len by (intro exI [of _ "tl (contents n (dq s))"]) simp
  qed (use sub len in \<open>simp_all add: popped_def\<close>)
qed

lemma signal_total: "\<exists>s'. signal s s'"
proof (cases "consumer s = Asleep")
  case True
  then show ?thesis using wake_consumer by blast
next
  case False
  then show ?thesis using wake_none [of s] wake_producer [of _ s] by (cases "\<exists>x. Waits x \<in> set (producers s)") (force simp: in_set_conv_nth)+
qed

lemma consumer_enabled:
  assumes "data_inv n handle e0 s" "consumer s \<noteq> Asleep" "0 < q_length (dq s)"
  shows "\<exists>s'. queue_step n handle s s' \<and> consumer s' \<noteq> consumer s"
proof (cases "consumer s")
  case Ready
  then show ?thesis using assms(3) consumer_peek [of s n handle] by fastforce
next
  case (Busy i)
  then have "c_index (items (dq s)) i = Inr (hd (contents n (dq s)))"
    using assms(1,3) ring_head [of n "dq s"] by (auto simp: data_inv_def)
  then show ?thesis using consumer_handle [OF Busy] Busy by fastforce
next
  case (Handled i)
  obtain s' where s': "signal (s\<lparr>dq := dequeue n (dq s), consumer := Ready\<rparr>) s'" using signal_total by blast
  then have "consumer s' = Ready" using signal_frame [OF s'] by simp
  then show ?thesis using consumer_pop [OF Handled s'] Handled by (metis consumer.distinct(5))
qed (use assms(2) in simp)

section \<open>What the queues guarantee\<close>

text \<open>What the thread \<open>pdcp_data_ind_thread\<close> does with an item.\<close>

definition pdcp_data_ind_thread :: "aes_lib \<Rightarrow> pdcp_data_ind_queue_item \<Rightarrow> pdcp_layer \<Rightarrow> pdcp_layer res" where
  "pdcp_data_ind_thread aes it m = do_pdcp_data_ind aes m (pi_ctxt it) (pi_srb_flag it) (pi_rb_id it) (pi_sdu_buffer it)"

text \<open>
  (C4) The queue from RLC to PDCP keeps the order and loses nothing: with any number of RLC
  threads calling \<open>nr_pdcp_data_ind\<close> and any interleaving with the PDCP thread, the PDUs the PDCP
  entities have received are the first ones submitted, in the order of submission and each
  once, the state of the layer is the result of receiving them one after the other, and at most
  10000 PDUs are under way. In particular a slot is never overwritten while its PDU is read
  outside the mutex.
\<close>

theorem pdcp_data_ind_in_order:
  assumes "queue_run PDCP_DATA_IND_QUEUE_SIZE (pdcp_data_ind_thread aes) (init_sys PDCP_DATA_IND_QUEUE_SIZE zero threads m) s"
  shows "\<exists>rest. submitted s = taken s @ rest \<and> length rest \<le> PDCP_DATA_IND_QUEUE_SIZE
    \<and> env s = run_handler (pdcp_data_ind_thread aes) m (taken s)"
proof -
  have inv: "data_inv PDCP_DATA_IND_QUEUE_SIZE (pdcp_data_ind_thread aes) m s"
    using assms by (rule run_data) (simp add: PDCP_DATA_IND_QUEUE_SIZE_def)
  then show ?thesis using data_inv_order [OF inv] by (simp add: data_inv_def)
qed

lemma one_item_put:
  assumes "0 < n"
  shows "\<exists>s. queue_run n handle (init_sys n zero 1 e0) s \<and> consumer s = Ready \<and> submitted s = [x] \<and> taken s = [] \<and> q_ok n (dq s) \<and> contents n (dq s) = [x]"
proof -
  let ?s0 = "init_sys n zero 1 e0"
  let ?s1 = "?s0\<lparr>producers := (producers ?s0)[0 := Wants x]\<rparr>"
  have "q_ok n (dq ?s1)" "contents n (dq ?s1) = []" using assms by (simp_all add: init_sys_def init_queue_def q_ok_def contents_def)
  then obtain q where q: "enqueue n x (dq ?s1) = Inr q" "q_ok n q" "contents n q = [x]" using ring_put [of n "dq ?s1" x] assms by auto
  let ?s2 = "?s1\<lparr>dq := q, producers := (producers ?s1)[0 := Idle], submitted := submitted ?s1 @ [x]\<rparr>"
  have "queue_step n handle ?s0 ?s1" by (rule producer_call) (simp_all add: init_sys_def)
  moreover have "signal ?s2 ?s2" by (rule wake_none) (simp_all add: init_sys_def)
  then have "queue_step n handle ?s1 ?s2"
    by (intro producer_put [of 0 ?s1 x]) (use q(1) assms in \<open>simp_all add: init_sys_def init_queue_def\<close>)
  ultimately have "queue_run n handle ?s0 ?s2" by (meson r_into_rtranclp rtranclp_trans)
  then show ?thesis using q by (intro exI [of _ ?s2]) (simp add: init_sys_def)
qed

lemma one_item_handled:
  assumes "0 < n"
  shows "\<exists>s. queue_run n handle (init_sys n zero 1 e0) s \<and> submitted s = [x] \<and> taken s = [x]"
proof -
  obtain s where s: "queue_run n handle (init_sys n zero 1 e0) s" "consumer s = Ready" "submitted s = [x]" "taken s = []"
      "q_ok n (dq s)" "contents n (dq s) = [x]" using one_item_put [OF assms, of handle zero e0 x] by blast
  have len: "q_length (dq s) = 1" using length_contents [OF s(5)] s(6) by simp
  let ?s1 = "s\<lparr>consumer := Busy (q_start (dq s))\<rparr>"
  let ?s2 = "?s1\<lparr>consumer := Handled (q_start (dq s)), env := res_bind (env ?s1) (handle x), taken := taken ?s1 @ [x]\<rparr>"
  have 1: "queue_step n handle s ?s1" using s(2) len by (intro consumer_peek) simp_all
  have 2: "queue_step n handle ?s1 ?s2" using ring_head [OF s(5)] len s(6) by (intro consumer_handle) simp_all
  have "queue_run n handle (init_sys n zero 1 e0) ?s2"
    by (rule rtranclp.rtrancl_into_rtrancl [OF rtranclp.rtrancl_into_rtrancl [OF s(1) 1] 2])
  then show ?thesis using s(3,4) by (intro exI [of _ ?s2]) simp
qed

definition demo_pdu :: pdcp_data_ind_queue_item where
  "demo_pdu = \<lparr>pi_ctxt = ctxt_of True 7, pi_srb_flag = False, pi_rb_id = 1, pi_sdu_buffer = [128, 0, 1]\<rparr>"

theorem pdcp_data_ind_in_order_witness:
  "\<exists>s :: (pdcp_data_ind_queue_item, pdcp_layer) queue_sys.
     queue_run PDCP_DATA_IND_QUEUE_SIZE (pdcp_data_ind_thread plain_aes) (init_sys PDCP_DATA_IND_QUEUE_SIZE demo_pdu 1 (new_nr_pdcp_ue_manager 1 False)) s
     \<and> taken s = [demo_pdu] \<and> env s = run_handler (pdcp_data_ind_thread plain_aes) (new_nr_pdcp_ue_manager 1 False) [demo_pdu]"
proof -
  have "0 < PDCP_DATA_IND_QUEUE_SIZE" by (simp add: PDCP_DATA_IND_QUEUE_SIZE_def)
  from one_item_handled [OF this, of "pdcp_data_ind_thread plain_aes" demo_pdu "new_nr_pdcp_ue_manager 1 False" demo_pdu]
  obtain s where s: "queue_run PDCP_DATA_IND_QUEUE_SIZE (pdcp_data_ind_thread plain_aes) (init_sys PDCP_DATA_IND_QUEUE_SIZE demo_pdu 1 (new_nr_pdcp_ue_manager 1 False)) s"
    "taken s = [demo_pdu]" by blast
  then show ?thesis using pdcp_data_ind_in_order [OF s(1)] by auto
qed

text \<open>
  (C3) No wake-up is lost and the threads cannot deadlock, although producers and the consumer
  sleep on one condition variable and a signal may wake either kind: as long as no more than
  10000 threads submit PDUs to RLC, the consumer sleeps only when the queue is empty and no
  producer waits, and whenever there is an item in the queue or a producer waiting for room
  the consumer can make a step.
\<close>

theorem rlc_queue_no_lost_wakeup:
  assumes "queue_run RLC_DATA_REQ_QUEUE_SIZE handle (init_sys RLC_DATA_REQ_QUEUE_SIZE zero threads e0) s" "threads \<le> RLC_DATA_REQ_QUEUE_SIZE"
  shows "(consumer s = Asleep \<longrightarrow> contents RLC_DATA_REQ_QUEUE_SIZE (dq s) = [] \<and> (\<forall>x. Waits x \<notin> set (producers s)))
    \<and> (contents RLC_DATA_REQ_QUEUE_SIZE (dq s) \<noteq> [] \<or> (\<exists>x. Waits x \<in> set (producers s))
       \<longrightarrow> (\<exists>s'. queue_step RLC_DATA_REQ_QUEUE_SIZE handle s s' \<and> consumer s' \<noteq> consumer s))"
proof -
  let ?n = RLC_DATA_REQ_QUEUE_SIZE
  have n: "0 < ?n" by (simp add: RLC_DATA_REQ_QUEUE_SIZE_def)
  have inv: "data_inv ?n handle e0 s" "sleep_inv ?n threads s" using run_data [OF assms(1) n] run_sleep [OF assms(1) n assms(2)] .
  have len: "int (length (contents ?n (dq s))) = q_length (dq s)" using inv(1) length_contents by (auto simp: data_inv_def)
  have waits: "0 < q_length (dq s)" if "\<exists>x. Waits x \<in> set (producers s)"
    using that inv(2) assms(2) by (auto simp: sleep_inv_def simp flip: sleepers_pos)
  have sleep: "q_length (dq s) = 0" if "consumer s = Asleep" using that inv(2) by (simp add: sleep_inv_def)
  have "contents ?n (dq s) \<noteq> [] \<Longrightarrow> 0 < q_length (dq s)" using len by (simp flip: length_greater_0_conv)
  then have step: "\<exists>s'. queue_step ?n handle s s' \<and> consumer s' \<noteq> consumer s"
    if "contents ?n (dq s) \<noteq> [] \<or> (\<exists>x. Waits x \<in> set (producers s))"
    using that waits sleep consumer_enabled [OF inv(1)] by fastforce
  have "consumer s = Asleep \<longrightarrow> contents ?n (dq s) = [] \<and> (\<forall>x. Waits x \<notin> set (producers s))"
    using sleep waits len by fastforce
  then show ?thesis using step by blast
qed

definition demo_req :: rlc_data_req_queue_item where
  "demo_req = \<lparr>rq_ctxt = ctxt_of False 7, rq_srb_flag = False, rq_rb_id = 1, rq_mui = 0, rq_confirm = 0, rq_sdu = [1, 2, 3]\<rparr>"

definition keep_count :: "rlc_data_req_queue_item \<Rightarrow> nat \<Rightarrow> nat res" where
  "keep_count it k = Inr (k + length (rq_sdu it))"

theorem rlc_queue_no_lost_wakeup_witness:
  "\<exists>s s' :: (rlc_data_req_queue_item, nat) queue_sys.
     queue_run RLC_DATA_REQ_QUEUE_SIZE keep_count (init_sys RLC_DATA_REQ_QUEUE_SIZE demo_req 1 0) s
     \<and> contents RLC_DATA_REQ_QUEUE_SIZE (dq s) = [demo_req] \<and> queue_step RLC_DATA_REQ_QUEUE_SIZE keep_count s s' \<and> consumer s' \<noteq> consumer s"
proof -
  have n: "0 < RLC_DATA_REQ_QUEUE_SIZE" "1 \<le> RLC_DATA_REQ_QUEUE_SIZE" by (simp_all add: RLC_DATA_REQ_QUEUE_SIZE_def)
  from one_item_put [OF n(1), of keep_count demo_req 0 demo_req]
  obtain s where s: "queue_run RLC_DATA_REQ_QUEUE_SIZE keep_count (init_sys RLC_DATA_REQ_QUEUE_SIZE demo_req 1 0) s"
    "contents RLC_DATA_REQ_QUEUE_SIZE (dq s) = [demo_req]" by blast
  then show ?thesis using rlc_queue_no_lost_wakeup [OF s(1) n(2)] by auto
qed

end
