(* ===== verification/RLC_Pdu.thy ===== *)
theory RLC_Pdu
  imports RAN_Prelude
begin

text \<open>
  \<open>openair2/LAYER2/nr_rlc/nr_rlc_pdu.c\<close>: the received PDU segments and their ordered list,
  and the bit-wise decoder and encoder of the RLC headers. The codec lemmas view a buffer as
  the sequence of its bits, most significant bit first: the decoder consumes that sequence
  and the encoder extends it, so the round trips follow from list equations.
\<close>

section \<open>Received PDU segments\<close>

text \<open>\<open>pdu_data\<close> is \<^const>\<open>None\<close> once the bytes have been handed over and freed.\<close>

record nr_rlc_pdu =
  pdu_sn :: int
  pdu_data :: "byte list option"
  pdu_size :: int
  pdu_so :: int
  pdu_is_first :: bool
  pdu_is_last :: bool

definition nr_rlc_new_pdu ::
  "int \<Rightarrow> int \<Rightarrow> bool \<Rightarrow> bool \<Rightarrow> byte list \<Rightarrow> nr_rlc_pdu" where
  "nr_rlc_new_pdu sn so is_first is_last data =
     \<lparr>pdu_sn = sn, pdu_data = Some data, pdu_size = int (length data), pdu_so = so,
      pdu_is_first = is_first, pdu_is_last = is_last\<rparr>"

fun nr_rlc_pdu_list_add ::
  "(int \<Rightarrow> int \<Rightarrow> int) \<Rightarrow> nr_rlc_pdu list \<Rightarrow> nr_rlc_pdu \<Rightarrow> nr_rlc_pdu list" where
  "nr_rlc_pdu_list_add sn_compare [] pdu = [pdu]"
| "nr_rlc_pdu_list_add sn_compare (cur # l) pdu =
     (if sn_compare (pdu_sn cur) (pdu_sn pdu) > 0
         \<or> (pdu_sn cur = pdu_sn pdu \<and> pdu_so cur > pdu_so pdu)
      then pdu # cur # l
      else cur # nr_rlc_pdu_list_add sn_compare l pdu)"

section \<open>Decoder\<close>

record nr_rlc_pdu_decoder =
  d_error :: bool
  d_byte :: int
  d_bit :: int
  d_buffer :: "byte list"
  d_size :: int

definition nr_rlc_pdu_decoder_init :: "byte list \<Rightarrow> nr_rlc_pdu_decoder" where
  "nr_rlc_pdu_decoder_init buf =
     \<lparr>d_error = False, d_byte = 0, d_bit = 0, d_buffer = buf, d_size = int (length buf)\<rparr>"

text \<open>\<open>buffer\<close> is a \<open>char\<close> array, so the byte is sign-extended before the shift.\<close>

definition get_bit :: "nr_rlc_pdu_decoder \<Rightarrow> int \<times> nr_rlc_pdu_decoder" where
  "get_bit d =
     (if d_byte d \<ge> d_size d then (0, d\<lparr>d_error := True\<rparr>)
      else let ret = drop_bit (nat (7 - d_bit d)) (sint (d_buffer d ! nat (d_byte d))) AND 1;
               d1 = d\<lparr>d_bit := d_bit d + 1\<rparr>
           in (ret, if d_bit d1 = 8 then d1\<lparr>d_bit := 0, d_byte := d_byte d1 + 1\<rparr> else d1))"

fun get_bits_loop :: "nat \<Rightarrow> int \<Rightarrow> nr_rlc_pdu_decoder \<Rightarrow> int \<times> nr_rlc_pdu_decoder" where
  "get_bits_loop 0 ret d = (ret, d)"
| "get_bits_loop (Suc n) ret d =
     (let (b, d') = get_bit d; ret' = push_bit 1 ret OR b
      in if d_error d' then (-1, d') else get_bits_loop n ret' d')"

definition nr_rlc_pdu_decoder_get_bits ::
  "nr_rlc_pdu_decoder \<Rightarrow> int \<Rightarrow> (int \<times> nr_rlc_pdu_decoder) res" where
  "nr_rlc_pdu_decoder_get_bits d cnt =
     (if cnt > 31 then Inl Exit_fatal else Inr (get_bits_loop (nat cnt) 0 d))"

section \<open>Encoder\<close>

record nr_rlc_pdu_encoder =
  e_byte :: int
  e_bit :: int
  e_buffer :: "byte list"
  e_size :: int

definition nr_rlc_pdu_encoder_init :: "byte list \<Rightarrow> nr_rlc_pdu_encoder" where
  "nr_rlc_pdu_encoder_init buf =
     \<lparr>e_byte = 0, e_bit = 0, e_buffer = buf, e_size = int (length buf)\<rparr>"

definition put_bit :: "nr_rlc_pdu_encoder \<Rightarrow> int \<Rightarrow> nr_rlc_pdu_encoder res" where
  "put_bit e b =
     (if e_byte e = e_size e then Inl Exit_fatal
      else res_bind (c_index (e_buffer e) (e_byte e)) (\<lambda>v.
           let v1 = push_bit 1 v; v2 = (if b \<noteq> 0 then v1 OR 1 else v1) in
           res_bind (c_store (e_buffer e) (e_byte e) v2) (\<lambda>buf.
           let e1 = e\<lparr>e_buffer := buf, e_bit := e_bit e + 1\<rparr>
           in Inr (if e_bit e1 = 8 then e1\<lparr>e_bit := 0, e_byte := e_byte e1 + 1\<rparr> else e1))))"

fun put_bits_loop :: "nat \<Rightarrow> int \<Rightarrow> nr_rlc_pdu_encoder \<Rightarrow> nr_rlc_pdu_encoder res" where
  "put_bits_loop 0 value e = Inr e"
| "put_bits_loop (Suc n) value e =
     res_bind (put_bit e (value AND push_bit n 1)) (put_bits_loop n value)"

definition nr_rlc_pdu_encoder_put_bits ::
  "nr_rlc_pdu_encoder \<Rightarrow> int \<Rightarrow> int \<Rightarrow> nr_rlc_pdu_encoder res" where
  "nr_rlc_pdu_encoder_put_bits e value cnt =
     (if cnt > 31 then Inl Exit_fatal else put_bits_loop (nat cnt) value e)"

section \<open>The ordered list of received segments\<close>

lemma mset_pdu_list_add: "mset (nr_rlc_pdu_list_add cmp l p) = add_mset p (mset l)"
  by (induction l) auto

lemma set_pdu_list_add [simp]: "set (nr_rlc_pdu_list_add cmp l p) = insert p (set l)"
  by (induction l) auto

definition pdu_ordered :: "(int \<Rightarrow> int) \<Rightarrow> nr_rlc_pdu \<Rightarrow> nr_rlc_pdu \<Rightarrow> bool" where
  "pdu_ordered key p q \<longleftrightarrow>
     key (pdu_sn p) < key (pdu_sn q) \<or> (pdu_sn p = pdu_sn q \<and> pdu_so p \<le> pdu_so q)"

text \<open>
  Insertion keeps the list ordered by sequence number (counted from the base of the
  comparison) and segment offset.
\<close>

lemma sorted_pdu_list_add:
  assumes "sorted_wrt (pdu_ordered key) l" and "inj_on key (insert (pdu_sn p) (pdu_sn ` set l))"
  shows "sorted_wrt (pdu_ordered key) (nr_rlc_pdu_list_add (\<lambda>a b. key a - key b) l p)"
  using assms
proof (induction l)
  case Nil
  then show ?case by simp
next
  case (Cons c l)
  let ?before = "key (pdu_sn c) - key (pdu_sn p) > 0 \<or> (pdu_sn c = pdu_sn p \<and> pdu_so c > pdu_so p)"
  show ?case
  proof (cases ?before)
    case True
    then have "pdu_ordered key p c" by (auto simp: pdu_ordered_def)
    moreover have "pdu_ordered key p q" if "q \<in> set l" for q
      using True Cons.prems that by (fastforce simp: pdu_ordered_def)
    ultimately show ?thesis using True Cons.prems by auto
  next
    case False
    have "key (pdu_sn c) < key (pdu_sn p) \<or> pdu_sn c = pdu_sn p"
      using False Cons.prems(2) by (auto simp: inj_on_def)
    with False have "pdu_ordered key c p" by (auto simp: pdu_ordered_def)
    moreover have "inj_on key (insert (pdu_sn p) (pdu_sn ` set l))"
      using Cons.prems(2) by (rule inj_on_subset) auto
    ultimately show ?thesis using False Cons.prems Cons.IH by auto
  qed
qed

section \<open>Buffers as bit sequences\<close>

fun to_bits :: "nat \<Rightarrow> int \<Rightarrow> bool list" where
  "to_bits 0 v = []"
| "to_bits (Suc n) v = bit v n # to_bits n v"

definition of_bits :: "int \<Rightarrow> bool list \<Rightarrow> int" where
  "of_bits = foldl (\<lambda>acc b. 2 * acc + of_bool b)"

definition byte_bits :: "byte \<Rightarrow> bool list" where
  "byte_bits w = map (bit w) [7, 6, 5, 4, 3, 2, 1, 0]"

definition buf_bits :: "byte list \<Rightarrow> bool list" where
  "buf_bits bs = concat (map byte_bits bs)"

lemma length_to_bits [simp]: "length (to_bits n v) = n"
  by (induction n) auto

lemma length_byte_bits [simp]: "length (byte_bits w) = 8"
  by (simp add: byte_bits_def)

lemma length_buf_bits [simp]: "length (buf_bits bs) = 8 * length bs"
  by (induction bs) (auto simp: buf_bits_def)

lemma of_bits_simps [simp]:
  "of_bits acc [] = acc" "of_bits acc (b # bs) = of_bits (2 * acc + of_bool b) bs"
  by (simp_all add: of_bits_def)

lemma to_bits_of_bits:
  "to_bits (length bs) (of_bits acc bs) = bs \<and> drop_bit (length bs) (of_bits acc bs) = acc"
proof (induction bs arbitrary: acc)
  case Nil
  then show ?case by simp
next
  case (Cons b bs)
  let ?v = "of_bits (2 * acc + of_bool b) bs"
  note IH = Cons.IH [of "2 * acc + of_bool b"]
  have "bit ?v (length bs) = bit (drop_bit (length bs) ?v) 0" by (simp add: bit_drop_bit_eq)
  then have top: "bit ?v (length bs) = b" using IH by (simp add: bit_0)
  have "drop_bit (Suc (length bs)) ?v = drop_bit 1 (drop_bit (length bs) ?v)"
    by (simp only: drop_bit_drop_bit plus_1_eq_Suc)
  also have "\<dots> = drop_bit 1 (2 * acc + of_bool b)" by (simp only: IH)
  also have "\<dots> = acc" by (simp add: drop_bit_eq_div)
  finally show ?case using IH top by simp
qed

lemma take_bit_Suc_top: "take_bit (Suc n) v = of_bool (bit v n) * 2 ^ n + take_bit n v" for v :: int
  by (simp add: take_bit_Suc_from_most)

lemma of_bits_to_bits: "of_bits acc (to_bits n v) = acc * 2 ^ n + take_bit n v"
  by (induction n arbitrary: acc) (simp_all add: take_bit_Suc_top algebra_simps)

corollary of_bits_to_bits_0 [simp]: "of_bits 0 (to_bits n v) = take_bit n v"
  by (simp add: of_bits_to_bits)

lemma to_bits_add: "to_bits (m + n) v = to_bits m (drop_bit n v) @ to_bits n v"
  by (induction m) (auto simp: bit_drop_bit_eq ac_simps)

lemma buf_bits_Nil [simp]: "buf_bits [] = []"
  and buf_bits_Cons [simp]: "buf_bits (w # ws) = byte_bits w @ buf_bits ws"
  and buf_bits_append [simp]: "buf_bits (xs @ ys) = buf_bits xs @ buf_bits ys"
  by (simp_all add: buf_bits_def)

lemma byte_bits_nth: "i < 8 \<Longrightarrow> byte_bits w ! i = bit w (7 - i)"
  by (cases i) (auto simp: byte_bits_def nth_Cons' numeral_eq_Suc less_Suc_eq)

lemma byte_bits_inject: "byte_bits v = byte_bits w \<longleftrightarrow> v = w"
proof
  assume eq: "byte_bits v = byte_bits w"
  show "v = w"
  proof (rule bit_word_eqI)
    fix n assume "n < LENGTH(8)"
    then have n: "n \<le> 7" "7 - n < 8" by simp_all
    then have "byte_bits v ! (7 - n) = byte_bits w ! (7 - n)" using eq by simp
    with n show "bit v n = bit w n" by (simp add: byte_bits_nth)
  qed
qed simp

lemma buf_bits_inject: "length xs = length ys \<Longrightarrow> buf_bits xs = buf_bits ys \<longleftrightarrow> xs = ys"
  by (induction xs ys rule: list_induct2) (auto simp: byte_bits_inject)

lemma buf_bits_nth:
  "i < 8 * length bs \<Longrightarrow> buf_bits bs ! i = bit (bs ! (i div 8)) (7 - i mod 8)"
proof (induction bs arbitrary: i)
  case Nil
  then show ?case by simp
next
  case (Cons w bs)
  show ?case
  proof (cases "i < 8")
    case True
    then show ?thesis by (simp add: nth_append byte_bits_nth)
  next
    case False
    then obtain j where j: "i = j + 8" by (metis add.commute le_Suc_ex not_less)
    moreover have "(j + 8) div 8 = Suc (j div 8)" by simp
    ultimately show ?thesis using Cons by (simp add: nth_append)
  qed
qed

section \<open>The decoder reads the bit sequence\<close>

text \<open>\<open>dec_at buf p\<close> is the decoder that has consumed the first \<open>p\<close> bits of \<open>buf\<close>.\<close>

definition dec_at :: "byte list \<Rightarrow> nat \<Rightarrow> nr_rlc_pdu_decoder" where
  "dec_at buf p = \<lparr>d_error = False, d_byte = int (p div 8), d_bit = int (p mod 8),
                   d_buffer = buf, d_size = int (length buf)\<rparr>"

lemma dec_at_sel [simp]:
  "d_error (dec_at buf p) = False" "d_byte (dec_at buf p) = int (p div 8)"
  "d_buffer (dec_at buf p) = buf" "d_size (dec_at buf p) = int (length buf)"
  by (simp_all add: dec_at_def)

lemma decoder_init_at: "nr_rlc_pdu_decoder_init buf = dec_at buf 0"
  by (simp add: nr_rlc_pdu_decoder_init_def dec_at_def)

lemma byte_shift_bit: "k < 8 \<Longrightarrow> drop_bit k (sint w) AND 1 = of_bool (bit w k)" for w :: byte
  by (simp add: and_one_eq mod_2_eq_odd bit_sint_iff flip: bit_iff_odd_drop_bit)

lemma get_bit_at:
  assumes "p < 8 * length buf"
  shows "get_bit (dec_at buf p) = (of_bool (buf_bits buf ! p), dec_at buf (Suc p))"
proof -
  have k: "7 - p mod 8 < 8" by (rule le_less_trans [OF diff_le_self]) simp
  have "nat (7 - int (p mod 8)) = 7 - p mod 8" by simp
  moreover have "Suc p div 8 = (if p mod 8 = 7 then Suc (p div 8) else p div 8)"
      "Suc p mod 8 = (if p mod 8 = 7 then 0 else Suc (p mod 8))"
    by (simp_all add: div_Suc mod_Suc)
  moreover have "p div 8 < length buf" using assms by simp
  ultimately show ?thesis
    using assms byte_shift_bit [of "7 - p mod 8" "buf ! (p div 8)", OF k]
    by (auto simp: get_bit_def dec_at_def Let_def buf_bits_nth)
qed

lemma get_bit_end: "get_bit (dec_at buf (8 * length buf)) = (0, (dec_at buf (8 * length buf))\<lparr>d_error := True\<rparr>)"
  by (simp add: get_bit_def dec_at_def)

lemma push_or_bit: "push_bit 1 v OR of_bool b = 2 * v + of_bool b" for v :: int
  by (simp add: or_one_eq push_bit_eq_mult split: if_splits)

lemma get_bits_loop_at:
  "p + n \<le> 8 * length buf \<Longrightarrow>
   get_bits_loop n acc (dec_at buf p)
     = (of_bits acc (take n (drop p (buf_bits buf))), dec_at buf (p + n))"
proof (induction n arbitrary: acc p)
  case 0
  then show ?case by simp
next
  case (Suc n)
  then have p: "p < 8 * length buf" by simp
  then have "drop p (buf_bits buf) = buf_bits buf ! p # drop (Suc p) (buf_bits buf)"
    by (simp add: Cons_nth_drop_Suc)
  moreover have "get_bits_loop (Suc n) acc (dec_at buf p)
      = get_bits_loop n (2 * acc + of_bool (buf_bits buf ! p)) (dec_at buf (Suc p))"
    by (simp only: get_bits_loop.simps get_bit_at [OF p] Let_def prod.case dec_at_sel if_False
        push_or_bit)
  ultimately show ?case using Suc by simp
qed

lemma get_bits_loop_short:
  "p \<le> 8 * length buf \<Longrightarrow> p + n > 8 * length buf \<Longrightarrow>
   get_bits_loop n acc (dec_at buf p)
     = (-1, (dec_at buf (8 * length buf))\<lparr>d_error := True\<rparr>)"
proof (induction n arbitrary: acc p)
  case 0
  then show ?case by simp
next
  case (Suc n)
  show ?case
  proof (cases "p = 8 * length buf")
    case True
    then show ?thesis by (simp add: get_bit_end)
  next
    case False
    with Suc show ?thesis by (simp add: get_bit_at)
  qed
qed

lemma get_bits_at:
  "p + nat n \<le> 8 * length buf \<Longrightarrow> n \<le> 31 \<Longrightarrow>
   nr_rlc_pdu_decoder_get_bits (dec_at buf p) n
     = Inr (of_bits 0 (take (nat n) (drop p (buf_bits buf))), dec_at buf (p + nat n))"
  by (simp add: nr_rlc_pdu_decoder_get_bits_def get_bits_loop_at)

lemma get_bits_short:
  "p \<le> 8 * length buf \<Longrightarrow> p + nat n > 8 * length buf \<Longrightarrow> n \<le> 31 \<Longrightarrow>
   nr_rlc_pdu_decoder_get_bits (dec_at buf p) n
     = Inr (-1, (dec_at buf (8 * length buf))\<lparr>d_error := True\<rparr>)"
  by (simp add: nr_rlc_pdu_decoder_get_bits_def get_bits_loop_short)

lemma of_bits_bounds: "0 \<le> acc \<Longrightarrow> 0 \<le> of_bits acc bs \<and> of_bits acc bs < (acc + 1) * 2 ^ length bs"
proof (induction bs arbitrary: acc)
  case Nil
  then show ?case by simp
next
  case (Cons b bs)
  have "of_bits (2 * acc + of_bool b) bs < (2 * acc + of_bool b + 1) * 2 ^ length bs"
    and "0 \<le> of_bits (2 * acc + of_bool b) bs"
    using Cons.IH [of "2 * acc + of_bool b"] Cons.prems by auto
  moreover have "(2 * acc + of_bool b + 1) * 2 ^ length bs \<le> (acc + 1) * 2 ^ length (b # bs)"
    by (simp add: algebra_simps)
  ultimately show ?case unfolding of_bits_simps by linarith
qed

text \<open>A decoded field is in the range of its width.\<close>

lemma of_bits_range:
  assumes "length bs \<le> n" shows "0 \<le> of_bits 0 bs" "of_bits 0 bs < 2 ^ n"
proof -
  have "(2 :: int) ^ length bs \<le> 2 ^ n" using assms by (simp add: power_increasing)
  moreover have "0 \<le> of_bits 0 bs" "of_bits 0 bs < 2 ^ length bs"
    using of_bits_bounds [of 0 bs] by simp_all
  ultimately show "0 \<le> of_bits 0 bs" "of_bits 0 bs < 2 ^ n"
    by (blast intro: order.strict_trans2)+
qed

section \<open>The encoder extends the bit sequence\<close>

text \<open>
  \<open>enc_rel orig e bs\<close>: starting on the buffer \<open>orig\<close>, the encoder \<open>e\<close> has written exactly
  the bits \<open>bs\<close>. The bits of an unfinished byte sit in its low end, since each \<open>put_bit\<close>
  shifts the byte up by one; bytes not reached yet are those of \<open>orig\<close>.
\<close>

definition enc_rel :: "byte list \<Rightarrow> nr_rlc_pdu_encoder \<Rightarrow> bool list \<Rightarrow> bool" where
  "enc_rel orig e bs \<longleftrightarrow>
     (let p = length bs; n = p div 8; k = p mod 8 in
      p \<le> 8 * length orig \<and> e_byte e = int n \<and> e_bit e = int k
      \<and> e_size e = int (length orig) \<and> length (e_buffer e) = length orig
      \<and> buf_bits (take n (e_buffer e)) = take (8 * n) bs
      \<and> (0 < k \<longrightarrow> drop (8 - k) (byte_bits (e_buffer e ! n)) = drop (8 * n) bs)
      \<and> drop (if 0 < k then Suc n else n) (e_buffer e) = drop (if 0 < k then Suc n else n) orig)"

lemma get_bits_cases:
  assumes "p \<le> 8 * length buf" "n \<le> 31"
  obtains (bits) v where "nr_rlc_pdu_decoder_get_bits (dec_at buf p) n = Inr (v, dec_at buf (p + nat n))"
      "p + nat n \<le> 8 * length buf" "0 \<le> v" "v < 2 ^ nat n"
    | (short) d where "nr_rlc_pdu_decoder_get_bits (dec_at buf p) n = Inr (-1, d)" "d_error d"
proof (cases "p + nat n \<le> 8 * length buf")
  case True
  then show ?thesis
    using bits assms of_bits_range [of "take (nat n) (drop p (buf_bits buf))" "nat n"]
    by (simp add: get_bits_at)
next
  case False
  then show ?thesis using short assms by (simp add: get_bits_short)
qed

lemma enc_rel_init: "enc_rel buf (nr_rlc_pdu_encoder_init buf) []"
  by (simp add: enc_rel_def nr_rlc_pdu_encoder_init_def)

lemma byte_bits_shift: "byte_bits (push_bit 1 w) = drop 1 (byte_bits w) @ [False]"
  unfolding byte_bits_def list.map bit_push_bit_iff by simp

lemma byte_bits_shift_or: "byte_bits (push_bit 1 w OR 1) = drop 1 (byte_bits w) @ [True]"
  unfolding byte_bits_def list.map bit_or_iff bit_push_bit_iff bit_1_iff by simp

lemma enc_relD:
  assumes "enc_rel orig e bs"
  defines "n \<equiv> length bs div 8"
  shows "e_byte e = int n" "e_bit e = int (length bs mod 8)" "e_size e = int (length orig)"
    "length (e_buffer e) = length orig" "buf_bits (take n (e_buffer e)) = take (8 * n) bs"
    "drop (8 - length bs mod 8) (byte_bits (e_buffer e ! n)) = drop (8 * n) bs"
    "drop (Suc n) (e_buffer e) = drop (Suc n) orig"
proof -
  show "drop (8 - length bs mod 8) (byte_bits (e_buffer e ! n)) = drop (8 * n) bs"
  proof (cases "length bs mod 8 = 0")
    case True
    then have "8 * n = length bs" using mult_div_mod_eq [of 8 "length bs"] by (simp add: n_def)
    with True show ?thesis by simp
  next
    case False
    with assms show ?thesis by (auto simp: enc_rel_def Let_def)
  qed
  have d: "drop m xs = drop m ys \<Longrightarrow> drop (Suc m) xs = drop (Suc m) ys" for m and xs ys :: "byte list"
    by (metis drop_Suc drop_tl)
  let ?m = "if 0 < length bs mod 8 then Suc n else n"
  have "drop ?m (e_buffer e) = drop ?m orig" using assms by (simp only: enc_rel_def Let_def)
  then show "drop (Suc n) (e_buffer e) = drop (Suc n) orig"
    using d [of n "e_buffer e" orig] by (auto simp only: split: if_splits)
qed (use assms in \<open>auto simp: enc_rel_def Let_def\<close>)

lemma put_bit_enc_rel:
  assumes rel: "enc_rel orig e bs" and room: "length bs < 8 * length orig"
  shows "\<exists>e'. put_bit e b = Inr e' \<and> enc_rel orig e' (bs @ [b \<noteq> 0])"
proof -
  let ?p = "length bs" let ?n = "?p div 8" let ?k = "?p mod 8" let ?buf = "e_buffer e"
  let ?v = "if b \<noteq> 0 then push_bit 1 (?buf ! ?n) OR 1 else push_bit 1 (?buf ! ?n)"
  let ?e' = "e\<lparr>e_buffer := ?buf[?n := ?v], e_bit := if ?k = 7 then 0 else int ?k + 1,
               e_byte := if ?k = 7 then int ?n + 1 else int ?n\<rparr>"
  note st = enc_relD [OF rel]
  have n: "?n < length orig" using room by simp
  have k8: "?k < 8" by simp
  have "put_bit e b = Inr ?e'"
    using n by (auto simp: put_bit_def st c_index_def c_store_def Let_def)
  moreover have vb: "drop (8 - Suc ?k) (byte_bits ?v) = drop (8 * ?n) bs @ [b \<noteq> 0]"
  proof -
    have "byte_bits ?v = drop 1 (byte_bits (?buf ! ?n)) @ [b \<noteq> 0]"
      by (simp only: byte_bits_shift byte_bits_shift_or split: if_split) simp
    moreover have "8 - ?k = Suc (7 - ?k)" using k8 by simp
    ultimately show ?thesis using st(6) by simp
  qed
  moreover have "enc_rel orig ?e' (bs @ [b \<noteq> 0])"
  proof (cases "?k = 7")
    case True
    then have p: "?p = 8 * ?n + 7" using mult_div_mod_eq [of 8 ?p] by simp
    have div: "Suc ?p div 8 = Suc ?n" "Suc ?p mod 8 = 0" using True by (simp_all add: div_Suc mod_Suc)
    have "buf_bits (take (Suc ?n) (?buf[?n := ?v])) = bs @ [b \<noteq> 0]"
      using st(5) vb True n st(4)
      by (simp add: take_Suc_conv_app_nth)
    then show ?thesis
      using True div n st room p by (simp add: enc_rel_def Let_def)
  next
    case False
    then have div: "Suc ?p div 8 = ?n" "Suc ?p mod 8 = Suc ?k" by (auto simp: div_Suc mod_Suc)
    then show ?thesis
      using False n st room vb by (simp add: enc_rel_def Let_def)
  qed
  ultimately show ?thesis by blast
qed

lemma put_bits_enc_rel:
  assumes "enc_rel orig e bs" "length bs + nat n \<le> 8 * length orig" "n \<le> 31"
  shows "\<exists>e'. nr_rlc_pdu_encoder_put_bits e v n = Inr e' \<and> enc_rel orig e' (bs @ to_bits (nat n) v)"
proof -
  have "\<exists>e'. put_bits_loop m v e = Inr e' \<and> enc_rel orig e' (bs @ to_bits m v)"
    if "enc_rel orig e bs" "length bs + m \<le> 8 * length orig" for m e bs
    using that
  proof (induction m arbitrary: e bs)
    case 0
    then show ?case by simp
  next
    case (Suc m)
    have b: "(v AND push_bit m 1 \<noteq> 0) = bit v m"
      by (metis and_exp_eq_0_iff_not_bit push_bit_of_1)
    obtain e1 where e1: "put_bit e (v AND push_bit m 1) = Inr e1" "enc_rel orig e1 (bs @ [bit v m])"
      using put_bit_enc_rel [OF Suc.prems(1), of "v AND push_bit m 1"] Suc.prems(2) unfolding b by auto
    then show ?case using Suc.IH [OF e1(2)] Suc.prems(2) by simp
  qed
  from this [OF assms(1,2)] assms(3) show ?thesis by (simp add: nr_rlc_pdu_encoder_put_bits_def)
qed

text \<open>A whole number of bytes written: the buffer starts with exactly these bits.\<close>

lemma enc_rel_aligned:
  assumes "enc_rel orig e bs" "length bs = 8 * n"
  shows "e_byte e = int n" "e_bit e = 0" "length (e_buffer e) = length orig" "n \<le> length orig"
    "buf_bits (take n (e_buffer e)) = bs" "drop n (e_buffer e) = drop n orig"
  using assms by (auto simp: enc_rel_def Let_def)

section \<open>Sequences of header fields\<close>

text \<open>A header is a sequence of \<open>put_bits\<close> calls, read back by a sequence of \<open>get_bits\<close> calls.\<close>

fun put_fields :: "nr_rlc_pdu_encoder \<Rightarrow> (int \<times> int) list \<Rightarrow> nr_rlc_pdu_encoder res" where
  "put_fields e [] = Inr e"
| "put_fields e ((v, n) # fs) =
     res_bind (nr_rlc_pdu_encoder_put_bits e v n) (\<lambda>e. put_fields e fs)"

fun get_fields :: "nr_rlc_pdu_decoder \<Rightarrow> int list \<Rightarrow> (int list \<times> nr_rlc_pdu_decoder) res" where
  "get_fields d [] = Inr ([], d)"
| "get_fields d (n # ns) =
     res_bind (nr_rlc_pdu_decoder_get_bits d n) (\<lambda>(v, d).
     res_bind (get_fields d ns) (\<lambda>(vs, d). Inr (v # vs, d)))"

definition field_bits :: "(int \<times> int) list \<Rightarrow> bool list" where
  "field_bits fs = concat (map (\<lambda>(v, n). to_bits (nat n) v) fs)"

lemma field_bits_simps [simp]:
  "field_bits [] = []" "field_bits ((v, n) # fs) = to_bits (nat n) v @ field_bits fs"
  by (simp_all add: field_bits_def)

lemma length_field_bits: "length (field_bits fs) = (\<Sum>(v, n)\<leftarrow>fs. nat n)"
  by (induction fs) auto

lemma put_fields_enc_rel:
  assumes "enc_rel orig e bs" "length bs + length (field_bits fs) \<le> 8 * length orig"
    and "\<forall>(v, n) \<in> set fs. n \<le> 31"
  shows "\<exists>e'. put_fields e fs = Inr e' \<and> enc_rel orig e' (bs @ field_bits fs)"
  using assms
proof (induction fs arbitrary: e bs)
  case Nil
  then show ?case by simp
next
  case (Cons f fs)
  obtain v n where f: "f = (v, n)" by fastforce
  with Cons.prems obtain e1 where e1: "nr_rlc_pdu_encoder_put_bits e v n = Inr e1"
      "enc_rel orig e1 (bs @ to_bits (nat n) v)"
    using put_bits_enc_rel [OF Cons.prems(1), of n v] by auto
  then show ?case using Cons.IH [OF e1(2)] Cons.prems f by auto
qed

lemma get_fields_at:
  assumes "drop p (buf_bits buf) = field_bits fs @ rest" "p \<le> 8 * length buf"
    and "\<forall>(v, n) \<in> set fs. n \<le> 31"
  shows "get_fields (dec_at buf p) (map snd fs)
           = Inr (map (\<lambda>(v, n). take_bit (nat n) v) fs, dec_at buf (p + length (field_bits fs)))"
  using assms
proof (induction fs arbitrary: p)
  case Nil
  then show ?case by simp
next
  case (Cons f fs)
  obtain v n where f: "f = (v, n)" by fastforce
  have len: "length (drop p (buf_bits buf)) = length (field_bits (f # fs) @ rest)"
    using Cons.prems(1) by simp
  then have fit: "p + nat n \<le> 8 * length buf" using Cons.prems(2) f by simp
  have "drop (p + nat n) (buf_bits buf) = drop (nat n) (drop p (buf_bits buf))"
    by (simp add: ac_simps)
  also have "\<dots> = field_bits fs @ rest" using Cons.prems(1) f by simp
  finally show ?case
    using Cons.IH [of "p + nat n"] Cons.prems fit f by (simp add: get_bits_at ac_simps)
qed

text \<open>The bytes of a header, and the reading of its next field.\<close>

lemma put_fields_bytes:
  assumes "\<forall>(v, n) \<in> set fs. n \<le> 31" "length (field_bits fs) = 8 * k" "k \<le> length buf"
  obtains e hdr where "put_fields (nr_rlc_pdu_encoder_init buf) fs = Inr e" "e_byte e = int k" "e_bit e = 0"
    "e_buffer e = hdr @ drop k buf" "length hdr = k" "buf_bits hdr = field_bits fs"
proof -
  obtain e where e: "put_fields (nr_rlc_pdu_encoder_init buf) fs = Inr e" "enc_rel buf e (field_bits fs)"
    using put_fields_enc_rel [OF enc_rel_init, of fs buf] assms by auto
  note al = enc_rel_aligned [OF e(2) assms(2)]
  have "e_buffer e = take k (e_buffer e) @ drop k buf" using al(6) by (metis append_take_drop_id)
  then show ?thesis using that [OF e(1) al(1,2), of "take k (e_buffer e)"] al(3-5) by simp
qed

lemma get_bits_field:
  assumes "drop p (buf_bits buf) = to_bits (nat n) v @ rest" "p \<le> 8 * length buf" "n \<le> 31"
  shows "nr_rlc_pdu_decoder_get_bits (dec_at buf p) n = Inr (take_bit (nat n) v, dec_at buf (p + nat n))"
proof -
  have "length (drop p (buf_bits buf)) = nat n + length rest" using assms(1) by simp
  then have "p + nat n \<le> 8 * length buf" using assms(2) by simp
  then show ?thesis using assms by (simp add: get_bits_at)
qed

text \<open>
  (C21) Header round trip: any sequence of header fields of at most 31 bits that fills a whole
  number of bytes and fits the buffer is written without a fault, leaves the rest of the buffer
  alone, and the decoder reads from these bytes every field value truncated to its width.
\<close>

theorem rlc_header_roundtrip:
  assumes "\<forall>(v, n) \<in> set fs. n \<le> 31" "(\<Sum>(v, n)\<leftarrow>fs. nat n) = 8 * k" "k \<le> length buf"
  shows "\<exists>e. put_fields (nr_rlc_pdu_encoder_init buf) fs = Inr e
           \<and> e_byte e = int k \<and> e_bit e = 0 \<and> drop k (e_buffer e) = drop k buf
           \<and> get_fields (nr_rlc_pdu_decoder_init (e_buffer e)) (map snd fs)
             = Inr (map (\<lambda>(v, n). take_bit (nat n) v) fs, dec_at (e_buffer e) (8 * k))"
proof -
  obtain e hdr where e: "put_fields (nr_rlc_pdu_encoder_init buf) fs = Inr e" "e_byte e = int k" "e_bit e = 0"
      "e_buffer e = hdr @ drop k buf" "length hdr = k" "buf_bits hdr = field_bits fs"
    using put_fields_bytes [OF assms(1) _ assms(3)] assms(2) by (auto simp: length_field_bits)
  have "drop 0 (buf_bits (e_buffer e)) = field_bits fs @ buf_bits (drop k buf)" using e(4,6) by simp
  from get_fields_at [OF this _ assms(1)] e assms(2) show ?thesis
    by (auto simp: decoder_init_at length_field_bits)
qed

theorem rlc_header_roundtrip_witness:
  "\<exists>e. put_fields (nr_rlc_pdu_encoder_init [255, 255, 7]) [(1, 1), (0, 1), (2, 2), (300, 12)] = Inr e
     \<and> e_byte e = int 2 \<and> e_bit e = 0 \<and> drop 2 (e_buffer e) = [7]
     \<and> get_fields (nr_rlc_pdu_decoder_init (e_buffer e)) [1, 1, 2, 12]
       = Inr ([1, 0, 2, 300], dec_at (e_buffer e) 16)"
  using rlc_header_roundtrip [of "[(1, 1), (0, 1), (2, 2), (300, 12)]" 2 "[255, 255, 7]"]
  by (simp add: take_bit_eq_mod)

text \<open>
  (C22) Decoder safety: from any position inside a buffer, a read of at most 31 bits either
  returns the value of exactly the next bits, in the range of the width, and advances past
  them, or, when fewer bits are left, returns -1 and raises the error flag; it never moves
  beyond the end of the buffer.
\<close>

theorem rlc_decoder_safe:
  assumes "p \<le> 8 * length buf" "0 \<le> n" "n \<le> 31"
  shows "\<exists>v d. nr_rlc_pdu_decoder_get_bits (dec_at buf p) n = Inr (v, d)
     \<and> (if p + nat n \<le> 8 * length buf
        then \<not> d_error d \<and> d = dec_at buf (p + nat n) \<and> 0 \<le> v \<and> v < 2 ^ nat n
             \<and> to_bits (nat n) v = take (nat n) (drop p (buf_bits buf))
        else d_error d \<and> v = -1 \<and> d_byte d = d_size d)"
proof (cases "p + nat n \<le> 8 * length buf")
  case True
  let ?bs = "take (nat n) (drop p (buf_bits buf))"
  have len: "length ?bs = nat n" using True by simp
  from to_bits_of_bits [of ?bs 0] len have "to_bits (nat n) (of_bits 0 ?bs) = ?bs" by metis
  with True assms of_bits_range [of ?bs "nat n"] show ?thesis
    by (simp add: get_bits_at)
next
  case False
  with assms show ?thesis by (simp add: get_bits_short)
qed

theorem rlc_decoder_safe_witness:
  "\<exists>v d. nr_rlc_pdu_decoder_get_bits (dec_at [165, 60] 4) 8 = Inr (v, d)
     \<and> \<not> d_error d \<and> d = dec_at [165, 60] 12 \<and> 0 \<le> v \<and> v < 2 ^ nat 8
     \<and> to_bits (nat 8) v = take (nat 8) (drop 4 (buf_bits [165, 60]))"
  using rlc_decoder_safe [of 4 "[165, 60]" 8] by simp

end
