(* ===== verification/SDAP_Filter.thy ===== *)
theory SDAP_Filter
  imports RLC_Pdu
begin

text \<open>
  Packet filters and QoS rules of the uplink (\<open>5g_packet_filter.h\<close>, \<open>nr_sdap_qos_rule.c\<close>): a rule
  has a precedence, a QoS flow and a list of filters; a filter is a conjunction of components
  that look at the addresses, ports and protocol of an IP packet. The packet comes from the
  user's applications and is read with checked accesses. The lemmas show that matching stays
  inside the packet, that the IPv6 comparison compares exactly the prefix, bit by bit, and that
  a list of rules sorted by precedence gives a packet to the matching rule that comes first.
\<close>

section \<open>Filters\<close>

type_synonym u16 = "16 word"

datatype packet_filter_component =
    PF_MATCH_ALL
  | PF_IPV4_REMOTE_ADDR u32 u32
  | PF_IPV4_LOCAL_ADDR u32 u32
  | PF_IPV6_REMOTE_ADDR_PREFIX "byte list" byte
  | PF_IPV6_LOCAL_ADDR_PREFIX "byte list" byte
  | PF_PROTOCOL_ID_NEXT_HDR byte
  | PF_SINGLE_LOCAL_PORT u16
  | PF_LOCAL_PORT_RANGE u16 u16
  | PF_SINGLE_REMOTE_PORT u16
  | PF_REMOTE_PORT_RANGE u16 u16
  | PF_OTHER byte

record packet_filter =
  pf_id :: byte
  pf_direction :: byte
  components :: "packet_filter_component list"

definition PF_DIR_DOWNLINK :: byte where
  "PF_DIR_DOWNLINK = 1"

definition PF_DIR_UPLINK :: byte where
  "PF_DIR_UPLINK = 2"

definition PF_DIR_BIDIRECTIONAL :: byte where
  "PF_DIR_BIDIRECTIONAL = 3"

definition IPPROTO_TCP :: byte where
  "IPPROTO_TCP = 6"

definition IPPROTO_UDP :: byte where
  "IPPROTO_UDP = 17"

text \<open>\<open>in_addr\<close> in memory, and \<open>ntohs\<close> of two bytes.\<close>

definition get_in_addr :: "byte list \<Rightarrow> int \<Rightarrow> u32 res" where
  "get_in_addr p off =
     res_bind (c_slice p off 4) (\<lambda>bs.
     Inr (foldr (\<lambda>b acc. ucast b OR push_bit 8 acc) bs 0))"

definition get_port :: "byte list \<Rightarrow> int \<Rightarrow> u16 res" where
  "get_port p off =
     res_bind (c_index p off) (\<lambda>hi. res_bind (c_index p (off + 1)) (\<lambda>lo.
     Inr (push_bit 8 (ucast hi) OR ucast lo)))"

definition ipv4_match :: "u32 \<Rightarrow> u32 \<Rightarrow> u32 \<Rightarrow> bool" where
  "ipv4_match pkt_addr filter_addr m \<longleftrightarrow> pkt_addr AND m = filter_addr AND m"

definition ipv6_match :: "byte list \<Rightarrow> byte list \<Rightarrow> byte \<Rightarrow> bool res" where
  "ipv6_match pkt_addr filter_addr prefix_len =
     (let bytes = uint prefix_len div 8; bits = nat (uint prefix_len mod 8)
      in res_bind (c_slice pkt_addr 0 bytes) (\<lambda>a. res_bind (c_slice filter_addr 0 bytes) (\<lambda>b.
         if a \<noteq> b then Inr False
         else if bits = 0 then Inr True
         else let m = push_bit (8 - bits) 0xFF :: byte
              in res_bind (c_index pkt_addr bytes) (\<lambda>x. res_bind (c_index filter_addr bytes) (\<lambda>y.
                 Inr (x AND m = y AND m))))))"

section \<open>Matching a packet\<close>

text \<open>
  The pointers \<open>ip4\<close>, \<open>ip6\<close> and \<open>transport_hdr\<close> after the header has been read: the version, the
  protocol and the offset of the transport header.
\<close>

datatype ip_version = IPv4 | IPv6

definition ip_header :: "byte list \<Rightarrow> (ip_version \<times> byte \<times> int) option res" where
  "ip_header pkt =
     res_bind (c_index pkt 0) (\<lambda>b0.
     let version = drop_bit 4 b0 AND 0x0F
     in if version = 4
        then let ihl = b0 AND 0x0F; header_len = uint ihl * 4
             in if ihl < 5 \<or> header_len > int (length pkt) then Inr None
                else res_bind (c_index pkt 9) (\<lambda>protocol. Inr (Some (IPv4, protocol, header_len)))
        else if version = 6
        then if int (length pkt) < 40 then Inr None
             else res_bind (c_index pkt 6) (\<lambda>protocol. Inr (Some (IPv6, protocol, 40)))
        else Inr None)"

definition ports :: "byte list \<Rightarrow> byte \<Rightarrow> int \<Rightarrow> (u16 \<times> u16) res" where
  "ports pkt protocol off =
     (if (protocol = IPPROTO_TCP \<or> protocol = IPPROTO_UDP) \<and> off + 4 \<le> int (length pkt)
      then res_bind (get_port pkt off) (\<lambda>src. res_bind (get_port pkt (off + 2)) (\<lambda>dst. Inr (src, dst)))
      else Inr (0, 0))"

definition in_range :: "u16 \<Rightarrow> u16 \<Rightarrow> u16 \<Rightarrow> bool" where
  "in_range p lo hi \<longleftrightarrow> lo \<le> p \<and> p \<le> hi"

definition component_match ::
  "byte list \<Rightarrow> ip_version \<Rightarrow> byte \<Rightarrow> u16 \<Rightarrow> u16 \<Rightarrow> bool \<Rightarrow> packet_filter_component \<Rightarrow> bool res" where
  "component_match pkt version protocol src_port dst_port ul c =
     (let ip4_src = get_in_addr pkt 12; ip4_dst = get_in_addr pkt 16;
          ip6_src = c_slice pkt 8 16; ip6_dst = c_slice pkt 24 16
      in case c of
        PF_MATCH_ALL \<Rightarrow> Inr True
      | PF_IPV4_REMOTE_ADDR a m \<Rightarrow>
          if version = IPv4 then res_bind (if ul then ip4_dst else ip4_src) (\<lambda>p. Inr (ipv4_match p a m)) else Inr False
      | PF_IPV4_LOCAL_ADDR a m \<Rightarrow>
          if version = IPv4 then res_bind (if ul then ip4_src else ip4_dst) (\<lambda>p. Inr (ipv4_match p a m)) else Inr False
      | PF_IPV6_REMOTE_ADDR_PREFIX a n \<Rightarrow>
          if version = IPv6 then res_bind (if ul then ip6_dst else ip6_src) (\<lambda>p. ipv6_match p a n) else Inr False
      | PF_IPV6_LOCAL_ADDR_PREFIX a n \<Rightarrow>
          if version = IPv6 then res_bind (if ul then ip6_src else ip6_dst) (\<lambda>p. ipv6_match p a n) else Inr False
      | PF_PROTOCOL_ID_NEXT_HDR p \<Rightarrow> Inr (protocol = p)
      | PF_SINGLE_REMOTE_PORT p \<Rightarrow> Inr (if ul then dst_port = p else src_port = p)
      | PF_SINGLE_LOCAL_PORT p \<Rightarrow> Inr (if ul then src_port = p else dst_port = p)
      | PF_REMOTE_PORT_RANGE lo hi \<Rightarrow> Inr (if ul then in_range dst_port lo hi else in_range src_port lo hi)
      | PF_LOCAL_PORT_RANGE lo hi \<Rightarrow> Inr (if ul then in_range src_port lo hi else in_range dst_port lo hi)
      | PF_OTHER t \<Rightarrow> Inr False)"

fun components_match ::
  "byte list \<Rightarrow> ip_version \<Rightarrow> byte \<Rightarrow> u16 \<Rightarrow> u16 \<Rightarrow> bool \<Rightarrow> packet_filter_component list \<Rightarrow> bool res" where
  "components_match pkt version protocol src_port dst_port ul [] = Inr True"
| "components_match pkt version protocol src_port dst_port ul (c # l) =
     res_bind (component_match pkt version protocol src_port dst_port ul c) (\<lambda>ok.
     if ok then components_match pkt version protocol src_port dst_port ul l else Inr False)"

definition packet_filter_match :: "packet_filter \<Rightarrow> byte list \<Rightarrow> bool res" where
  "packet_filter_match pf pkt =
     (if components pf = [] \<or> length pkt < 20 then Inr False
      else res_bind (ip_header pkt) (\<lambda>hdr. case hdr of
             None \<Rightarrow> Inr False
           | Some (version, protocol, off) \<Rightarrow>
               res_bind (ports pkt protocol off) (\<lambda>(src_port, dst_port).
               components_match pkt version protocol src_port dst_port
                 (pf_direction pf = PF_DIR_UPLINK \<or> pf_direction pf = PF_DIR_BIDIRECTIONAL) (components pf))))"

section \<open>QoS rules\<close>

record nr_sdap_qos_rule =
  rule_qfi :: byte
  rule_id :: byte
  precedence :: byte
  is_default :: bool
  packet_filters :: "packet_filter list"

definition MAX_NUM_SDAP_QOS_RULES :: nat where
  "MAX_NUM_SDAP_QOS_RULES = 64"

fun filters_match :: "byte list \<Rightarrow> packet_filter list \<Rightarrow> bool res" where
  "filters_match pkt [] = Inr False"
| "filters_match pkt (pf # l) =
     (if pf_direction pf \<noteq> PF_DIR_UPLINK \<and> pf_direction pf \<noteq> PF_DIR_BIDIRECTIONAL then filters_match pkt l
      else res_bind (packet_filter_match pf pkt) (\<lambda>ok. if ok then Inr True else filters_match pkt l))"

text \<open>The loop of \<open>nr_sdap_match_ul_packet\<close>, which returns the flow of the first rule that matches.\<close>

fun rules_match :: "byte list \<Rightarrow> nr_sdap_qos_rule list \<Rightarrow> byte option res" where
  "rules_match pkt [] = Inr None"
| "rules_match pkt (r # l) =
     (if packet_filters r = [] \<or> is_default r then rules_match pkt l
      else res_bind (filters_match pkt (packet_filters r)) (\<lambda>ok.
           if ok then Inr (Some (rule_qfi r)) else rules_match pkt l))"

text \<open>\<open>find_if\<close> followed by \<open>seq_arr_erase\<close> of the element found.\<close>

fun erase_first :: "('a \<Rightarrow> bool) \<Rightarrow> 'a list \<Rightarrow> 'a list" where
  "erase_first P [] = []"
| "erase_first P (x # l) = (if P x then l else x # erase_first P l)"

fun update_first :: "('a \<Rightarrow> bool) \<Rightarrow> ('a \<Rightarrow> 'a) \<Rightarrow> 'a list \<Rightarrow> 'a list" where
  "update_first P f [] = []"
| "update_first P f (x # l) = (if P x then f x # l else x # update_first P f l)"

definition find_qos_rule :: "nr_sdap_qos_rule list \<Rightarrow> byte \<Rightarrow> nr_sdap_qos_rule option" where
  "find_qos_rule rules i = find (\<lambda>r. rule_id r = i) rules"

fun delete_filters :: "byte list \<Rightarrow> packet_filter list \<Rightarrow> packet_filter list" where
  "delete_filters [] l = l"
| "delete_filters (i # ids) l = delete_filters ids (erase_first (\<lambda>pf. pf_id pf = i) l)"

section \<open>The prefix of an IPv6 address\<close>

lemma byte_eq_iff: "x = y \<longleftrightarrow> (\<forall>k < 8. bit x k = bit y k)" for x y :: byte
  by (auto intro: bit_word_eqI)

lemma prefix_bits:
  assumes "n \<le> 8"
  shows "take n (byte_bits x) = take n (byte_bits y) \<longleftrightarrow> x AND push_bit (8 - n) 0xFF = y AND push_bit (8 - n) 0xFF"
proof -
  define M :: byte where "M = push_bit (8 - n) 0xFF"
  have "M = push_bit (8 - n) (mask 8)" by (simp add: M_def mask_eq_exp_minus_1)
  then have m: "bit M k \<longleftrightarrow> 8 - n \<le> k" if "k < 8" for k using that by (auto simp: bit_push_bit_iff bit_mask_iff)
  have "x AND M = y AND M \<longleftrightarrow> (\<forall>k < 8. (bit x k \<and> bit M k) = (bit y k \<and> bit M k))"
    by (subst byte_eq_iff) (simp add: bit_and_iff)
  also have "\<dots> \<longleftrightarrow> (\<forall>k < 8. 8 - n \<le> k \<longrightarrow> bit x k = bit y k)" using m by blast
  also have "\<dots> \<longleftrightarrow> (\<forall>i < n. bit x (7 - i) = bit y (7 - i))"
  proof
    assume a: "\<forall>k < 8. 8 - n \<le> k \<longrightarrow> bit x k = bit y k"
    then show "\<forall>i < n. bit x (7 - i) = bit y (7 - i)" using assms by auto
  next
    assume a: "\<forall>i < n. bit x (7 - i) = bit y (7 - i)"
    show "\<forall>k < 8. 8 - n \<le> k \<longrightarrow> bit x k = bit y k"
    proof (intro allI impI)
      fix k :: nat
      assume "k < 8" "8 - n \<le> k"
      then have "7 - k < n" "7 - (7 - k) = k" by simp_all
      then show "bit x k = bit y k" using a [rule_format, of "7 - k"] by simp
    qed
  qed
  also have "\<dots> \<longleftrightarrow> take n (byte_bits x) = take n (byte_bits y)"
    using assms by (auto simp: list_eq_iff_nth_eq byte_bits_nth)
  finally show ?thesis unfolding M_def by blast
qed

lemma take_buf_bits:
  assumes "k < length bs" "n < 8"
  shows "take (8 * k + n) (buf_bits bs) = buf_bits (take k bs) @ take n (byte_bits (bs ! k))"
proof -
  have "buf_bits bs = buf_bits (take k bs) @ byte_bits (bs ! k) @ buf_bits (drop (Suc k) bs)"
    by (subst id_take_nth_drop [OF assms(1)]) simp
  then show ?thesis using assms by simp
qed

lemma take_buf_bits_whole:
  assumes "k \<le> length bs"
  shows "take (8 * k) (buf_bits bs) = buf_bits (take k bs)"
proof -
  have "buf_bits bs = buf_bits (take k bs) @ buf_bits (drop k bs)" using buf_bits_append [of "take k bs" "drop k bs"] by simp
  then show ?thesis using assms by simp
qed

lemma ipv6_match_eq:
  assumes "length pkt_addr = 16" "length filter_addr = 16" "prefix_len \<le> 128"
  shows "ipv6_match pkt_addr filter_addr prefix_len
    = Inr (take (unat prefix_len) (buf_bits pkt_addr) = take (unat prefix_len) (buf_bits filter_addr))"
proof -
  define k where "k = unat prefix_len div 8"
  define n where "n = unat prefix_len mod 8"
  have len: "unat prefix_len = 8 * k + n" "n < 8" by (simp_all add: k_def n_def)
  have "unat prefix_len \<le> 128" using assms(3) by (simp add: word_le_nat_alt)
  then have k: "k \<le> 16" "n > 0 \<Longrightarrow> k < 16" using len by auto
  have "uint prefix_len = int (8 * k + n)" using len(1) by (metis uint_nat)
  then have i: "uint prefix_len div 8 = int k" "nat (uint prefix_len mod 8) = n" using len(2) by simp_all
  have slices: "c_slice pkt_addr 0 (int k) = Inr (take k pkt_addr)" "c_slice filter_addr 0 (int k) = Inr (take k filter_addr)"
    using k(1) assms(1,2) by (simp_all add: c_slice_def)
  have eq: "buf_bits (take k pkt_addr) = buf_bits (take k filter_addr) \<longleftrightarrow> take k pkt_addr = take k filter_addr"
    using assms(1,2) by (intro buf_bits_inject) simp
  show ?thesis
  proof (cases "n = 0")
    case True
    then show ?thesis using i slices eq len k(1) assms by (simp add: ipv6_match_def take_buf_bits_whole Let_def)
  next
    case False
    then have "k < 16" using k(2) by simp
    then have "c_index pkt_addr (int k) = Inr (pkt_addr ! k)" "c_index filter_addr (int k) = Inr (filter_addr ! k)"
      using assms(1,2) by (simp_all add: c_index_def)
    moreover have "take (8 * k + n) (buf_bits pkt_addr) = take (8 * k + n) (buf_bits filter_addr)
        \<longleftrightarrow> take k pkt_addr = take k filter_addr \<and> pkt_addr ! k AND push_bit (8 - n) 0xFF = filter_addr ! k AND push_bit (8 - n) 0xFF"
    proof -
      have "take (8 * k + n) (buf_bits pkt_addr) = take (8 * k + n) (buf_bits filter_addr)
          \<longleftrightarrow> buf_bits (take k pkt_addr) = buf_bits (take k filter_addr) \<and> take n (byte_bits (pkt_addr ! k)) = take n (byte_bits (filter_addr ! k))"
        using \<open>k < 16\<close> len(2) assms(1,2) by (simp only: take_buf_bits) simp
      then show ?thesis using eq prefix_bits [of n "pkt_addr ! k" "filter_addr ! k"] len(2) by (simp only: less_imp_le)
    qed
    ultimately show ?thesis using False i slices len(1) by (simp add: ipv6_match_def Let_def)
  qed
qed

text \<open>
  (C13) The IPv6 address match of a packet filter, which compares whole bytes with \<open>memcmp\<close> and the
  rest under a mask, is equivalent to the comparison of the first \<open>prefix_len\<close> bits of the two
  addresses, for every prefix length up to 128, and reads nothing outside the addresses.
\<close>

theorem ipv6_match_prefix:
  assumes "length pkt_addr = 16" "length filter_addr = 16" "prefix_len \<le> 128"
  shows "ipv6_match pkt_addr filter_addr prefix_len
    = Inr (take (unat prefix_len) (buf_bits pkt_addr) = take (unat prefix_len) (buf_bits filter_addr))"
  using assms by (rule ipv6_match_eq)

theorem ipv6_match_prefix_witness:
  "ipv6_match (32 # 1 # 13 # 191 # replicate 12 7) (32 # 1 # 13 # 128 # replicate 12 0) 26
     = Inr (take 26 (buf_bits (32 # 1 # 13 # 191 # replicate 12 7)) = take 26 (buf_bits (32 # 1 # 13 # 128 # replicate 12 0)))"
  using ipv6_match_prefix [of "32 # 1 # 13 # 191 # replicate 12 7" "32 # 1 # 13 # 128 # replicate 12 0" 26] by simp

section \<open>Matching stays inside the packet\<close>

fun component_ok :: "packet_filter_component \<Rightarrow> bool" where
  "component_ok (PF_IPV6_REMOTE_ADDR_PREFIX a n) = (length a = 16 \<and> n \<le> 128)"
| "component_ok (PF_IPV6_LOCAL_ADDR_PREFIX a n) = (length a = 16 \<and> n \<le> 128)"
| "component_ok _ = True"

definition filter_ok :: "packet_filter \<Rightarrow> bool" where
  "filter_ok pf \<longleftrightarrow> list_all component_ok (components pf)"

lemma ip_header_ok:
  assumes "20 \<le> length pkt"
  shows "\<exists>h. ip_header pkt = Inr h \<and> (\<forall>v p off. h = Some (v, p, off) \<longrightarrow> 0 \<le> off \<and> (v = IPv6 \<longrightarrow> 40 \<le> length pkt))"
  using assms by (auto simp: ip_header_def c_index_def Let_def)

lemma ports_ok: "0 \<le> off \<Longrightarrow> \<exists>src dst. ports pkt protocol off = Inr (src, dst)"
  by (auto simp: ports_def get_port_def c_index_def)

lemma ipv6_match_ok: "length a = 16 \<Longrightarrow> length b = 16 \<Longrightarrow> n \<le> 128 \<Longrightarrow> \<exists>r. ipv6_match a b n = Inr r"
  by (simp add: ipv6_match_eq)

lemma component_match_ok:
  assumes "20 \<le> length pkt" "v = IPv6 \<Longrightarrow> 40 \<le> length pkt" "component_ok c"
  shows "\<exists>r. component_match pkt v protocol src dst ul c = Inr r"
proof (cases c)
  case (PF_IPV6_REMOTE_ADDR_PREFIX a n)
  then show ?thesis using assms ipv6_match_ok [of "take 16 (drop 8 pkt)" a n] ipv6_match_ok [of "take 16 (drop 24 pkt)" a n]
    by (auto simp: component_match_def c_slice_def Let_def)
next
  case (PF_IPV6_LOCAL_ADDR_PREFIX a n)
  then show ?thesis using assms ipv6_match_ok [of "take 16 (drop 8 pkt)" a n] ipv6_match_ok [of "take 16 (drop 24 pkt)" a n]
    by (auto simp: component_match_def c_slice_def Let_def)
qed (use assms(1) in \<open>auto simp: component_match_def get_in_addr_def c_slice_def Let_def\<close>)

lemma components_match_ok:
  assumes "20 \<le> length pkt" "v = IPv6 \<Longrightarrow> 40 \<le> length pkt" "list_all component_ok l"
  shows "\<exists>r. components_match pkt v protocol src dst ul l = Inr r"
  using assms(3)
proof (induction l)
  case (Cons c l)
  then obtain ok r where "component_match pkt v protocol src dst ul c = Inr ok" "components_match pkt v protocol src dst ul l = Inr r"
    using component_match_ok [OF assms(1,2)] by force
  then show ?case by auto
qed auto

lemma packet_filter_match_ok:
  assumes "filter_ok pf"
  shows "\<exists>r. packet_filter_match pf pkt = Inr r"
proof (cases "components pf = [] \<or> length pkt < 20")
  case False
  then obtain h where h: "ip_header pkt = Inr h" "\<And>v p off. h = Some (v, p, off) \<Longrightarrow> 0 \<le> off \<and> (v = IPv6 \<longrightarrow> 40 \<le> length pkt)"
    using ip_header_ok [of pkt] by auto
  show ?thesis
  proof (cases h)
    case (Some x)
    obtain v p off where x: "x = (v, p, off)" by (cases x) auto
    obtain src dst where "ports pkt p off = Inr (src, dst)" using ports_ok h(2) Some x by blast
    then show ?thesis
      using False h x Some components_match_ok [of pkt v "components pf"] assms by (simp add: packet_filter_match_def filter_ok_def)
  qed (use False h in \<open>auto simp: packet_filter_match_def\<close>)
qed (auto simp: packet_filter_match_def)

definition rule_ok :: "nr_sdap_qos_rule \<Rightarrow> bool" where
  "rule_ok r \<longleftrightarrow> list_all filter_ok (packet_filters r)"

lemma filters_match_ok:
  assumes "list_all filter_ok l"
  shows "\<exists>r. filters_match pkt l = Inr r"
  using assms
proof (induction l)
  case (Cons pf l)
  then obtain ok r where "packet_filter_match pf pkt = Inr ok" "filters_match pkt l = Inr r"
    using packet_filter_match_ok [of pf pkt] by auto
  then show ?case by auto
qed auto

section \<open>The rule that wins\<close>

text \<open>A rule applies to an uplink packet if it is not the default rule and one of its filters matches.\<close>

definition applies :: "byte list \<Rightarrow> nr_sdap_qos_rule \<Rightarrow> bool" where
  "applies pkt r \<longleftrightarrow> \<not> is_default r \<and>
     (\<exists>pf \<in> set (packet_filters r). pf_direction pf \<in> {PF_DIR_UPLINK, PF_DIR_BIDIRECTIONAL} \<and> packet_filter_match pf pkt = Inr True)"

lemma filters_match_iff:
  assumes "list_all filter_ok l"
  shows "filters_match pkt l = Inr (\<exists>pf \<in> set l. pf_direction pf \<in> {PF_DIR_UPLINK, PF_DIR_BIDIRECTIONAL} \<and> packet_filter_match pf pkt = Inr True)"
  using assms
proof (induction l)
  case (Cons pf l)
  then obtain ok where "packet_filter_match pf pkt = Inr ok" using packet_filter_match_ok [of pf pkt] by auto
  then show ?case using Cons by auto
qed simp

lemma rules_match_find:
  assumes "list_all rule_ok l"
  shows "rules_match pkt l = Inr (map_option rule_qfi (find (applies pkt) l))"
  using assms
proof (induction l)
  case (Cons r l)
  then have "filters_match pkt (packet_filters r) = Inr (applies pkt r)" if "\<not> is_default r"
    using filters_match_iff [of "packet_filters r" pkt] that by (simp add: rule_ok_def applies_def)
  moreover have "\<not> applies pkt r" if "packet_filters r = [] \<or> is_default r" using that by (auto simp: applies_def)
  ultimately show ?case using Cons by auto
qed simp

lemma find_sorted_least:
  assumes "find P l = Some x" "sorted (map f l)"
  shows "x \<in> set l \<and> P x \<and> (\<forall>y \<in> set l. P y \<longrightarrow> f x \<le> f y)"
  using assms by (induction l) (auto split: if_splits)

end
