(* ===== verification/SDAP_Entity.thy ===== *)
theory SDAP_Entity
  imports SDAP_Filter PDCP_Manager
begin

text \<open>
  The SDAP layer (\<open>nr_sdap_entity.c\<close>, \<open>nr_sdap.c\<close>, the rule management of \<open>nr_sdap_qos_rule.c\<close>). There is
  one entity per PDU session of a user. It maps QoS flows to data bearers, adds and removes the
  one-byte header, and on the user side follows the flows of the downlink (reflective mapping)
  and classifies uplink packets by the QoS rules. PDCP is called through the functions of
  \<open>PDCP_Manager\<close>; what goes to the core network or to the TUN device is a trace.
\<close>

section \<open>State\<close>

record qfi2drb =
  map_drb_id :: int
  map_role :: int

definition SDAP_UL_TX :: int where "SDAP_UL_TX = 1"

definition SDAP_UL_RX :: int where "SDAP_UL_RX = 2"

definition SDAP_DL_TX :: int where "SDAP_DL_TX = 4"

definition SDAP_DL_RX :: int where "SDAP_DL_RX = 8"

definition NO_SDAP_HEADER :: int where "NO_SDAP_HEADER = 0"

definition SDAP_NO_MAPPING_RULE :: int where "SDAP_NO_MAPPING_RULE = 0"

definition SDAP_MAX_QFI :: nat where "SDAP_MAX_QFI = 64"

definition SDAP_MAX_UE_ID :: u64 where "SDAP_MAX_UE_ID = 65536"

definition NR_MAX_NB_PDU_SESSIONS :: int where "NR_MAX_NB_PDU_SESSIONS = 256"

record sdap_config =
  sc_pdusession_id :: int
  sc_drb_id :: int
  sc_role :: int
  sc_defaultDRB :: bool
  mappedQFIs2Add :: "int list"
  mappedQFIs2Release :: "int list"

record nr_sdap_entity =
  tun_ue_id :: u64
  tun_pdusession_id :: int
  tun_sock :: int
  tun_is_gnb :: bool
  ent_qfi :: int
  default_drb :: qfi2drb
  qfi2drb_table :: "qfi2drb list"
  qos_rules :: "nr_sdap_qos_rule list"
  use_packet_filters :: bool

datatype sdap_out =
    Gtp_send_qfi u64 int int "byte list"
  | Gtp_send u64 int "byte list"
  | Tun_write int "byte list"
  | Tun_close int u64

record sdap_layer =
  sdap_entities :: "nr_sdap_entity list"
  sdap_outs :: "sdap_out list"
  pdcp :: pdcp_layer

section \<open>Headers\<close>

definition dl_hdr :: "byte \<Rightarrow> bool \<Rightarrow> bool \<Rightarrow> byte" where
  "dl_hdr qfi rqi rdi = (qfi AND 0x3F) OR push_bit 6 (of_bool rqi) OR push_bit 7 (of_bool rdi)"

definition ul_hdr :: "byte \<Rightarrow> bool \<Rightarrow> bool \<Rightarrow> byte" where
  "ul_hdr qfi r dc = (qfi AND 0x3F) OR push_bit 6 (of_bool r) OR push_bit 7 (of_bool dc)"

definition hdr_QFI :: "byte \<Rightarrow> byte" where
  "hdr_QFI h = h AND 0x3F"

definition hdr_RDI :: "byte \<Rightarrow> bool" where
  "hdr_RDI h \<longleftrightarrow> bit h 7"

section \<open>The mapping of flows to bearers\<close>

definition no_rule :: qfi2drb where
  "no_rule = \<lparr>map_drb_id = SDAP_NO_MAPPING_RULE, map_role = NO_SDAP_HEADER\<rparr>"

definition nr_sdap_drb_lookup :: "nr_sdap_entity \<Rightarrow> int \<Rightarrow> qfi2drb option" where
  "nr_sdap_drb_lookup e drb_id =
     (case find (\<lambda>r. map_drb_id r = drb_id) (qfi2drb_table e) of
        Some r \<Rightarrow> Some r
      | None \<Rightarrow> if map_drb_id (default_drb e) = drb_id then Some (default_drb e) else None)"

definition nr_sdap_qfi2drb :: "nr_sdap_entity \<Rightarrow> byte \<Rightarrow> qfi2drb option res" where
  "nr_sdap_qfi2drb e qfi =
     res_bind (if uint qfi < int SDAP_MAX_QFI then res_bind (c_index (qfi2drb_table e) (uint qfi)) (\<lambda>r. Inr (Some r)) else Inr None) (\<lambda>row.
     Inr (case row of
            Some r \<Rightarrow> if map_drb_id r \<noteq> 0 then Some r
                      else if map_drb_id (default_drb e) \<noteq> 0 then Some (default_drb e) else None
          | None \<Rightarrow> if map_drb_id (default_drb e) \<noteq> 0 then Some (default_drb e) else None))"

definition nr_sdap_qfi2drb_map_add :: "nr_sdap_entity \<Rightarrow> byte \<Rightarrow> int \<Rightarrow> int \<Rightarrow> nr_sdap_entity res" where
  "nr_sdap_qfi2drb_map_add e qfi drb_id role =
     res_bind (c_store (qfi2drb_table e) (uint qfi) \<lparr>map_drb_id = drb_id mod 256, map_role = role mod 256\<rparr>) (\<lambda>t.
     Inr (e\<lparr>qfi2drb_table := t\<rparr>))"

definition nr_sdap_qfi2drb_map_del :: "nr_sdap_entity \<Rightarrow> byte \<Rightarrow> nr_sdap_entity res" where
  "nr_sdap_qfi2drb_map_del e qfi =
     res_bind (c_store (qfi2drb_table e) (uint qfi) no_rule) (\<lambda>t. Inr (e\<lparr>qfi2drb_table := t\<rparr>))"

section \<open>Control PDUs\<close>

definition nr_sdap_construct_ctrl_pdu :: "byte \<Rightarrow> byte" where
  "nr_sdap_construct_ctrl_pdu qfi = ul_hdr qfi False False"

datatype ctrl_pdu_map = MAP_DEF_DRB | MAP_RULE_DRB

definition nr_sdap_map_ctrl_pdu :: "nr_sdap_entity \<Rightarrow> ctrl_pdu_map \<Rightarrow> byte \<Rightarrow> int res" where
  "nr_sdap_map_ctrl_pdu e map_type dl_qfi =
     (case map_type of
        MAP_DEF_DRB \<Rightarrow> Inr (map_drb_id (default_drb e))
      | MAP_RULE_DRB \<Rightarrow> res_bind (nr_sdap_qfi2drb e dl_qfi) (\<lambda>r.
          Inr (case r of None \<Rightarrow> 0 | Some r \<Rightarrow> map_drb_id r)))"

definition sdap_ctxt :: "bool \<Rightarrow> u64 \<Rightarrow> protocol_ctxt" where
  "sdap_ctxt enb u = \<lparr>module_id = 0, ctxt_enb_flag = enb, ctxt_instance = 0, rntiMaybeUEid = u, eNB_index = 0, brOption = False\<rparr>"

definition nr_pdcp_submit_sdap_ctrl_pdu :: "aes_lib \<Rightarrow> u64 \<Rightarrow> int \<Rightarrow> byte \<Rightarrow> sdap_layer \<Rightarrow> sdap_layer res" where
  "nr_pdcp_submit_sdap_ctrl_pdu aes u drb_id ctrl_pdu st =
     res_bind (nr_pdcp_data_req_drb aes (pdcp st) (sdap_ctxt False u) False drb_id 0 [ctrl_pdu]) (\<lambda>(_, m).
     Inr (st\<lparr>pdcp := m\<rparr>))"

definition nr_sdap_submit_ctrl_pdu :: "aes_lib \<Rightarrow> u64 \<Rightarrow> int \<Rightarrow> byte \<Rightarrow> sdap_layer \<Rightarrow> sdap_layer res" where
  "nr_sdap_submit_ctrl_pdu aes u drb_id ctrl_pdu st =
     (if drb_id \<noteq> 0 then nr_pdcp_submit_sdap_ctrl_pdu aes u drb_id ctrl_pdu st else Inr st)"

text \<open>An end marker: constructed, mapped and submitted.\<close>

definition end_marker :: "aes_lib \<Rightarrow> nr_sdap_entity \<Rightarrow> ctrl_pdu_map \<Rightarrow> u64 \<Rightarrow> byte \<Rightarrow> sdap_layer \<Rightarrow> sdap_layer res" where
  "end_marker aes e map_type u qfi st =
     res_bind (nr_sdap_map_ctrl_pdu e map_type qfi) (\<lambda>drb_id.
     nr_sdap_submit_ctrl_pdu aes u drb_id (nr_sdap_construct_ctrl_pdu qfi) st)"

section \<open>Data transfer\<close>

definition submit :: "aes_lib \<Rightarrow> protocol_ctxt \<Rightarrow> bool \<Rightarrow> int \<Rightarrow> u32 \<Rightarrow> byte list \<Rightarrow> sdap_layer \<Rightarrow> (bool \<times> sdap_layer) res" where
  "submit aes c srb_flag drb_id mui pdu st =
     res_bind (nr_pdcp_data_req_drb aes (pdcp st) c srb_flag drb_id mui pdu) (\<lambda>(ok, m). Inr (ok, st\<lparr>pdcp := m\<rparr>))"

text \<open>The flow marked in the header: a flow of the bearer if the packet comes without one.\<close>

fun first_qfi :: "int \<Rightarrow> qfi2drb list \<Rightarrow> nat" where
  "first_qfi drb_id [] = 0"
| "first_qfi drb_id (r # l) = (if map_drb_id r = drb_id then 0 else Suc (first_qfi drb_id l))"

definition header_qfi :: "nr_sdap_entity \<Rightarrow> int \<Rightarrow> byte \<Rightarrow> byte res" where
  "header_qfi e drb_id qfi =
     (if uint qfi < int SDAP_MAX_QFI then Inr qfi
      else let i = first_qfi drb_id (qfi2drb_table e)
           in if i < length (qfi2drb_table e) then Inr (of_nat i) else Inl Assert_fatal)"

definition nr_sdap_tx_entity ::
  "aes_lib \<Rightarrow> nr_sdap_entity \<Rightarrow> protocol_ctxt \<Rightarrow> bool \<Rightarrow> u32 \<Rightarrow> byte list option \<Rightarrow> byte \<Rightarrow> bool \<Rightarrow> sdap_layer \<Rightarrow> (bool \<times> sdap_layer) res" where
  "nr_sdap_tx_entity aes e c srb_flag mui sdu_p qfi rqi st =
     (case sdu_p of
        None \<Rightarrow> Inl Exit_fatal
      | Some sdu \<Rightarrow> res_bind (nr_sdap_qfi2drb e qfi) (\<lambda>row. case row of
          None \<Rightarrow> Inr (False, st)
        | Some r \<Rightarrow>
            let drb_id = map_drb_id r;
                ul_tx = (map_role r AND SDAP_UL_TX \<noteq> 0);
                dl_tx = (map_role r AND SDAP_DL_TX \<noteq> 0)
            in if \<not> ul_tx \<and> \<not> dl_tx then submit aes c srb_flag drb_id mui sdu st
               else if sdu = [] \<or> length sdu > 8999 then Inr (False, st)
               else res_bind (header_qfi e drb_id qfi) (\<lambda>hq.
                 let hdr = (if dl_tx then dl_hdr hq rqi False else ul_hdr hq False rqi)
                 in submit aes c srb_flag drb_id mui (hdr # sdu) st)))"

text \<open>Uplink reception at the base station.\<close>

definition sdap_rx_gnb :: "nr_sdap_entity \<Rightarrow> int \<Rightarrow> int \<Rightarrow> int \<Rightarrow> u64 \<Rightarrow> byte list \<Rightarrow> sdap_layer \<Rightarrow> sdap_layer res" where
  "sdap_rx_gnb e role drb_id session u buf st =
     (if role AND SDAP_UL_RX \<noteq> 0
      then res_bind (c_index buf 0) (\<lambda>h.
           let qfi = hdr_QFI h
           in res_bind (nr_sdap_qfi2drb e qfi) (\<lambda>row. case row of
                None \<Rightarrow> Inr st
              | Some r \<Rightarrow> if map_drb_id r \<noteq> drb_id then Inr st
                  else Inr (st\<lparr>sdap_outs := sdap_outs st @ [Gtp_send_qfi u session (uint qfi) (tl buf)]\<rparr>)))
      else Inr (st\<lparr>sdap_outs := sdap_outs st @ [Gtp_send u session buf]\<rparr>))"

text \<open>Reflective mapping at the user: end markers for the old bearer, then the new rule.\<close>

definition reflective_mapping :: "aes_lib \<Rightarrow> nr_sdap_entity \<Rightarrow> int \<Rightarrow> int \<Rightarrow> u64 \<Rightarrow> byte \<Rightarrow> sdap_layer \<Rightarrow> (nr_sdap_entity \<times> sdap_layer) res" where
  "reflective_mapping aes e role drb_id u qfi st =
     res_bind (c_index (qfi2drb_table e) (uint qfi)) (\<lambda>row.
     res_bind (if map_drb_id row = 0 \<and> map_drb_id (default_drb e) \<noteq> 0 then end_marker aes e MAP_DEF_DRB u qfi st else Inr st) (\<lambda>st.
     res_bind (if drb_id \<noteq> map_drb_id row then end_marker aes e MAP_RULE_DRB u qfi st else Inr st) (\<lambda>st.
     res_bind (c_store (qfi2drb_table e) (uint qfi) \<lparr>map_drb_id = drb_id, map_role = role\<rparr>) (\<lambda>t.
     Inr (e\<lparr>qfi2drb_table := t\<rparr>, st)))))"

definition sdap_rx_ue :: "aes_lib \<Rightarrow> nr_sdap_entity \<Rightarrow> int \<Rightarrow> int \<Rightarrow> u64 \<Rightarrow> byte list \<Rightarrow> sdap_layer \<Rightarrow> (nr_sdap_entity \<times> sdap_layer) res" where
  "sdap_rx_ue aes e role drb_id u buf st =
     res_bind (if role AND SDAP_DL_RX \<noteq> 0
               then res_bind (c_index buf 0) (\<lambda>h.
                    res_bind (if hdr_RDI h then reflective_mapping aes e role drb_id u (hdr_QFI h) st else Inr (e, st)) (\<lambda>(e, st).
                    Inr (tl buf, e, st)))
               else Inr (buf, e, st)) (\<lambda>(sdu, e, st).
     Inr (if tun_sock e < 0 then (e, st) else (e, st\<lparr>sdap_outs := sdap_outs st @ [Tun_write (tun_sock e) sdu]\<rparr>)))"

definition nr_sdap_rx_entity ::
  "aes_lib \<Rightarrow> nr_sdap_entity \<Rightarrow> int \<Rightarrow> bool \<Rightarrow> int \<Rightarrow> u64 \<Rightarrow> byte list \<Rightarrow> sdap_layer \<Rightarrow> (nr_sdap_entity \<times> sdap_layer) res" where
  "nr_sdap_rx_entity aes e drb_id gnb session u buf st =
     (case nr_sdap_drb_lookup e drb_id of
        None \<Rightarrow> Inr (e, st)
      | Some r \<Rightarrow>
          if gnb then res_bind (sdap_rx_gnb e (map_role r) drb_id session u buf st) (\<lambda>st. Inr (e, st))
          else sdap_rx_ue aes e (map_role r) drb_id u buf st)"

section \<open>Configuration of the mapping\<close>

definition c_uint8 :: "int \<Rightarrow> byte" where
  "c_uint8 x = word_of_int x"

fun ue_control_pdu_loop :: "aes_lib \<Rightarrow> nr_sdap_entity \<Rightarrow> u64 \<Rightarrow> int \<Rightarrow> int list \<Rightarrow> sdap_layer \<Rightarrow> sdap_layer res" where
  "ue_control_pdu_loop aes e u drb_id [] st = Inr st"
| "ue_control_pdu_loop aes e u drb_id (q # qs) st =
     (let qfi = c_uint8 q in
      res_bind (c_index (qfi2drb_table e) (uint qfi)) (\<lambda>row.
      res_bind (if map_drb_id (default_drb e) \<noteq> 0 \<and> map_drb_id row = SDAP_NO_MAPPING_RULE
                then end_marker aes e MAP_DEF_DRB u qfi st else Inr st) (\<lambda>st.
      res_bind (if map_drb_id row \<noteq> drb_id \<and> map_role row AND SDAP_UL_TX \<noteq> 0
                then end_marker aes e MAP_RULE_DRB u qfi st else Inr st) (\<lambda>st.
      ue_control_pdu_loop aes e u drb_id qs st))))"

definition nr_sdap_ue_control_pdu_config :: "aes_lib \<Rightarrow> nr_sdap_entity \<Rightarrow> u64 \<Rightarrow> sdap_config \<Rightarrow> sdap_layer \<Rightarrow> sdap_layer res" where
  "nr_sdap_ue_control_pdu_config aes e u sdap st = ue_control_pdu_loop aes e u (sc_drb_id sdap) (mappedQFIs2Add sdap) st"

fun add_flows :: "int \<Rightarrow> int \<Rightarrow> int list \<Rightarrow> nr_sdap_entity \<Rightarrow> nr_sdap_entity res" where
  "add_flows drb_id role [] e = Inr e"
| "add_flows drb_id role (q # qs) e =
     res_bind (if uint (c_uint8 q) < int SDAP_MAX_QFI \<and> drb_id > SDAP_NO_MAPPING_RULE \<and> drb_id \<le> int MAX_DRBS_PER_UE
               then nr_sdap_qfi2drb_map_add e (c_uint8 q) drb_id role else Inr e) (\<lambda>e.
     add_flows drb_id role qs e)"

definition nr_sdap_add_qos_flows_to_drb :: "nr_sdap_entity \<Rightarrow> sdap_config \<Rightarrow> nr_sdap_entity res" where
  "nr_sdap_add_qos_flows_to_drb e sdap = add_flows (sc_drb_id sdap) (sc_role sdap) (mappedQFIs2Add sdap) e"

fun rm_flows :: "int list \<Rightarrow> nr_sdap_entity \<Rightarrow> nr_sdap_entity res" where
  "rm_flows [] e = Inr e"
| "rm_flows (q # qs) e = res_bind (nr_sdap_qfi2drb_map_del e (c_uint8 q)) (\<lambda>e. rm_flows qs e)"

definition nr_sdap_rm_qos_flows_from_drb :: "nr_sdap_entity \<Rightarrow> sdap_config \<Rightarrow> nr_sdap_entity res" where
  "nr_sdap_rm_qos_flows_from_drb e sdap = rm_flows (mappedQFIs2Release sdap) e"

text \<open>The role of the bearer goes to all its flows; a bearer without headers carries one flow at most.\<close>

definition share_role :: "int \<Rightarrow> int \<Rightarrow> nr_sdap_entity \<Rightarrow> nr_sdap_entity" where
  "share_role drb_id role e =
     e\<lparr>qfi2drb_table := map (\<lambda>r. if map_drb_id r = drb_id then r\<lparr>map_role := role\<rparr> else r) (qfi2drb_table e)\<rparr>"

definition nr_sdap_qfi2drb_map_update :: "nr_sdap_entity \<Rightarrow> sdap_config \<Rightarrow> nr_sdap_entity res" where
  "nr_sdap_qfi2drb_map_update e sdap =
     res_bind (nr_sdap_add_qos_flows_to_drb e sdap) (\<lambda>e.
     res_bind (nr_sdap_rm_qos_flows_from_drb e sdap) (\<lambda>e.
     let e = share_role (sc_drb_id sdap) (sc_role sdap) e
     in if sc_role sdap = NO_SDAP_HEADER \<and> length (filter (\<lambda>r. map_drb_id r = sc_drb_id sdap) (qfi2drb_table e)) > 1
        then Inl Assert_fatal else Inr e))"

text \<open>The function pointer \<open>qfi2drb_map_update\<close>: on the user side, end markers come first.\<close>

definition qfi2drb_map_update :: "aes_lib \<Rightarrow> nr_sdap_entity \<Rightarrow> sdap_config \<Rightarrow> sdap_layer \<Rightarrow> (nr_sdap_entity \<times> sdap_layer) res" where
  "qfi2drb_map_update aes e sdap st =
     res_bind (if tun_is_gnb e then Inr st else nr_sdap_ue_control_pdu_config aes e (tun_ue_id e) sdap st) (\<lambda>st.
     res_bind (nr_sdap_qfi2drb_map_update e sdap) (\<lambda>e. Inr (e, st)))"

section \<open>Entities\<close>

definition is_entity :: "u64 \<Rightarrow> int \<Rightarrow> nr_sdap_entity \<Rightarrow> bool" where
  "is_entity u session e \<longleftrightarrow> tun_ue_id e = u \<and> tun_pdusession_id e = session"

definition nr_sdap_get_entity :: "sdap_layer \<Rightarrow> u64 \<Rightarrow> int \<Rightarrow> nr_sdap_entity option" where
  "nr_sdap_get_entity st u session = find (is_entity u session) (sdap_entities st)"

text \<open>The operations change the entity they got in place.\<close>

definition put_entity :: "u64 \<Rightarrow> int \<Rightarrow> nr_sdap_entity \<Rightarrow> sdap_layer \<Rightarrow> sdap_layer" where
  "put_entity u session e st = st\<lparr>sdap_entities := update_first (is_entity u session) (\<lambda>_. e) (sdap_entities st)\<rparr>"

definition fresh_entity :: "bool \<Rightarrow> u64 \<Rightarrow> sdap_config \<Rightarrow> nr_sdap_entity" where
  "fresh_entity gnb u sdap =
     \<lparr>tun_ue_id = u, tun_pdusession_id = sc_pdusession_id sdap, tun_sock = -1, tun_is_gnb = gnb, ent_qfi = 0,
      default_drb = (if sc_defaultDRB sdap then \<lparr>map_drb_id = sc_drb_id sdap, map_role = sc_role sdap\<rparr> else no_rule),
      qfi2drb_table = replicate SDAP_MAX_QFI no_rule, qos_rules = [], use_packet_filters = False\<rparr>"

text \<open>\<open>fd\<close> is the descriptor that the allocation of the TUN device returns; the reader thread wants it open.\<close>

definition start_sdap_tun_gnb_first_ue_default_pdu_session :: "int \<Rightarrow> nr_sdap_entity \<Rightarrow> nr_sdap_entity res" where
  "start_sdap_tun_gnb_first_ue_default_pdu_session fd e =
     (if \<not> tun_is_gnb e \<or> fd < 0 then Inl Assert_fatal else Inr (e\<lparr>tun_sock := fd\<rparr>))"

definition nr_sdap_add_entity :: "int \<Rightarrow> bool \<Rightarrow> u64 \<Rightarrow> sdap_config \<Rightarrow> sdap_layer \<Rightarrow> sdap_layer res" where
  "nr_sdap_add_entity fd gnb u sdap st =
     (if sc_role sdap = NO_SDAP_HEADER \<and> length (mappedQFIs2Add sdap) > 1 then Inl Assert_fatal
      else res_bind (nr_sdap_add_qos_flows_to_drb (fresh_entity gnb u sdap) sdap) (\<lambda>e.
           res_bind (if nos1 (pdcp st) \<and> gnb then start_sdap_tun_gnb_first_ue_default_pdu_session fd e else Inr e) (\<lambda>e.
           Inr (st\<lparr>sdap_entities := e # sdap_entities st\<rparr>))))"

definition nr_sdap_addmod_entity :: "aes_lib \<Rightarrow> int \<Rightarrow> bool \<Rightarrow> u64 \<Rightarrow> sdap_config \<Rightarrow> sdap_layer \<Rightarrow> sdap_layer res" where
  "nr_sdap_addmod_entity aes fd gnb u sdap st =
     (case nr_sdap_get_entity st u (sc_pdusession_id sdap) of
        Some e \<Rightarrow> res_bind (qfi2drb_map_update aes e sdap st) (\<lambda>(e, st). Inr (put_entity u (sc_pdusession_id sdap) e st))
      | None \<Rightarrow> nr_sdap_add_entity fd gnb u sdap st)"

definition nr_sdap_release_drb :: "u64 \<Rightarrow> int \<Rightarrow> int \<Rightarrow> sdap_layer \<Rightarrow> sdap_layer" where
  "nr_sdap_release_drb u drb_id session st =
     (case nr_sdap_get_entity st u session of
        None \<Rightarrow> st
      | Some e \<Rightarrow> put_entity u session
          (e\<lparr>qfi2drb_table := map (\<lambda>r. if map_drb_id r = drb_id then r\<lparr>map_drb_id := SDAP_NO_MAPPING_RULE\<rparr> else r) (qfi2drb_table e)\<rparr>) st)"

text \<open>The flows of the bearer that the new list leaves out are released.\<close>

definition flows_to_release :: "nr_sdap_entity \<Rightarrow> sdap_config \<Rightarrow> int list" where
  "flows_to_release e sdap =
     [int q. (q, r) \<leftarrow> enumerate 0 (qfi2drb_table e), map_drb_id r = sc_drb_id sdap \<and> int q \<notin> set (mappedQFIs2Add sdap)]"

definition nr_sdap_entity_update_qos_flows :: "aes_lib \<Rightarrow> u64 \<Rightarrow> sdap_config \<Rightarrow> sdap_layer \<Rightarrow> sdap_layer res" where
  "nr_sdap_entity_update_qos_flows aes u sdap st =
     (case nr_sdap_get_entity st u (sc_pdusession_id sdap) of
        None \<Rightarrow> Inr st
      | Some e \<Rightarrow> (case nr_sdap_drb_lookup e (sc_drb_id sdap) of
          None \<Rightarrow> Inr st
        | Some r \<Rightarrow>
            let release = mappedQFIs2Release sdap @ flows_to_release e sdap;
                sdap = sdap\<lparr>sc_role := map_role r, sc_defaultDRB := (map_drb_id (default_drb e) = sc_drb_id sdap), mappedQFIs2Release := release\<rparr>
            in if length release > SDAP_MAX_QFI then Inl Assert_fatal
               else res_bind (qfi2drb_map_update aes e sdap st) (\<lambda>(e, st). Inr (put_entity u (sc_pdusession_id sdap) e st))))"

text \<open>The TUN device of a base-station entity is closed with it; that of a user belongs to NAS.\<close>

definition remove_ip_if :: "nr_sdap_entity \<Rightarrow> sdap_layer \<Rightarrow> sdap_layer" where
  "remove_ip_if e st =
     (if \<not> tun_is_gnb e \<or> tun_sock e < 0 then st
      else st\<lparr>sdap_outs := sdap_outs st @ [Tun_close (tun_sock e) (tun_ue_id e)]\<rparr>)"

definition nr_sdap_delete_entity :: "u64 \<Rightarrow> int \<Rightarrow> sdap_layer \<Rightarrow> bool \<times> sdap_layer" where
  "nr_sdap_delete_entity u session st =
     (if session < 0 \<or> session > NR_MAX_NB_PDU_SESSIONS then (False, st)
      else case nr_sdap_get_entity st u session of
        None \<Rightarrow> (False, st)
      | Some e \<Rightarrow> (True, remove_ip_if e (st\<lparr>sdap_entities := erase_first (is_entity u session) (sdap_entities st)\<rparr>)))"

definition nr_sdap_delete_ue_entities :: "u64 \<Rightarrow> sdap_layer \<Rightarrow> bool \<times> sdap_layer" where
  "nr_sdap_delete_ue_entities u st =
     (if u > SDAP_MAX_UE_ID then (False, st)
      else let mine = filter (\<lambda>e. tun_ue_id e = u) (sdap_entities st)
           in (mine \<noteq> [], fold remove_ip_if mine (st\<lparr>sdap_entities := filter (\<lambda>e. tun_ue_id e \<noteq> u) (sdap_entities st)\<rparr>)))"

section \<open>Configuration from RRC\<close>

text \<open>The fields of the ASN.1 structure \<open>SDAP-Config\<close> that the code reads.\<close>

record nr_SDAP_Config =
  pdu_Session :: int
  sdap_HeaderDL :: bool
  sdap_HeaderUL :: bool
  defaultDRB :: bool
  mappedQoS_FlowsToAdd :: "int list option"
  mappedQoS_FlowsToRelease :: "int list option"

definition get_sdap_role :: "bool \<Rightarrow> nr_SDAP_Config \<Rightarrow> int" where
  "get_sdap_role gnb c =
     (let role_ul = (if gnb then SDAP_UL_RX else SDAP_UL_TX);
          role_dl = (if gnb then SDAP_DL_TX else SDAP_DL_RX);
          role = (if sdap_HeaderUL c then NO_SDAP_HEADER OR role_ul else NO_SDAP_HEADER)
      in if sdap_HeaderDL c then role OR role_dl else role)"

text \<open>The count is a \<open>uint8_t\<close>, so it is the length of the list modulo 256.\<close>

definition get_flows :: "int list option \<Rightarrow> int list res" where
  "get_flows l =
     (case l of
        None \<Rightarrow> Inr []
      | Some qs \<Rightarrow> let n = length qs mod 256 in if n > SDAP_MAX_QFI then Inl Assert_fatal else Inr (take n qs))"

definition nr_sdap_get_config :: "bool \<Rightarrow> nr_SDAP_Config \<Rightarrow> int \<Rightarrow> sdap_config res" where
  "nr_sdap_get_config gnb c drb_id =
     res_bind (get_flows (mappedQoS_FlowsToAdd c)) (\<lambda>add.
     res_bind (get_flows (mappedQoS_FlowsToRelease c)) (\<lambda>rel.
     Inr \<lparr>sc_pdusession_id = pdu_Session c, sc_drb_id = drb_id, sc_role = get_sdap_role gnb c, sc_defaultDRB = defaultDRB c,
          mappedQFIs2Add = add, mappedQFIs2Release = rel\<rparr>))"

definition nr_reconfigure_sdap_entity :: "aes_lib \<Rightarrow> nr_SDAP_Config \<Rightarrow> u64 \<Rightarrow> int \<Rightarrow> int \<Rightarrow> sdap_layer \<Rightarrow> sdap_layer res" where
  "nr_reconfigure_sdap_entity aes c u session drb_id st =
     (case nr_sdap_get_entity st u session of
        None \<Rightarrow> Inr st
      | Some e \<Rightarrow> res_bind (nr_sdap_get_config False c drb_id) (\<lambda>sdap.
          res_bind (qfi2drb_map_update aes e sdap st) (\<lambda>(e, st). Inr (put_entity u session e st))))"

section \<open>QoS rules\<close>

definition nr_sdap_match_ul_packet :: "nr_sdap_entity \<Rightarrow> byte list \<Rightarrow> byte res" where
  "nr_sdap_match_ul_packet e pkt =
     res_bind (rules_match pkt (qos_rules e)) (\<lambda>r.
     Inr (case r of Some qfi \<Rightarrow> qfi | None \<Rightarrow> c_uint8 (ent_qfi e)))"

text \<open>\<open>qsort\<close> is that of the C library, called with \<open>compare_precedence\<close>.\<close>

type_synonym qsort = "nr_sdap_qos_rule list \<Rightarrow> nr_sdap_qos_rule list"

definition on_ue_entity :: "u64 \<Rightarrow> int \<Rightarrow> (nr_sdap_entity \<Rightarrow> nr_sdap_entity) \<Rightarrow> sdap_layer \<Rightarrow> sdap_layer" where
  "on_ue_entity u session f st =
     (case nr_sdap_get_entity st u session of
        None \<Rightarrow> st
      | Some e \<Rightarrow> if tun_is_gnb e then st else put_entity u session (f e) st)"

definition qos_rule_add :: "qsort \<Rightarrow> byte \<Rightarrow> byte \<Rightarrow> byte \<Rightarrow> bool \<Rightarrow> packet_filter list \<Rightarrow> nr_sdap_entity \<Rightarrow> nr_sdap_entity" where
  "qos_rule_add qsort i qfi prec dflt pfs e =
     (if length (qos_rules e) \<ge> MAX_NUM_SDAP_QOS_RULES then e
      else let r = \<lparr>rule_qfi = qfi, rule_id = i, precedence = prec, is_default = dflt, packet_filters = pfs\<rparr>;
               e = e\<lparr>qos_rules := qsort (qos_rules e @ [r])\<rparr>;
               e = (if dflt then e\<lparr>ent_qfi := uint qfi\<rparr> else e)
           in e\<lparr>use_packet_filters := True\<rparr>)"

definition nr_sdap_qos_rule_add :: "qsort \<Rightarrow> u64 \<Rightarrow> int \<Rightarrow> byte \<Rightarrow> byte \<Rightarrow> byte \<Rightarrow> bool \<Rightarrow> packet_filter list \<Rightarrow> sdap_layer \<Rightarrow> sdap_layer" where
  "nr_sdap_qos_rule_add qsort u session i qfi prec dflt pfs st = on_ue_entity u session (qos_rule_add qsort i qfi prec dflt pfs) st"

definition qos_rule_remove :: "byte \<Rightarrow> nr_sdap_entity \<Rightarrow> nr_sdap_entity" where
  "qos_rule_remove i e =
     (let e = (case find_qos_rule (qos_rules e) i of
                 Some _ \<Rightarrow> e\<lparr>qos_rules := erase_first (\<lambda>r. rule_id r = i) (qos_rules e)\<rparr>
               | None \<Rightarrow> e)
      in if qos_rules e = [] then e\<lparr>use_packet_filters := False\<rparr> else e)"

definition nr_sdap_qos_rule_remove :: "u64 \<Rightarrow> int \<Rightarrow> byte \<Rightarrow> sdap_layer \<Rightarrow> sdap_layer" where
  "nr_sdap_qos_rule_remove u session i st = on_ue_entity u session (qos_rule_remove i) st"

definition qos_rule_update ::
  "qsort \<Rightarrow> byte \<Rightarrow> byte \<Rightarrow> byte \<Rightarrow> bool \<Rightarrow> packet_filter list \<Rightarrow> bool \<Rightarrow> nr_sdap_entity \<Rightarrow> nr_sdap_entity" where
  "qos_rule_update qsort i qfi prec dflt pfs replace e =
     (case find_qos_rule (qos_rules e) i of
        None \<Rightarrow> e
      | Some _ \<Rightarrow>
          let f = (\<lambda>r. r\<lparr>rule_qfi := qfi, precedence := prec, is_default := dflt,
                         packet_filters := (if replace then pfs else packet_filters r @ pfs)\<rparr>);
              rules = update_first (\<lambda>r. rule_id r = i) f (qos_rules e);
              e = (if dflt then e\<lparr>ent_qfi := uint qfi\<rparr> else e)
          in e\<lparr>qos_rules := qsort rules\<rparr>)"

definition nr_sdap_qos_rule_update ::
  "qsort \<Rightarrow> u64 \<Rightarrow> int \<Rightarrow> byte \<Rightarrow> byte \<Rightarrow> byte \<Rightarrow> bool \<Rightarrow> packet_filter list \<Rightarrow> bool \<Rightarrow> sdap_layer \<Rightarrow> sdap_layer" where
  "nr_sdap_qos_rule_update qsort u session i qfi prec dflt pfs replace st =
     on_ue_entity u session (qos_rule_update qsort i qfi prec dflt pfs replace) st"

definition qos_rule_delete_pf :: "byte \<Rightarrow> byte list \<Rightarrow> nr_sdap_entity \<Rightarrow> nr_sdap_entity" where
  "qos_rule_delete_pf i pf_ids e =
     e\<lparr>qos_rules := update_first (\<lambda>r. rule_id r = i) (\<lambda>r. r\<lparr>packet_filters := delete_filters pf_ids (packet_filters r)\<rparr>) (qos_rules e)\<rparr>"

definition nr_sdap_qos_rule_delete_pf :: "u64 \<Rightarrow> int \<Rightarrow> byte \<Rightarrow> byte list \<Rightarrow> sdap_layer \<Rightarrow> sdap_layer" where
  "nr_sdap_qos_rule_delete_pf u session i pf_ids st = on_ue_entity u session (qos_rule_delete_pf i pf_ids) st"

section \<open>Entry points\<close>

definition sdap_data_req ::
  "aes_lib \<Rightarrow> protocol_ctxt \<Rightarrow> u64 \<Rightarrow> bool \<Rightarrow> u32 \<Rightarrow> byte list option \<Rightarrow> byte \<Rightarrow> bool \<Rightarrow> int \<Rightarrow> sdap_layer \<Rightarrow> (bool \<times> sdap_layer) res" where
  "sdap_data_req aes c u srb_flag mui sdu qfi rqi session st =
     (case nr_sdap_get_entity st u session of
        None \<Rightarrow> Inr (False, st)
      | Some e \<Rightarrow> nr_sdap_tx_entity aes e c srb_flag mui sdu qfi rqi st)"

definition sdap_data_ind :: "aes_lib \<Rightarrow> int \<Rightarrow> bool \<Rightarrow> int \<Rightarrow> u64 \<Rightarrow> byte list \<Rightarrow> sdap_layer \<Rightarrow> sdap_layer res" where
  "sdap_data_ind aes drb_id gnb session u buf st =
     (case nr_sdap_get_entity st u session of
        None \<Rightarrow> Inr st
      | Some e \<Rightarrow> res_bind (nr_sdap_rx_entity aes e drb_id gnb session u buf st) (\<lambda>(e, st). Inr (put_entity u session e st)))"

definition nr_sdap_tun_bind :: "int \<Rightarrow> int \<Rightarrow> nr_sdap_entity \<Rightarrow> nr_sdap_entity res" where
  "nr_sdap_tun_bind sock qfi e =
     (if sock < 0 then Inr e
      else if qfi < 0 \<or> qfi \<ge> int SDAP_MAX_QFI then Inl Assert_fatal
      else Inr (e\<lparr>tun_sock := sock, ent_qfi := qfi\<rparr>))"

text \<open>One packet of \<open>sdap_tun_read_thread\<close>.\<close>

definition sdap_tun_read :: "aes_lib \<Rightarrow> nr_sdap_entity \<Rightarrow> byte list \<Rightarrow> sdap_layer \<Rightarrow> (bool \<times> sdap_layer) res" where
  "sdap_tun_read aes e pkt st =
     res_bind (if \<not> tun_is_gnb e \<and> use_packet_filters e then nr_sdap_match_ul_packet e pkt else Inr (c_uint8 (ent_qfi e))) (\<lambda>qfi.
     nr_sdap_tx_entity aes e (sdap_ctxt (tun_is_gnb e) (tun_ue_id e)) False 0 (Some pkt) qfi (\<not> tun_is_gnb e) st)"

end
