(* ===== verification/SDAP_Layer.thy ===== *)
theory SDAP_Layer
  imports SDAP_Entity
begin

text \<open>
  The SDAP layer as a whole: sequences of its operations, the invariant of the entities and that every
  operation keeps it.
\<close>

section \<open>Sequences of operations\<close>

datatype sdap_op =
    S_addmod int bool u64 sdap_config
  | S_release_drb u64 int int
  | S_update_flows u64 sdap_config
  | S_delete_entity u64 int
  | S_delete_ue u64
  | S_reconfigure nr_SDAP_Config u64 int int
  | S_rule_add u64 int byte byte byte bool "packet_filter list"
  | S_rule_remove u64 int byte
  | S_rule_update u64 int byte byte byte bool "packet_filter list" bool
  | S_rule_delete_pf u64 int byte "byte list"
  | S_data_req protocol_ctxt u64 bool u32 "byte list option" byte bool int
  | S_data_ind int bool int u64 "byte list"
  | S_tun_bind u64 int int int
  | S_tun_read u64 int "byte list"

fun sdap_op_step :: "aes_lib \<Rightarrow> qsort \<Rightarrow> sdap_op \<Rightarrow> sdap_layer \<Rightarrow> sdap_layer res" where
  "sdap_op_step aes qsort (S_addmod fd gnb u sdap) st = nr_sdap_addmod_entity aes fd gnb u sdap st"
| "sdap_op_step aes qsort (S_release_drb u d p) st = Inr (nr_sdap_release_drb u d p st)"
| "sdap_op_step aes qsort (S_update_flows u sdap) st = nr_sdap_entity_update_qos_flows aes u sdap st"
| "sdap_op_step aes qsort (S_delete_entity u p) st = Inr (snd (nr_sdap_delete_entity u p st))"
| "sdap_op_step aes qsort (S_delete_ue u) st = Inr (snd (nr_sdap_delete_ue_entities u st))"
| "sdap_op_step aes qsort (S_reconfigure c u p d) st = nr_reconfigure_sdap_entity aes c u p d st"
| "sdap_op_step aes qsort (S_rule_add u p i q prec dflt pfs) st = Inr (nr_sdap_qos_rule_add qsort u p i q prec dflt pfs st)"
| "sdap_op_step aes qsort (S_rule_remove u p i) st = Inr (nr_sdap_qos_rule_remove u p i st)"
| "sdap_op_step aes qsort (S_rule_update u p i q prec dflt pfs rep) st = Inr (nr_sdap_qos_rule_update qsort u p i q prec dflt pfs rep st)"
| "sdap_op_step aes qsort (S_rule_delete_pf u p i ids) st = Inr (nr_sdap_qos_rule_delete_pf u p i ids st)"
| "sdap_op_step aes qsort (S_data_req c u sf mui sdu q rqi p) st = res_bind (sdap_data_req aes c u sf mui sdu q rqi p st) (\<lambda>(_, st). Inr st)"
| "sdap_op_step aes qsort (S_data_ind d gnb p u buf) st = sdap_data_ind aes d gnb p u buf st"
| "sdap_op_step aes qsort (S_tun_bind u p sock q) st =
     (case nr_sdap_get_entity st u p of
        None \<Rightarrow> Inl Assert_fatal
      | Some e \<Rightarrow> res_bind (nr_sdap_tun_bind sock q e) (\<lambda>e. Inr (put_entity u p e st)))"
| "sdap_op_step aes qsort (S_tun_read u p pkt) st =
     (case nr_sdap_get_entity st u p of
        None \<Rightarrow> Inr st
      | Some e \<Rightarrow> res_bind (sdap_tun_read aes e pkt st) (\<lambda>(_, st). Inr st))"

fun sdap_ops :: "aes_lib \<Rightarrow> qsort \<Rightarrow> sdap_op list \<Rightarrow> sdap_layer \<Rightarrow> sdap_layer res" where
  "sdap_ops aes qsort [] st = Inr st"
| "sdap_ops aes qsort (op # ops) st = res_bind (sdap_op_step aes qsort op st) (sdap_ops aes qsort ops)"

section \<open>The invariant\<close>

text \<open>What the C library promises of \<open>qsort\<close>: the same elements, in the order of the comparison.\<close>

definition qsort_ok :: "qsort \<Rightarrow> bool" where
  "qsort_ok qsort \<longleftrightarrow> (\<forall>l. length (qsort l) = length l \<and> set (qsort l) = set l \<and> sorted (map precedence (qsort l)))"

text \<open>Flows of the same bearer have the same role; bearers in \<open>D\<close> are exempt.\<close>

definition rows_by :: "(int \<Rightarrow> int) \<Rightarrow> int set \<Rightarrow> qfi2drb list \<Rightarrow> bool" where
  "rows_by f D t \<longleftrightarrow> (\<forall>r \<in> set t. map_drb_id r \<noteq> 0 \<and> map_drb_id r \<notin> D \<longrightarrow> map_role r = f (map_drb_id r))"

definition rules_inv :: "nr_sdap_entity \<Rightarrow> bool" where
  "rules_inv e \<longleftrightarrow> sorted (map precedence (qos_rules e)) \<and> length (qos_rules e) \<le> MAX_NUM_SDAP_QOS_RULES
     \<and> (use_packet_filters e \<longleftrightarrow> qos_rules e \<noteq> [])"

definition table_inv :: "nr_sdap_entity \<Rightarrow> bool" where
  "table_inv e \<longleftrightarrow> length (qfi2drb_table e) = SDAP_MAX_QFI \<and> (\<exists>f. rows_by f {} (qfi2drb_table e))"

definition sdap_entity_ok :: "nr_sdap_entity \<Rightarrow> bool" where
  "sdap_entity_ok e \<longleftrightarrow> table_inv e \<and> rules_inv e"

definition key :: "nr_sdap_entity \<Rightarrow> u64 \<times> int" where
  "key e = (tun_ue_id e, tun_pdusession_id e)"

definition sdap_ok :: "sdap_layer \<Rightarrow> bool" where
  "sdap_ok st \<longleftrightarrow> list_all sdap_entity_ok (sdap_entities st) \<and> distinct (map key (sdap_entities st))"

definition new_sdap_layer :: "pdcp_layer \<Rightarrow> sdap_layer" where
  "new_sdap_layer m = \<lparr>sdap_entities = [], sdap_outs = [], pdcp = m\<rparr>"

lemma new_sdap_layer_ok: "sdap_ok (new_sdap_layer m)"
  by (simp add: sdap_ok_def new_sdap_layer_def)

section \<open>The list of entities\<close>

lemma is_entity_key: "is_entity u p e \<longleftrightarrow> key e = (u, p)"
  by (auto simp: is_entity_def key_def)

lemma get_entity_found:
  "nr_sdap_get_entity st u p = Some e \<Longrightarrow> e \<in> set (sdap_entities st) \<and> key e = (u, p)"
  by (auto simp: nr_sdap_get_entity_def find_Some_iff is_entity_key)

lemma get_entity_none:
  "nr_sdap_get_entity st u p = None \<Longrightarrow> (u, p) \<notin> key ` set (sdap_entities st)"
  by (auto simp: nr_sdap_get_entity_def find_None_iff is_entity_key)

lemma entity_found_ok: "sdap_ok st \<Longrightarrow> nr_sdap_get_entity st u p = Some e \<Longrightarrow> sdap_entity_ok e"
  using get_entity_found by (auto simp: sdap_ok_def list_all_iff)

lemma update_first_set: "set (update_first P (\<lambda>_. x) l) \<subseteq> insert x (set l)"
  by (induction l) auto

lemma update_first_key: "(\<And>y. P y \<Longrightarrow> f y = f x) \<Longrightarrow> map f (update_first P (\<lambda>_. x) l) = map f l"
  by (induction l) auto

lemma erase_first_set: "set (erase_first P l) \<subseteq> set l"
  by (induction l) auto

lemma erase_first_distinct: "distinct (map f l) \<Longrightarrow> distinct (map f (erase_first P l))"
proof (induction l)
  case (Cons x l)
  then show ?case using erase_first_set [of P l] by auto
qed simp

lemma put_entity_ok: "sdap_ok st \<Longrightarrow> sdap_entity_ok e \<Longrightarrow> key e = (u, p) \<Longrightarrow> sdap_ok (put_entity u p e st)"
  using update_first_set [of "is_entity u p" e "sdap_entities st"]
    update_first_key [of "is_entity u p" key e "sdap_entities st"]
  by (auto simp: sdap_ok_def put_entity_def list_all_iff is_entity_key)

lemma sdap_ok_frame: "sdap_entities st' = sdap_entities st \<Longrightarrow> sdap_ok st' = sdap_ok st"
  by (simp add: sdap_ok_def)

lemma get_entity_frame: "sdap_entities st' = sdap_entities st \<Longrightarrow> nr_sdap_get_entity st' = nr_sdap_get_entity st"
  by (simp add: nr_sdap_get_entity_def fun_eq_iff)

section \<open>Calls to PDCP leave the entities alone\<close>

lemma submit_frame: "submit aes c sf d mui pdu st = Inr (ok, st') \<Longrightarrow> sdap_entities st' = sdap_entities st"
  by (auto simp: submit_def res_bind_Inr_iff)

lemma end_marker_frame: "end_marker aes e mt u q st = Inr st' \<Longrightarrow> sdap_entities st' = sdap_entities st"
  by (auto simp: end_marker_def nr_sdap_submit_ctrl_pdu_def nr_pdcp_submit_sdap_ctrl_pdu_def res_bind_Inr_iff split: if_splits)

lemma tx_entity_frame:
  "nr_sdap_tx_entity aes e c sf mui sdu q rqi st = Inr (ok, st') \<Longrightarrow> sdap_entities st' = sdap_entities st"
  by (auto simp: nr_sdap_tx_entity_def res_bind_Inr_iff Let_def split: option.splits if_splits dest: submit_frame)

lemma ue_control_pdu_frame:
  "ue_control_pdu_loop aes e u d qs st = Inr st' \<Longrightarrow> sdap_entities st' = sdap_entities st"
proof (induction qs arbitrary: st)
  case (Cons q qs)
  then show ?case by (fastforce simp: res_bind_Inr_iff Let_def split: if_splits dest: end_marker_frame)
qed simp

section \<open>The mapping table\<close>

lemma c_storeD: "c_store l i x = Inr t \<Longrightarrow> t = l[nat i := x] \<and> nat i < length l"
  by (auto simp: c_store_def split: if_splits)

lemma rows_by_update: "rows_by f D t \<Longrightarrow> (map_drb_id r \<noteq> 0 \<Longrightarrow> map_drb_id r \<notin> D \<Longrightarrow> map_role r = f (map_drb_id r)) \<Longrightarrow> rows_by f D (t[i := r])"
  using set_update_subset_insert [of t i r] by (auto simp: rows_by_def)

lemma add_flows_rows:
  assumes "add_flows d role qs e = Inr e'" "rows_by f D (qfi2drb_table e)" "d \<in> D \<or> f d = role mod 256"
  shows "rows_by f D (qfi2drb_table e') \<and> length (qfi2drb_table e') = length (qfi2drb_table e)
    \<and> e' = e\<lparr>qfi2drb_table := qfi2drb_table e'\<rparr>"
  using assms
proof (induction qs arbitrary: e)
  case (Cons q qs)
  from Cons.prems(1) obtain e1 where e1: "add_flows d role qs e1 = Inr e'"
    and step: "(if uint (c_uint8 q) < int SDAP_MAX_QFI \<and> d > SDAP_NO_MAPPING_RULE \<and> d \<le> int MAX_DRBS_PER_UE
       then nr_sdap_qfi2drb_map_add e (c_uint8 q) d role else Inr e) = Inr e1"
    by (auto simp: res_bind_Inr_iff)
  have "rows_by f D (qfi2drb_table e1) \<and> length (qfi2drb_table e1) = length (qfi2drb_table e) \<and> e1 = e\<lparr>qfi2drb_table := qfi2drb_table e1\<rparr>"
    using step Cons.prems(2,3)
    by (auto simp: nr_sdap_qfi2drb_map_add_def res_bind_Inr_iff SDAP_NO_MAPPING_RULE_def MAX_DRBS_PER_UE_def
        dest!: c_storeD intro!: rows_by_update split: if_splits)
  then show ?case using Cons.IH [OF e1] Cons.prems(3) by (metis (no_types, lifting) nr_sdap_entity.surjective nr_sdap_entity.update_convs(7))
qed simp

lemma rm_flows_rows:
  assumes "rm_flows qs e = Inr e'" "rows_by f D (qfi2drb_table e)"
  shows "rows_by f D (qfi2drb_table e') \<and> length (qfi2drb_table e') = length (qfi2drb_table e)
    \<and> e' = e\<lparr>qfi2drb_table := qfi2drb_table e'\<rparr>"
  using assms
proof (induction qs arbitrary: e)
  case (Cons q qs)
  from Cons.prems(1) obtain e1 where e1: "rm_flows qs e1 = Inr e'" and step: "nr_sdap_qfi2drb_map_del e (c_uint8 q) = Inr e1"
    by (auto simp: res_bind_Inr_iff)
  have "rows_by f D (qfi2drb_table e1) \<and> length (qfi2drb_table e1) = length (qfi2drb_table e) \<and> e1 = e\<lparr>qfi2drb_table := qfi2drb_table e1\<rparr>"
    using step Cons.prems(2)
    by (auto simp: nr_sdap_qfi2drb_map_del_def res_bind_Inr_iff no_rule_def SDAP_NO_MAPPING_RULE_def
        dest!: c_storeD intro!: rows_by_update)
  then show ?case using Cons.IH [OF e1] by (metis (no_types, lifting) nr_sdap_entity.surjective nr_sdap_entity.update_convs(7))
qed simp

lemma share_role_rows:
  assumes "rows_by f {d} (qfi2drb_table e)"
  shows "rows_by (f(d := role)) {} (qfi2drb_table (share_role d role e))"
  using assms by (auto simp: rows_by_def share_role_def)

text \<open>What an operation on an entity keeps.\<close>

definition keeps :: "nr_sdap_entity \<Rightarrow> nr_sdap_entity \<Rightarrow> bool" where
  "keeps e e' \<longleftrightarrow> (sdap_entity_ok e \<longrightarrow> sdap_entity_ok e') \<and> key e' = key e"

lemma keepsI_table:
  assumes "e' = e\<lparr>qfi2drb_table := t\<rparr>" "table_inv e \<Longrightarrow> table_inv e'"
  shows "keeps e e'"
  using assms by (auto simp: keeps_def sdap_entity_ok_def rules_inv_def key_def)

lemma rows_by_exempt: "rows_by f {} t \<Longrightarrow> rows_by f D t"
  by (auto simp: rows_by_def)

lemma map_update_keeps:
  assumes "nr_sdap_qfi2drb_map_update e sdap = Inr e'"
  shows "keeps e e'"
proof -
  let ?d = "sc_drb_id sdap"
  from assms obtain e1 e2 where e1: "add_flows ?d (sc_role sdap) (mappedQFIs2Add sdap) e = Inr e1"
    and e2: "rm_flows (mappedQFIs2Release sdap) e1 = Inr e2" and e': "e' = share_role ?d (sc_role sdap) e2"
    by (auto simp: nr_sdap_qfi2drb_map_update_def nr_sdap_add_qos_flows_to_drb_def nr_sdap_rm_qos_flows_from_drb_def
        res_bind_Inr_iff Let_def split: if_splits)
  have "rows_by f UNIV t" for f t by (simp add: rows_by_def)
  then have frame: "e1 = e\<lparr>qfi2drb_table := qfi2drb_table e1\<rparr>" "e2 = e1\<lparr>qfi2drb_table := qfi2drb_table e2\<rparr>"
    using add_flows_rows [OF e1, of undefined UNIV] rm_flows_rows [OF e2, of undefined UNIV] by simp_all
  have "e' = e\<lparr>qfi2drb_table := qfi2drb_table e'\<rparr>"
    unfolding e' by (subst frame(2), subst frame(1)) (simp add: share_role_def)
  moreover have "table_inv e'" if inv: "table_inv e"
  proof -
    from inv obtain f where f: "rows_by f {} (qfi2drb_table e)" and len: "length (qfi2drb_table e) = SDAP_MAX_QFI"
      by (auto simp: table_inv_def)
    have 1: "rows_by f {?d} (qfi2drb_table e1) \<and> length (qfi2drb_table e1) = SDAP_MAX_QFI"
      using add_flows_rows [OF e1 rows_by_exempt [OF f], of "{?d}"] len by simp
    have 2: "rows_by f {?d} (qfi2drb_table e2) \<and> length (qfi2drb_table e2) = SDAP_MAX_QFI"
      using rm_flows_rows [OF e2, of f "{?d}"] 1 by simp
    show ?thesis using share_role_rows [of f ?d e2] 2 by (auto simp: table_inv_def e' share_role_def)
  qed
  ultimately show ?thesis by (rule keepsI_table)
qed

lemma drb_lookup_role:
  assumes "nr_sdap_drb_lookup e d = Some r" "rows_by f {} (qfi2drb_table e)" "d \<noteq> 0"
  shows "rows_by (f(d := map_role r)) {} (qfi2drb_table e)"
proof (cases "find (\<lambda>r. map_drb_id r = d) (qfi2drb_table e)")
  case None
  then show ?thesis using assms(2) by (auto simp: rows_by_def find_None_iff)
next
  case (Some x)
  then have "x \<in> set (qfi2drb_table e)" "map_drb_id x = d" by (auto simp: find_Some_iff)
  moreover have "r = x" using Some assms(1) by (simp add: nr_sdap_drb_lookup_def)
  ultimately show ?thesis using assms(2,3) by (auto simp: rows_by_def)
qed

lemma table_update_inv:
  assumes "table_inv e" "nr_sdap_drb_lookup e d = Some r"
  shows "table_inv (e\<lparr>qfi2drb_table := (qfi2drb_table e)[i := \<lparr>map_drb_id = d, map_role = map_role r\<rparr>]\<rparr>)"
proof -
  from assms(1) obtain f where f: "rows_by f {} (qfi2drb_table e)" by (auto simp: table_inv_def)
  have "\<exists>g. rows_by g {} ((qfi2drb_table e)[i := \<lparr>map_drb_id = d, map_role = map_role r\<rparr>])"
  proof (cases "d = 0")
    case True
    then show ?thesis using rows_by_update [OF f, of "\<lparr>map_drb_id = d, map_role = map_role r\<rparr>" i] by auto
  next
    case False
    then show ?thesis using rows_by_update [OF drb_lookup_role [OF assms(2) f], of "\<lparr>map_drb_id = d, map_role = map_role r\<rparr>" i] by auto
  qed
  then show ?thesis using assms(1) by (simp add: table_inv_def)
qed

lemma reflective_keeps:
  assumes "reflective_mapping aes e (map_role r) d u q st = Inr (e', st')" "nr_sdap_drb_lookup e d = Some r"
  shows "keeps e e' \<and> sdap_entities st' = sdap_entities st"
proof -
  from assms(1) have "e' = e\<lparr>qfi2drb_table := (qfi2drb_table e)[nat (uint q) := \<lparr>map_drb_id = d, map_role = map_role r\<rparr>]\<rparr>"
    "sdap_entities st' = sdap_entities st"
    by (auto simp: reflective_mapping_def res_bind_Inr_iff dest!: c_storeD end_marker_frame split: if_splits)
  then show ?thesis using table_update_inv [OF _ assms(2)] by (auto intro!: keepsI_table)
qed

lemma rx_entity_keeps:
  assumes "nr_sdap_rx_entity aes e d gnb p u buf st = Inr (e', st')"
  shows "keeps e e' \<and> sdap_entities st' = sdap_entities st"
proof -
  have refl: "keeps e e" by (simp add: keeps_def)
  have gnb: "sdap_entities x = sdap_entities st" if "sdap_rx_gnb e role d p u buf st = Inr x" for role x
    using that by (auto simp: sdap_rx_gnb_def res_bind_Inr_iff Let_def split: if_splits option.splits)
  have ue: "keeps e x \<and> sdap_entities y = sdap_entities st"
    if "sdap_rx_ue aes e (map_role r) d u buf st = Inr (x, y)" "nr_sdap_drb_lookup e d = Some r" for r x y
    using that refl by (auto simp: sdap_rx_ue_def res_bind_Inr_iff split: if_splits dest: reflective_keeps)
  show ?thesis using assms refl gnb ue
    by (auto simp: nr_sdap_rx_entity_def res_bind_Inr_iff split: option.splits if_splits)
qed

section \<open>Every operation keeps the invariant\<close>

lemma qfi2drb_map_update_keeps:
  assumes "qfi2drb_map_update aes e sdap st = Inr (e', st')"
  shows "keeps e e' \<and> sdap_entities st' = sdap_entities st"
  using assms
  by (auto simp: qfi2drb_map_update_def nr_sdap_ue_control_pdu_config_def res_bind_Inr_iff
      dest: map_update_keeps ue_control_pdu_frame split: if_splits)

lemma put_keeps:
  assumes "sdap_ok st" "nr_sdap_get_entity st u p = Some e" "keeps e e' \<and> sdap_entities st' = sdap_entities st"
  shows "sdap_ok (put_entity u p e' st')"
  using assms entity_found_ok [OF assms(1,2)] get_entity_found [OF assms(2)] sdap_ok_frame [of st' st]
  by (auto simp: keeps_def intro: put_entity_ok)

lemma release_keeps:
  "keeps e (e\<lparr>qfi2drb_table := map (\<lambda>r. if map_drb_id r = d then r\<lparr>map_drb_id := SDAP_NO_MAPPING_RULE\<rparr> else r) (qfi2drb_table e)\<rparr>)"
  by (rule keepsI_table, rule refl) (auto simp: table_inv_def rows_by_def SDAP_NO_MAPPING_RULE_def)

lemma tun_bind_keeps: "nr_sdap_tun_bind sock q e = Inr e' \<Longrightarrow> keeps e e'"
  by (auto simp: nr_sdap_tun_bind_def keeps_def sdap_entity_ok_def table_inv_def rules_inv_def key_def split: if_splits)

text \<open>For the rules: the table and the key stay, so only the rules' own invariant is at stake.\<close>

lemma keepsI_rules:
  assumes "rules_inv e \<Longrightarrow> rules_inv e'" "qfi2drb_table e' = qfi2drb_table e" "key e' = key e"
  shows "keeps e e'"
  using assms by (auto simp: keeps_def sdap_entity_ok_def table_inv_def)

lemma update_first_length: "length (update_first P f l) = length l"
  by (induction l) auto

lemma update_first_Nil: "update_first P f l = [] \<longleftrightarrow> l = []"
  by (cases l) auto

lemma update_first_map: "(\<And>x. g (f x) = g x) \<Longrightarrow> map g (update_first P f l) = map g l"
  by (induction l) auto

lemma erase_first_sorted: "sorted (map g l) \<Longrightarrow> sorted (map g (erase_first P l))"
proof (induction l)
  case (Cons x l)
  then show ?case using erase_first_set [of P l] by auto
qed simp

lemma erase_first_length: "length (erase_first P l) \<le> length l"
  by (induction l) auto

lemma qsort_Nil: "qsort_ok qsort \<Longrightarrow> qsort l = [] \<longleftrightarrow> l = []"
  by (metis qsort_ok_def length_0_conv)

lemma rule_add_keeps: "qsort_ok qsort \<Longrightarrow> keeps e (qos_rule_add qsort i q prec dflt pfs e)"
  by (rule keepsI_rules) (auto simp: qos_rule_add_def rules_inv_def key_def Let_def qsort_Nil, auto simp: qsort_ok_def)

lemma rule_remove_keeps: "keeps e (qos_rule_remove i e)"
  using erase_first_length [of "\<lambda>r. rule_id r = i" "qos_rules e"]
  by (intro keepsI_rules) (auto simp: qos_rule_remove_def rules_inv_def key_def Let_def erase_first_sorted split: option.splits)

lemma rule_update_keeps: "qsort_ok qsort \<Longrightarrow> keeps e (qos_rule_update qsort i q prec dflt pfs rep e)"
  by (rule keepsI_rules)
    (auto simp: qos_rule_update_def rules_inv_def key_def Let_def qsort_Nil update_first_Nil split: option.splits,
     auto simp: qsort_ok_def update_first_length)

lemma rule_delete_pf_keeps: "keeps e (qos_rule_delete_pf i ids e)"
  by (rule keepsI_rules) (auto simp: qos_rule_delete_pf_def rules_inv_def key_def update_first_length update_first_Nil update_first_map)

lemma on_ue_entity_ok: "sdap_ok st \<Longrightarrow> (\<And>e. keeps e (f e)) \<Longrightarrow> sdap_ok (on_ue_entity u p f st)"
  by (auto simp: on_ue_entity_def intro: put_keeps split: option.splits)

lemma fresh_entity_ok:
  assumes "add_flows (sc_drb_id sdap) (sc_role sdap) qs (fresh_entity gnb u sdap) = Inr e"
  shows "sdap_entity_ok e \<and> key e = (u, sc_pdusession_id sdap)"
proof -
  have "rows_by (\<lambda>_. sc_role sdap mod 256) {} (qfi2drb_table (fresh_entity gnb u sdap))"
    by (simp add: rows_by_def fresh_entity_def no_rule_def SDAP_NO_MAPPING_RULE_def)
  from add_flows_rows [OF assms this]
  have e: "rows_by (\<lambda>_. sc_role sdap mod 256) {} (qfi2drb_table e)" "length (qfi2drb_table e) = SDAP_MAX_QFI"
    "e = (fresh_entity gnb u sdap)\<lparr>qfi2drb_table := qfi2drb_table e\<rparr>"
    by (simp_all add: fresh_entity_def)
  have "rules_inv e" "key e = (u, sc_pdusession_id sdap)"
    by (subst e(3), simp add: rules_inv_def key_def fresh_entity_def)+
  then show ?thesis using e(1,2) by (auto simp: sdap_entity_ok_def table_inv_def)
qed

lemma add_entity_sdap_ok:
  assumes "sdap_ok st" "nr_sdap_get_entity st u (sc_pdusession_id sdap) = None" "nr_sdap_add_entity fd gnb u sdap st = Inr st'"
  shows "sdap_ok st'"
proof -
  from assms(3) obtain e where e: "add_flows (sc_drb_id sdap) (sc_role sdap) (mappedQFIs2Add sdap) (fresh_entity gnb u sdap) = Inr e"
    and "st' = st\<lparr>sdap_entities := e # sdap_entities st\<rparr> \<or> st' = st\<lparr>sdap_entities := e\<lparr>tun_sock := fd\<rparr> # sdap_entities st\<rparr>"
    by (auto simp: nr_sdap_add_entity_def nr_sdap_add_qos_flows_to_drb_def start_sdap_tun_gnb_first_ue_default_pdu_session_def
        res_bind_Inr_iff split: if_splits)
  then obtain e' where e': "e' = e \<or> e' = e\<lparr>tun_sock := fd\<rparr>" and st': "st' = st\<lparr>sdap_entities := e' # sdap_entities st\<rparr>"
    by blast
  have "sdap_entity_ok e' \<and> key e' = (u, sc_pdusession_id sdap)"
    using fresh_entity_ok [OF e] e' by (auto simp: sdap_entity_ok_def table_inv_def rules_inv_def key_def)
  then show ?thesis using assms(1) get_entity_none [OF assms(2)] by (auto simp: sdap_ok_def st')
qed

lemma remove_ip_if_frame: "sdap_entities (remove_ip_if e st) = sdap_entities st"
  by (simp add: remove_ip_if_def)

lemma remove_ip_ifs_frame: "sdap_entities (fold remove_ip_if l st) = sdap_entities st"
  by (induction l arbitrary: st) (simp_all add: remove_ip_if_frame)

lemma delete_entities: "sdap_entities (snd (nr_sdap_delete_entity u p st)) \<in> {sdap_entities st, erase_first (is_entity u p) (sdap_entities st)}"
  by (auto simp: nr_sdap_delete_entity_def remove_ip_if_frame split: option.splits)

lemma delete_ue_entities:
  "sdap_entities (snd (nr_sdap_delete_ue_entities u st)) \<in> {sdap_entities st, filter (\<lambda>e. tun_ue_id e \<noteq> u) (sdap_entities st)}"
  by (auto simp: nr_sdap_delete_ue_entities_def Let_def remove_ip_ifs_frame)

lemma delete_entity_ok: "sdap_ok st \<Longrightarrow> sdap_ok (snd (nr_sdap_delete_entity u p st))"
  using delete_entities [of u p st] erase_first_set [of "is_entity u p" "sdap_entities st"]
  by (auto simp: sdap_ok_def list_all_iff intro: erase_first_distinct)

lemma delete_ue_ok: "sdap_ok st \<Longrightarrow> sdap_ok (snd (nr_sdap_delete_ue_entities u st))"
  using delete_ue_entities [of u st] by (auto simp: sdap_ok_def list_all_iff distinct_map_filter)

lemma sdap_op_step_ok:
  assumes "qsort_ok qsort" "sdap_ok st" "sdap_op_step aes qsort op st = Inr st'"
  shows "sdap_ok st'"
proof (cases op)
  case (S_addmod fd gnb u sdap)
  then show ?thesis using assms(2,3)
    by (auto simp: nr_sdap_addmod_entity_def res_bind_Inr_iff split: option.splits dest!: qfi2drb_map_update_keeps intro: put_keeps add_entity_sdap_ok)
next
  case (S_update_flows u sdap)
  then show ?thesis using assms(2,3)
    by (auto simp: nr_sdap_entity_update_qos_flows_def res_bind_Inr_iff Let_def split: option.splits if_splits dest!: qfi2drb_map_update_keeps intro: put_keeps)
next
  case (S_reconfigure c u p d)
  then show ?thesis using assms(2,3)
    by (auto simp: nr_reconfigure_sdap_entity_def res_bind_Inr_iff split: option.splits dest!: qfi2drb_map_update_keeps intro: put_keeps)
next
  case (S_release_drb u d p)
  then show ?thesis using assms(2,3) by (auto simp: nr_sdap_release_drb_def split: option.splits intro!: put_keeps release_keeps)
next
  case (S_data_req c u sf mui sdu q rqi p)
  then show ?thesis using assms(2,3) by (auto simp: sdap_data_req_def res_bind_Inr_iff split: option.splits dest!: tx_entity_frame sdap_ok_frame)
next
  case (S_data_ind d gnb p u buf)
  then show ?thesis using assms(2,3)
    by (auto simp: sdap_data_ind_def res_bind_Inr_iff split: option.splits dest!: rx_entity_keeps intro: put_keeps)
next
  case (S_tun_bind u p sock q)
  then show ?thesis using assms(2,3) by (auto simp: res_bind_Inr_iff split: option.splits dest!: tun_bind_keeps intro: put_keeps)
next
  case (S_tun_read u p pkt)
  then show ?thesis using assms(2,3) by (auto simp: sdap_tun_read_def res_bind_Inr_iff split: option.splits dest!: tx_entity_frame sdap_ok_frame)
qed (use assms in \<open>auto simp: delete_entity_ok delete_ue_ok nr_sdap_qos_rule_add_def nr_sdap_qos_rule_remove_def
      nr_sdap_qos_rule_update_def nr_sdap_qos_rule_delete_pf_def
      intro!: on_ue_entity_ok rule_add_keeps rule_remove_keeps rule_update_keeps rule_delete_pf_keeps\<close>)

lemma sdap_ops_ok: "qsort_ok qsort \<Longrightarrow> sdap_ok st \<Longrightarrow> sdap_ops aes qsort ops st = Inr st' \<Longrightarrow> sdap_ok st'"
  by (induction ops arbitrary: st) (auto simp: res_bind_Inr_iff dest: sdap_op_step_ok)

end
