(* ===== verification/SDAP_Flows.thy ===== *)
theory SDAP_Flows
  imports SDAP_Layer
begin

text \<open>
  What the SDAP layer does with packets and flows: the consistency of the layer, the classification of the uplink,
  the header on the way between the two sides, the reflective mapping, and the release of bearers and entities.
\<close>

section \<open>A user with two rules\<close>

lemma sort_key_ok: "qsort_ok (sort_key precedence)"
  by (simp add: qsort_ok_def)

definition demo_sdap_config :: sdap_config where
  "demo_sdap_config = \<lparr>sc_pdusession_id = 5, sc_drb_id = 1, sc_role = 9, sc_defaultDRB = True, mappedQFIs2Add = [9], mappedQFIs2Release = []\<rparr>"

definition demo_sdap_ops :: "sdap_op list" where
  "demo_sdap_ops =
     [S_addmod 0 False 7 demo_sdap_config,
      S_rule_add 7 5 1 12 20 False [\<lparr>pf_id = 1, pf_direction = PF_DIR_UPLINK, components = [PF_PROTOCOL_ID_NEXT_HDR 17]\<rparr>],
      S_rule_add 7 5 2 9 10 True [], S_tun_bind 7 5 3 9]"

definition demo_sdap_entity :: nr_sdap_entity where
  "demo_sdap_entity =
     \<lparr>tun_ue_id = 7, tun_pdusession_id = 5, tun_sock = 3, tun_is_gnb = False, ent_qfi = 9,
      default_drb = \<lparr>map_drb_id = 1, map_role = 9\<rparr>,
      qfi2drb_table = (replicate 64 \<lparr>map_drb_id = 0, map_role = 0\<rparr>)[9 := \<lparr>map_drb_id = 1, map_role = 9\<rparr>],
      qos_rules =
        [\<lparr>rule_qfi = 9, rule_id = 2, precedence = 10, is_default = True, packet_filters = []\<rparr>,
         \<lparr>rule_qfi = 12, rule_id = 1, precedence = 20, is_default = False,
          packet_filters = [\<lparr>pf_id = 1, pf_direction = PF_DIR_UPLINK, components = [PF_PROTOCOL_ID_NEXT_HDR 17]\<rparr>]\<rparr>],
      use_packet_filters = True\<rparr>"

definition demo_sdap_fresh :: nr_sdap_entity where
  "demo_sdap_fresh =
     demo_sdap_entity\<lparr>tun_sock := -1, ent_qfi := 0, qos_rules := [], use_packet_filters := False\<rparr>"

lemma demo_sdap_steps:
  "nr_sdap_add_qos_flows_to_drb (fresh_entity False 7 demo_sdap_config) demo_sdap_config = Inr demo_sdap_fresh"
  "nr_sdap_tun_bind 3 9 (qos_rule_add (sort_key precedence) 2 9 10 True []
     (qos_rule_add (sort_key precedence) 1 12 20 False
       [\<lparr>pf_id = 1, pf_direction = PF_DIR_UPLINK, components = [PF_PROTOCOL_ID_NEXT_HDR 17]\<rparr>] demo_sdap_fresh)) = Inr demo_sdap_entity"
  by code_simp+

lemma demo_sdap_keys:
  "is_entity 7 5 demo_sdap_fresh" "\<not> tun_is_gnb demo_sdap_fresh"
  "is_entity u p (qos_rule_add s i q prec d pfs e) = is_entity u p e" "tun_is_gnb (qos_rule_add s i q prec d pfs e) = tun_is_gnb e"
  by (simp_all add: is_entity_def demo_sdap_fresh_def demo_sdap_entity_def qos_rule_add_def Let_def)

lemma demo_sdap_run:
  "sdap_ops aes (sort_key precedence) demo_sdap_ops (new_sdap_layer m) = Inr \<lparr>sdap_entities = [demo_sdap_entity], sdap_outs = [], pdcp = m\<rparr>"
proof -
  have "nr_sdap_addmod_entity aes 0 False 7 demo_sdap_config (new_sdap_layer m)
     = Inr \<lparr>sdap_entities = [demo_sdap_fresh], sdap_outs = [], pdcp = m\<rparr>"
    by (simp add: nr_sdap_addmod_entity_def nr_sdap_get_entity_def new_sdap_layer_def nr_sdap_add_entity_def demo_sdap_steps(1))
      (simp add: demo_sdap_config_def)
  then show ?thesis
    by (simp add: demo_sdap_ops_def nr_sdap_qos_rule_add_def on_ue_entity_def nr_sdap_get_entity_def put_entity_def demo_sdap_keys demo_sdap_steps(2))
qed

text \<open>An IPv4 packet with protocol UDP.\<close>

definition demo_udp :: "byte list" where
  "demo_udp = [0x45, 0, 0, 28, 0, 0, 0, 0, 64, 17, 0, 0, 10, 0, 0, 1, 10, 0, 0, 2, 0, 53, 0, 53, 0, 8, 0, 0]"

lemma demo_udp_applies: "list_ex (applies demo_udp) (qos_rules demo_sdap_entity)" "list_all rule_ok (qos_rules demo_sdap_entity)"
  by code_simp+

section \<open>The header\<close>

lemma uint_less_64: "uint (q :: byte) < 64 \<Longrightarrow> q AND 0x3F = q"
proof -
  assume "uint q < 64"
  then have "uint (take_bit 6 q) = uint q" by (simp add: unsigned_take_bit_eq take_bit_int_eq_self)
  then have "take_bit 6 q = q" by (simp only: word_uint_eq_iff)
  then show ?thesis by (simp add: take_bit_eq_mask mask_eq_exp_minus_1)
qed

lemma hdr_fields:
  "hdr_QFI (ul_hdr q r dc) = q AND 0x3F" "hdr_QFI (dl_hdr q rqi rdi) = q AND 0x3F" "hdr_RDI (dl_hdr q rqi rdi) \<longleftrightarrow> rdi"
  by (cases r; cases dc; simp add: hdr_QFI_def ul_hdr_def bit.conj_disj_distrib2 and.assoc)
     (cases rqi; cases rdi; simp add: hdr_QFI_def hdr_RDI_def dl_hdr_def bit.conj_disj_distrib2 and.assoc bit_simps)+

section \<open>The table of a new entity\<close>

lemma unat_below: "uint (q :: byte) < 64 \<Longrightarrow> unat q < 64"
proof -
  assume "uint q < 64"
  then have "int (unat q) < 64" by simp
  then show ?thesis by linarith
qed

lemma add_flows_table:
  assumes "add_flows d role qs e = Inr e'" "length (qfi2drb_table e) = SDAP_MAX_QFI" "1 \<le> d" "d \<le> 32" "uint (q :: byte) < 64"
  shows "qfi2drb_table e' ! nat (uint q) = (if q \<in> c_uint8 ` set qs then \<lparr>map_drb_id = d, map_role = role mod 256\<rparr> else qfi2drb_table e ! nat (uint q))
    \<and> length (qfi2drb_table e') = SDAP_MAX_QFI \<and> default_drb e' = default_drb e"
  using assms
proof (induction qs arbitrary: e)
  case (Cons x qs)
  from Cons.prems(1) obtain e1 where e1: "add_flows d role qs e1 = Inr e'"
    and step: "(if uint (c_uint8 x) < int SDAP_MAX_QFI \<and> d > SDAP_NO_MAPPING_RULE \<and> d \<le> int MAX_DRBS_PER_UE
       then nr_sdap_qfi2drb_map_add e (c_uint8 x) d role else Inr e) = Inr e1"
    by (auto simp: res_bind_Inr_iff)
  have neq: "unat (c_uint8 x) \<noteq> unat q" if "q \<noteq> c_uint8 x" using that by (auto simp: word_unat_eq_iff)
  have "length (qfi2drb_table e1) = SDAP_MAX_QFI \<and> default_drb e1 = default_drb e
    \<and> qfi2drb_table e1 ! nat (uint q) = (if q = c_uint8 x then \<lparr>map_drb_id = d, map_role = role mod 256\<rparr> else qfi2drb_table e ! nat (uint q))"
    using step Cons.prems(2-5)
    by (auto simp: nr_sdap_qfi2drb_map_add_def res_bind_Inr_iff SDAP_NO_MAPPING_RULE_def MAX_DRBS_PER_UE_def SDAP_MAX_QFI_def nth_list_update neq
        dest!: c_storeD split: if_splits)
  then show ?case using Cons.IH [OF e1] Cons.prems(3-5) by auto
qed simp

lemma sdap_role_cases: "get_sdap_role gnb c \<in> {0..15}"
  by (simp add: get_sdap_role_def Let_def SDAP_UL_TX_def SDAP_UL_RX_def SDAP_DL_TX_def SDAP_DL_RX_def NO_SDAP_HEADER_def)

text \<open>A bearer configured with \<open>SDAP-Config\<close>: its flows, or all flows if it is the default, go to it with its role.\<close>

lemma new_entity_map:
  assumes "nr_sdap_get_config gnb c d = Inr sdap" "nr_sdap_add_qos_flows_to_drb (fresh_entity gnb u sdap) sdap = Inr e"
    "1 \<le> d" "d \<le> 32" "uint (q :: byte) < 64" "q \<in> c_uint8 ` set (mappedQFIs2Add sdap) \<or> defaultDRB c"
  shows "nr_sdap_qfi2drb e q = Inr (Some \<lparr>map_drb_id = d, map_role = get_sdap_role gnb c\<rparr>)
    \<and> nr_sdap_drb_lookup e d = Some \<lparr>map_drb_id = d, map_role = get_sdap_role gnb c\<rparr>"
proof -
  let ?r = "\<lparr>map_drb_id = d, map_role = get_sdap_role gnb c\<rparr>"
  from assms(1) have sdap: "sc_drb_id sdap = d" "sc_role sdap = get_sdap_role gnb c" "sc_defaultDRB sdap = defaultDRB c"
    by (auto simp: nr_sdap_get_config_def res_bind_Inr_iff)
  have role: "get_sdap_role gnb c mod 256 = get_sdap_role gnb c" using sdap_role_cases [of gnb c] by simp
  have add: "add_flows d (get_sdap_role gnb c) (mappedQFIs2Add sdap) (fresh_entity gnb u sdap) = Inr e"
    using assms(2) by (simp add: nr_sdap_add_qos_flows_to_drb_def sdap)
  have fresh: "length (qfi2drb_table (fresh_entity gnb u sdap)) = SDAP_MAX_QFI" by (simp add: fresh_entity_def)
  note tab = add_flows_table [OF add fresh assms(3,4)]
  have dflt: "default_drb e = (if defaultDRB c then ?r else no_rule)"
    using tab [of 0] by (simp add: fresh_entity_def sdap)
  have row: "qfi2drb_table e ! nat (uint x) = (if x \<in> c_uint8 ` set (mappedQFIs2Add sdap) then ?r else no_rule)" if "uint x < 64" for x :: byte
    using tab [OF that] that unat_below [OF that] by (auto simp: fresh_entity_def role SDAP_MAX_QFI_def)
  have len: "length (qfi2drb_table e) = 64" using tab [of 0] by (simp add: SDAP_MAX_QFI_def)
  have rows: "x = ?r \<or> x = no_rule" if x: "x \<in> set (qfi2drb_table e)" for x
  proof -
    obtain i where i: "i < 64" "x = qfi2drb_table e ! i" using x len by (auto simp: in_set_conv_nth)
    have "uint (of_nat i :: byte) = int i" using i(1) by (simp add: unsigned_of_nat take_bit_nat_eq_self)
    then show ?thesis using row [of "of_nat i"] i by (auto split: if_splits)
  qed
  have "nr_sdap_qfi2drb e q = Inr (Some ?r)"
    using row [OF assms(5)] dflt assms(3,5,6) len
    by (auto simp: nr_sdap_qfi2drb_def c_index_def SDAP_MAX_QFI_def no_rule_def SDAP_NO_MAPPING_RULE_def)
  moreover have "nr_sdap_drb_lookup e d = Some ?r"
  proof (cases "find (\<lambda>r. map_drb_id r = d) (qfi2drb_table e)")
    case None
    then have "\<not> (q \<in> c_uint8 ` set (mappedQFIs2Add sdap))"
      using row [OF assms(5)] nth_mem [of "unat q" "qfi2drb_table e"] unat_below [OF assms(5)] len by (auto simp: find_None_iff)
    then show ?thesis using None dflt assms(6) by (simp add: nr_sdap_drb_lookup_def)
  next
    case (Some x)
    then have "x \<in> set (qfi2drb_table e)" "map_drb_id x = d" by (auto simp: find_Some_iff)
    then have "x = ?r" using rows [of x] assms(3) by (auto simp: no_rule_def SDAP_NO_MAPPING_RULE_def)
    then show ?thesis using Some by (simp add: nr_sdap_drb_lookup_def)
  qed
  ultimately show ?thesis ..
qed

lemma role_bits:
  "(get_sdap_role False c AND SDAP_UL_TX \<noteq> 0) = sdap_HeaderUL c" "get_sdap_role False c AND SDAP_DL_TX = 0"
  "(get_sdap_role True c AND SDAP_UL_RX \<noteq> 0) = sdap_HeaderUL c" "get_sdap_role True c AND SDAP_UL_TX = 0"
  "(get_sdap_role True c AND SDAP_DL_TX \<noteq> 0) = sdap_HeaderDL c" "(get_sdap_role False c AND SDAP_DL_RX \<noteq> 0) = sdap_HeaderDL c"
  by (simp_all add: get_sdap_role_def Let_def SDAP_UL_TX_def SDAP_UL_RX_def SDAP_DL_TX_def SDAP_DL_RX_def NO_SDAP_HEADER_def)

section \<open>Properties\<close>

text \<open>
  (C7) The SDAP layer stays consistent. After any sequence of operations that starts with no entity, a user
  has at most one entity per PDU session; the mapping table has its 64 rows and all flows of a bearer have
  the same role; the rules are in the order of precedence and at most 64, and packet filters are used exactly
  when there are rules.
\<close>

theorem sdap_layer_consistent:
  assumes "qsort_ok qsort" "sdap_ops aes qsort ops (new_sdap_layer m) = Inr st"
  shows "distinct (map (\<lambda>e. (tun_ue_id e, tun_pdusession_id e)) (sdap_entities st))
    \<and> (\<forall>e \<in> set (sdap_entities st).
        length (qfi2drb_table e) = SDAP_MAX_QFI
        \<and> (\<forall>r \<in> set (qfi2drb_table e). \<forall>s \<in> set (qfi2drb_table e).
             map_drb_id r \<noteq> SDAP_NO_MAPPING_RULE \<longrightarrow> map_drb_id r = map_drb_id s \<longrightarrow> map_role r = map_role s)
        \<and> sorted (map precedence (qos_rules e)) \<and> length (qos_rules e) \<le> MAX_NUM_SDAP_QOS_RULES
        \<and> (use_packet_filters e \<longleftrightarrow> qos_rules e \<noteq> []))"
proof -
  have "sdap_ok st" using sdap_ops_ok [OF assms(1) new_sdap_layer_ok assms(2)] .
  moreover have "(\<lambda>e. (tun_ue_id e, tun_pdusession_id e)) = key" by (simp add: key_def fun_eq_iff)
  ultimately show ?thesis
    by (fastforce simp: sdap_ok_def list_all_iff sdap_entity_ok_def table_inv_def rules_inv_def rows_by_def SDAP_NO_MAPPING_RULE_def)
qed

theorem sdap_layer_consistent_witness:
  "sdap_ops plain_aes (sort_key precedence) demo_sdap_ops (new_sdap_layer (new_nr_pdcp_ue_manager 0 False))
     = Inr \<lparr>sdap_entities = [demo_sdap_entity], sdap_outs = [], pdcp = new_nr_pdcp_ue_manager 0 False\<rparr>
   \<and> use_packet_filters demo_sdap_entity \<and> qos_rules demo_sdap_entity \<noteq> []"
  using sdap_layer_consistent [OF sort_key_ok demo_sdap_run [of plain_aes "new_nr_pdcp_ue_manager 0 False"]]
    demo_sdap_run [of plain_aes "new_nr_pdcp_ue_manager 0 False"]
  by (simp add: demo_sdap_entity_def)



text \<open>
  (C9) The uplink header is undone at the other side. When both sides are configured with the same
  \<open>SDAP-Config\<close>, which has the uplink header, a packet of a mapped flow (any flow, on the default bearer) is
  submitted to PDCP on the bearer with one byte added, and the base station that receives this PDU on the bearer
  sends exactly the packet to the core network, marked with the same flow.
\<close>

theorem sdap_uplink_roundtrip:
  assumes "nr_sdap_get_config False cfg d = Inr uc" "nr_sdap_add_qos_flows_to_drb (fresh_entity False u uc) uc = Inr ue"
    "nr_sdap_get_config True cfg d = Inr gc" "nr_sdap_add_qos_flows_to_drb (fresh_entity True u gc) gc = Inr gnb"
    "1 \<le> d" "d \<le> 32" "sdap_HeaderUL cfg" "uint q < 64" "q \<in> c_uint8 ` set (mappedQFIs2Add uc) \<or> defaultDRB cfg"
    "sdu \<noteq> []" "length sdu \<le> 8999"
  shows "\<exists>pdu. length pdu = length sdu + 1
    \<and> nr_sdap_tx_entity aes ue c sf mui (Some sdu) q dc st = submit aes c sf d mui pdu st
    \<and> nr_sdap_rx_entity aes' gnb d True session u' pdu st'
        = Inr (gnb, st'\<lparr>sdap_outs := sdap_outs st' @ [Gtp_send_qfi u' session (uint q) sdu]\<rparr>)"
proof -
  have same: "mappedQFIs2Add gc = mappedQFIs2Add uc" using assms(1,3) by (auto simp: nr_sdap_get_config_def res_bind_Inr_iff)
  note ue = new_entity_map [OF assms(1,2,5,6,8,9)]
  note gnb = new_entity_map [OF assms(3,4,5,6,8) assms(9) [folded same]]
  have q: "hdr_QFI (ul_hdr q False dc) = q" using hdr_fields(1) uint_less_64 [OF assms(8)] by simp
  have "nr_sdap_tx_entity aes ue c sf mui (Some sdu) q dc st = submit aes c sf d mui (ul_hdr q False dc # sdu) st"
    using ue assms(7,8,10,11) role_bits(1,2) [of cfg]
    by (simp add: nr_sdap_tx_entity_def header_qfi_def SDAP_MAX_QFI_def Let_def)
  moreover have "nr_sdap_rx_entity aes' gnb d True session u' (ul_hdr q False dc # sdu) st'
        = Inr (gnb, st'\<lparr>sdap_outs := sdap_outs st' @ [Gtp_send_qfi u' session (uint q) sdu]\<rparr>)"
    using gnb assms(7) role_bits(3) [of cfg] by (simp add: nr_sdap_rx_entity_def sdap_rx_gnb_def c_index_def q)
  ultimately show ?thesis by (intro exI [of _ "ul_hdr q False dc # sdu"]) simp
qed

definition demo_SDAP_Config :: nr_SDAP_Config where
  "demo_SDAP_Config = \<lparr>pdu_Session = 5, sdap_HeaderDL = True, sdap_HeaderUL = True, defaultDRB = True,
     mappedQoS_FlowsToAdd = Some [9], mappedQoS_FlowsToRelease = None\<rparr>"

definition demo_side :: "bool \<Rightarrow> sdap_config" where
  "demo_side gnb = \<lparr>sc_pdusession_id = 5, sc_drb_id = 1, sc_role = (if gnb then 6 else 9), sc_defaultDRB = True, mappedQFIs2Add = [9], mappedQFIs2Release = []\<rparr>"

definition demo_end :: "bool \<Rightarrow> nr_sdap_entity" where
  "demo_end gnb = (fresh_entity gnb 7 (demo_side gnb))\<lparr>qfi2drb_table := (replicate 64 no_rule)[9 := \<lparr>map_drb_id = 1, map_role = sc_role (demo_side gnb)\<rparr>]\<rparr>"

lemma demo_sides:
  "nr_sdap_get_config False demo_SDAP_Config 1 = Inr (demo_side False)" "nr_sdap_get_config True demo_SDAP_Config 1 = Inr (demo_side True)"
  "nr_sdap_add_qos_flows_to_drb (fresh_entity False 7 (demo_side False)) (demo_side False) = Inr (demo_end False)"
  "nr_sdap_add_qos_flows_to_drb (fresh_entity True 7 (demo_side True)) (demo_side True) = Inr (demo_end True)"
  by code_simp+

theorem sdap_uplink_roundtrip_witness:
  "\<exists>pdu. length pdu = length [1, 2, 3 :: byte] + 1
    \<and> nr_sdap_tx_entity plain_aes (demo_end False) (sdap_ctxt False 7) False 0 (Some [1, 2, 3]) 9 True (new_sdap_layer (new_nr_pdcp_ue_manager 0 False))
      = submit plain_aes (sdap_ctxt False 7) False 1 0 pdu (new_sdap_layer (new_nr_pdcp_ue_manager 0 False))
    \<and> nr_sdap_rx_entity plain_aes (demo_end True) 1 True 5 7 pdu (new_sdap_layer (new_nr_pdcp_ue_manager 1 False))
      = Inr (demo_end True, (new_sdap_layer (new_nr_pdcp_ue_manager 1 False))\<lparr>sdap_outs := [Gtp_send_qfi 7 5 9 [1, 2, 3]]\<rparr>)"
  using sdap_uplink_roundtrip [OF demo_sides(1) demo_sides(3) demo_sides(2) demo_sides(4), of 9 "[1, 2, 3]" plain_aes "sdap_ctxt False 7" False 0 True
      "new_sdap_layer (new_nr_pdcp_ue_manager 0 False)" plain_aes 5 7 "new_sdap_layer (new_nr_pdcp_ue_manager 1 False)"]
  by (simp add: demo_SDAP_Config_def new_sdap_layer_def)

text \<open>
  (C10) The downlink header is undone at the user. When both sides are configured with the same \<open>SDAP-Config\<close>,
  which has the downlink header, a packet of a mapped flow is submitted to PDCP with one byte added, and the
  user that receives this PDU on the bearer writes exactly the packet to its TUN device, and keeps its mapping: the base station never
  asks for reflective mapping.
\<close>

theorem sdap_downlink_roundtrip:
  assumes "nr_sdap_get_config False cfg d = Inr uc" "nr_sdap_add_qos_flows_to_drb (fresh_entity False u uc) uc = Inr ue0"
    "nr_sdap_tun_bind sock uq ue0 = Inr ue" "0 \<le> sock"
    "nr_sdap_get_config True cfg d = Inr gc" "nr_sdap_add_qos_flows_to_drb (fresh_entity True u gc) gc = Inr gnb"
    "1 \<le> d" "d \<le> 32" "sdap_HeaderDL cfg" "uint q < 64" "q \<in> c_uint8 ` set (mappedQFIs2Add uc) \<or> defaultDRB cfg"
    "sdu \<noteq> []" "length sdu \<le> 8999"
  shows "\<exists>pdu. length pdu = length sdu + 1
    \<and> nr_sdap_tx_entity aes gnb c sf mui (Some sdu) q rqi st = submit aes c sf d mui pdu st
    \<and> nr_sdap_rx_entity aes' ue d False session u' pdu st' = Inr (ue, st'\<lparr>sdap_outs := sdap_outs st' @ [Tun_write sock sdu]\<rparr>)"
proof -
  have same: "mappedQFIs2Add gc = mappedQFIs2Add uc" using assms(1,5) by (auto simp: nr_sdap_get_config_def res_bind_Inr_iff)
  note ue0 = new_entity_map [OF assms(1,2,7,8,10,11)]
  note gnb = new_entity_map [OF assms(5,6,7,8,10) assms(11) [folded same]]
  have "ue = ue0\<lparr>tun_sock := sock, ent_qfi := uq\<rparr>" using assms(3,4) by (simp add: nr_sdap_tun_bind_def split: if_splits)
  then have ue: "nr_sdap_drb_lookup ue d = Some \<lparr>map_drb_id = d, map_role = get_sdap_role False cfg\<rparr>" "tun_sock ue = sock"
    using ue0 by (auto simp: nr_sdap_drb_lookup_def split: option.splits if_splits)
  have "nr_sdap_tx_entity aes gnb c sf mui (Some sdu) q rqi st = submit aes c sf d mui (dl_hdr q rqi False # sdu) st"
    using gnb assms(9,10,12,13) role_bits(4,5) [of cfg]
    by (simp add: nr_sdap_tx_entity_def header_qfi_def SDAP_MAX_QFI_def Let_def)
  moreover have "nr_sdap_rx_entity aes' ue d False session u' (dl_hdr q rqi False # sdu) st'
      = Inr (ue, st'\<lparr>sdap_outs := sdap_outs st' @ [Tun_write sock sdu]\<rparr>)"
    using ue assms(4,9) role_bits(6) [of cfg] by (simp add: nr_sdap_rx_entity_def sdap_rx_ue_def c_index_def hdr_fields)
  ultimately show ?thesis by (intro exI [of _ "dl_hdr q rqi False # sdu"]) simp
qed

lemma demo_bind: "nr_sdap_tun_bind 3 9 (demo_end False) = Inr ((demo_end False)\<lparr>tun_sock := 3, ent_qfi := 9\<rparr>)"
  by (simp add: nr_sdap_tun_bind_def SDAP_MAX_QFI_def)

theorem sdap_downlink_roundtrip_witness:
  "\<exists>pdu. length pdu = length [1, 2, 3 :: byte] + 1
    \<and> nr_sdap_tx_entity plain_aes (demo_end True) (sdap_ctxt True 7) False 0 (Some [1, 2, 3]) 9 False (new_sdap_layer (new_nr_pdcp_ue_manager 1 False))
      = submit plain_aes (sdap_ctxt True 7) False 1 0 pdu (new_sdap_layer (new_nr_pdcp_ue_manager 1 False))
    \<and> nr_sdap_rx_entity plain_aes ((demo_end False)\<lparr>tun_sock := 3, ent_qfi := 9\<rparr>) 1 False 5 7 pdu (new_sdap_layer (new_nr_pdcp_ue_manager 0 False))
      = Inr ((demo_end False)\<lparr>tun_sock := 3, ent_qfi := 9\<rparr>, (new_sdap_layer (new_nr_pdcp_ue_manager 0 False))\<lparr>sdap_outs := [Tun_write 3 [1, 2, 3]]\<rparr>)"
  using sdap_downlink_roundtrip [OF demo_sides(1) demo_sides(3) demo_bind _ demo_sides(2) demo_sides(4), of 9 "[1, 2, 3]" plain_aes "sdap_ctxt True 7" False 0 False
      "new_sdap_layer (new_nr_pdcp_ue_manager 1 False)" plain_aes 5 7 "new_sdap_layer (new_nr_pdcp_ue_manager 0 False)"]
  by (simp add: demo_SDAP_Config_def new_sdap_layer_def)

text \<open>
  (C14) The first downlink packet that asks for reflective mapping sends two end markers. A user without a stored rule
  for the flow, but with a default bearer, gets such a packet on a bearer with the downlink header: the same end marker
  goes twice to the default bearer, once because there is no rule, and once more because the rule (none) differs
  from the bearer of the packet. Then the rule is stored and the packet is delivered.
\<close>

theorem sdap_reflective_two_markers:
  assumes "nr_sdap_drb_lookup e d = Some r" "map_role r AND SDAP_DL_RX \<noteq> 0" "hdr_RDI h"
    "c_index (qfi2drb_table e) (uint (hdr_QFI h)) = Inr row" "map_drb_id row = 0" "map_drb_id (default_drb e) \<noteq> 0" "d \<noteq> 0"
    "0 \<le> tun_sock e" "uint (hdr_QFI h) < 64"
  shows "nr_sdap_rx_entity aes e d False session u (h # sdu) st =
    (let marker = nr_pdcp_submit_sdap_ctrl_pdu aes u (map_drb_id (default_drb e)) (nr_sdap_construct_ctrl_pdu (hdr_QFI h))
     in res_bind (marker st) (\<lambda>st. res_bind (marker st) (\<lambda>st.
        Inr (e\<lparr>qfi2drb_table := (qfi2drb_table e)[unat (hdr_QFI h) := \<lparr>map_drb_id = d, map_role = map_role r\<rparr>]\<rparr>,
             st\<lparr>sdap_outs := sdap_outs st @ [Tun_write (tun_sock e) sdu]\<rparr>))))"
proof -
  let ?q = "hdr_QFI h" let ?D = "map_drb_id (default_drb e)"
  have def: "end_marker aes e mt u ?q st = nr_pdcp_submit_sdap_ctrl_pdu aes u ?D (nr_sdap_construct_ctrl_pdu ?q) st" for mt st
    using assms(4-6,9) by (cases mt) (simp_all add: end_marker_def nr_sdap_map_ctrl_pdu_def nr_sdap_qfi2drb_def nr_sdap_submit_ctrl_pdu_def SDAP_MAX_QFI_def)
  have store: "c_store (qfi2drb_table e) (uint ?q) x = Inr ((qfi2drb_table e)[unat ?q := x])" for x
    using assms(4) by (auto simp: c_index_def c_store_def split: if_splits)
  have refl: "reflective_mapping aes e (map_role r) d u ?q st =
    res_bind (nr_pdcp_submit_sdap_ctrl_pdu aes u ?D (nr_sdap_construct_ctrl_pdu ?q) st) (\<lambda>st.
    res_bind (nr_pdcp_submit_sdap_ctrl_pdu aes u ?D (nr_sdap_construct_ctrl_pdu ?q) st) (\<lambda>st.
    Inr (e\<lparr>qfi2drb_table := (qfi2drb_table e)[unat ?q := \<lparr>map_drb_id = d, map_role = map_role r\<rparr>]\<rparr>, st)))"
    using assms(4-7) by (simp add: reflective_mapping_def def store)
  have head: "c_index (h # sdu) 0 = Inr h" by (simp add: c_index_def)
  show ?thesis using assms(1-3,8)
    by (simp add: nr_sdap_rx_entity_def sdap_rx_ue_def refl head Let_def)
qed

lemma demo_reflective:
  "nr_sdap_drb_lookup demo_sdap_entity 1 = Some \<lparr>map_drb_id = 1, map_role = 9\<rparr>" "(9 :: int) AND SDAP_DL_RX \<noteq> 0" "hdr_RDI 0x8C" "hdr_QFI 0x8C = 12"
  "c_index (qfi2drb_table demo_sdap_entity) 12 = Inr \<lparr>map_drb_id = 0, map_role = 0\<rparr>" "map_drb_id (default_drb demo_sdap_entity) = 1" "tun_sock demo_sdap_entity = 3"
  by code_simp+

theorem sdap_reflective_two_markers_witness:
  "nr_sdap_rx_entity plain_aes demo_sdap_entity 1 False 5 7 [0x8C, 1, 2] (new_sdap_layer (new_nr_pdcp_ue_manager 0 False)) =
    (let marker = nr_pdcp_submit_sdap_ctrl_pdu plain_aes 7 1 (nr_sdap_construct_ctrl_pdu 12)
     in res_bind (marker (new_sdap_layer (new_nr_pdcp_ue_manager 0 False))) (\<lambda>st. res_bind (marker st) (\<lambda>st.
        Inr (demo_sdap_entity\<lparr>qfi2drb_table := (qfi2drb_table demo_sdap_entity)[12 := \<lparr>map_drb_id = 1, map_role = 9\<rparr>]\<rparr>,
             st\<lparr>sdap_outs := sdap_outs st @ [Tun_write 3 [1, 2]]\<rparr>))))"
  using sdap_reflective_two_markers [OF demo_reflective(1), where h = "0x8C" and row = "\<lparr>map_drb_id = 0, map_role = 0\<rparr>"
      and aes = plain_aes and session = 5 and u = 7 and sdu = "[1, 2]" and st = "new_sdap_layer (new_nr_pdcp_ue_manager 0 False)"] demo_reflective(2-7)
  by simp

text \<open>
  (C16) Releasing a bearer leaves it the default. After the release no row of the table maps to the bearer,
  but if it was the default bearer of the entity, it still is, and every flow that it carried is still mapped to it.
\<close>

theorem sdap_release_keeps_default:
  assumes "nr_sdap_get_entity st u p = Some e" "map_drb_id (default_drb e) = d" "d \<noteq> 0"
    "uint q < 64" "length (qfi2drb_table e) = 64" "map_drb_id (qfi2drb_table e ! unat q) = d"
  shows "\<exists>e'. nr_sdap_get_entity (nr_sdap_release_drb u d p st) u p = Some e'
    \<and> (\<forall>r \<in> set (qfi2drb_table e'). map_drb_id r \<noteq> d) \<and> nr_sdap_qfi2drb e' q = Inr (Some (default_drb e))"
proof -
  let ?e = "e\<lparr>qfi2drb_table := map (\<lambda>r. if map_drb_id r = d then r\<lparr>map_drb_id := SDAP_NO_MAPPING_RULE\<rparr> else r) (qfi2drb_table e)\<rparr>"
  have "find P (update_first P (\<lambda>_. y) l) = Some y" if "find P l = Some x" "P y" for P :: "nr_sdap_entity \<Rightarrow> bool" and x y l
    using that by (induction l) (auto split: if_splits)
  moreover have "is_entity u p ?e" using get_entity_found [OF assms(1)] by (simp add: is_entity_key key_def)
  ultimately have "nr_sdap_get_entity (nr_sdap_release_drb u d p st) u p = Some ?e"
    using assms(1) by (simp add: nr_sdap_release_drb_def nr_sdap_get_entity_def put_entity_def)
  moreover have "nr_sdap_qfi2drb ?e q = Inr (Some (default_drb e))"
    using assms(2-6) unat_below [OF assms(4)]
    by (simp add: nr_sdap_qfi2drb_def c_index_def SDAP_MAX_QFI_def SDAP_NO_MAPPING_RULE_def)
  ultimately show ?thesis using assms(3) by (intro exI [of _ ?e]) (auto simp: SDAP_NO_MAPPING_RULE_def)
qed

lemma demo_release:
  "nr_sdap_get_entity \<lparr>sdap_entities = [demo_sdap_entity], sdap_outs = [], pdcp = m\<rparr> 7 5 = Some demo_sdap_entity"
  "length (qfi2drb_table demo_sdap_entity) = 64" "qfi2drb_table demo_sdap_entity ! 9 = \<lparr>map_drb_id = 1, map_role = 9\<rparr>"
  by (simp_all add: nr_sdap_get_entity_def is_entity_def demo_sdap_entity_def)

theorem sdap_release_keeps_default_witness:
  "\<exists>e'. nr_sdap_get_entity (nr_sdap_release_drb 7 1 5
      \<lparr>sdap_entities = [demo_sdap_entity], sdap_outs = [], pdcp = new_nr_pdcp_ue_manager 0 False\<rparr>) 7 5 = Some e'
    \<and> (\<forall>r \<in> set (qfi2drb_table e'). map_drb_id r \<noteq> 1) \<and> nr_sdap_qfi2drb e' 9 = Inr (Some \<lparr>map_drb_id = 1, map_role = 9\<rparr>)"
  using sdap_release_keeps_default [OF demo_release(1) demo_reflective(6), of 9] demo_release(2,3)
  by (simp add: demo_sdap_entity_def)

text \<open>
  (C15) A packet without flow marking can stop the program. If the default bearer has a downlink header and no flow
  is mapped to it, then a packet without flow (marked 64 or more) of a legal size ends in a failed assertion.
\<close>

theorem sdap_unmarked_asserts:
  assumes "map_drb_id (default_drb e) \<noteq> 0" "map_role (default_drb e) AND SDAP_DL_TX \<noteq> 0"
    "\<forall>r \<in> set (qfi2drb_table e). map_drb_id r \<noteq> map_drb_id (default_drb e)" "64 \<le> uint q" "sdu \<noteq> []" "length sdu \<le> 8999"
  shows "nr_sdap_tx_entity aes e c sf mui (Some sdu) q rqi st = Inl Assert_fatal"
proof -
  have "first_qfi d l = length l" if "\<forall>r \<in> set l. map_drb_id r \<noteq> d" for d l using that by (induction l) auto
  then have "header_qfi e (map_drb_id (default_drb e)) q = Inl Assert_fatal" using assms(3,4) by (simp add: header_qfi_def SDAP_MAX_QFI_def)
  then show ?thesis using assms by (simp add: nr_sdap_tx_entity_def nr_sdap_qfi2drb_def SDAP_MAX_QFI_def Let_def)
qed

theorem sdap_unmarked_asserts_witness:
  "nr_sdap_tx_entity plain_aes (fresh_entity True 7 (demo_side True)) (sdap_ctxt True 7) False 0 (Some [1, 2, 3]) 255 False
     (new_sdap_layer (new_nr_pdcp_ue_manager 1 False)) = Inl Assert_fatal"
  by (rule sdap_unmarked_asserts) (simp_all add: fresh_entity_def demo_side_def SDAP_DL_TX_def no_rule_def SDAP_NO_MAPPING_RULE_def)

text \<open>
  (C12) Deleting an entity removes that one only. In every state the layer can reach, a deletion with a session in
  range succeeds exactly when the entity exists; then it is gone, and every other entity is found as before.
\<close>

theorem sdap_delete_entity_exact:
  assumes "qsort_ok qsort" "sdap_ops aes qsort ops (new_sdap_layer m) = Inr st" "0 \<le> p" "p \<le> NR_MAX_NB_PDU_SESSIONS"
  shows "(fst (nr_sdap_delete_entity u p st) \<longleftrightarrow> nr_sdap_get_entity st u p \<noteq> None)
    \<and> nr_sdap_get_entity (snd (nr_sdap_delete_entity u p st)) u p = None
    \<and> ((u', p') \<noteq> (u, p) \<longrightarrow> nr_sdap_get_entity (snd (nr_sdap_delete_entity u p st)) u' p' = nr_sdap_get_entity st u' p')"
proof -
  have "sdap_ok st" using sdap_ops_ok [OF assms(1) new_sdap_layer_ok assms(2)] .
  then have dist: "distinct (map key (sdap_entities st))" by (simp add: sdap_ok_def)
  have gone: "find (is_entity u p) (erase_first (is_entity u p) l) = None" if "distinct (map key l)" for l
    using that by (induction l) (auto simp: find_None_iff is_entity_key image_iff)
  have other: "find (is_entity u' p') (erase_first (is_entity u p) l) = find (is_entity u' p') l" if "(u', p') \<noteq> (u, p)" for l
    using that by (induction l) (auto simp: is_entity_key)
  show ?thesis using assms(3,4) gone [OF dist] other
    by (auto simp: nr_sdap_delete_entity_def nr_sdap_get_entity_def remove_ip_if_frame split: option.splits)
qed

theorem sdap_delete_entity_exact_witness:
  "nr_sdap_get_entity (snd (nr_sdap_delete_entity 7 5 \<lparr>sdap_entities = [demo_sdap_entity], sdap_outs = [], pdcp = new_nr_pdcp_ue_manager 0 False\<rparr>)) 7 5 = None"
  using sdap_delete_entity_exact [OF sort_key_ok demo_sdap_run [of plain_aes "new_nr_pdcp_ue_manager 0 False"], of 5 7]
  by (simp add: NR_MAX_NB_PDU_SESSIONS_def)

lemma qfi2drb_total: "length (qfi2drb_table e) = SDAP_MAX_QFI \<Longrightarrow> \<exists>r. nr_sdap_qfi2drb e q = Inr r"
  by (simp add: nr_sdap_qfi2drb_def c_index_def)

text \<open>
  (C11) Reception is safe and forwards at most one packet. In every state the layer can reach, an indication of PDCP with at least one byte
  (PDCP discards shorter ones) does not fault, whatever its header says, at the base station, and at a user unless
  it asks for reflective mapping; it changes no entity and hands at most one packet on, which is the SDU with or without its first byte.
\<close>

theorem sdap_receive_safe:
  assumes "qsort_ok qsort" "sdap_ops aes qsort ops (new_sdap_layer m) = Inr st" "buf \<noteq> []" "gnb \<or> \<not> hdr_RDI (hd buf)"
  shows "\<exists>outs. sdap_data_ind aes' d gnb p u buf st = Inr (st\<lparr>sdap_outs := sdap_outs st @ outs\<rparr>) \<and>
    (outs = [] \<or> (\<exists>sdu \<in> {buf, tl buf}. \<exists>q sock. outs \<in> {[Gtp_send_qfi u p q sdu], [Gtp_send u p sdu], [Tun_write sock sdu]}))"
proof (cases "nr_sdap_get_entity st u p")
  case None
  then show ?thesis by (intro exI [of _ "[]"]) (simp add: sdap_data_ind_def)
next
  case (Some e)
  have "sdap_ok st" using sdap_ops_ok [OF assms(1) new_sdap_layer_ok assms(2)] .
  then have len: "length (qfi2drb_table e) = SDAP_MAX_QFI" using entity_found_ok [OF _ Some] by (simp add: sdap_entity_ok_def table_inv_def)
  obtain h t where buf: "buf = h # t" using assms(3) by (cases buf) auto
  have head: "c_index (h # t) 0 = Inr h" by (simp add: c_index_def)
  obtain row where row: "nr_sdap_qfi2drb e (hdr_QFI h) = Inr row" using qfi2drb_total [OF len] by blast
  have same: "update_first P (\<lambda>_. x) l = l" if "find P l = Some x" for P :: "nr_sdap_entity \<Rightarrow> bool" and x l
    using that by (induction l) (auto split: if_splits)
  have put: "put_entity u p e (st\<lparr>sdap_outs := o'\<rparr>) = st\<lparr>sdap_outs := o'\<rparr>" "put_entity u p e st = st" for o'
    using same [of "is_entity u p" "sdap_entities st" e] Some by (simp_all add: put_entity_def nr_sdap_get_entity_def)
  have gnb: "\<exists>outs. sdap_rx_gnb e role d p u (h # t) st = Inr (st\<lparr>sdap_outs := sdap_outs st @ outs\<rparr>) \<and> (outs = [] \<or> outs = [Gtp_send_qfi u p (uint (hdr_QFI h)) t] \<or> outs = [Gtp_send u p (h # t)])" for role
    by (auto simp: sdap_rx_gnb_def head row Let_def intro: exI [of _ "[]"] split: option.splits)
  have ue: "\<exists>outs. sdap_rx_ue aes' e role d u (h # t) st = Inr (e, st\<lparr>sdap_outs := sdap_outs st @ outs\<rparr>) \<and> (outs = [] \<or> outs = [Tun_write (tun_sock e) t] \<or> outs = [Tun_write (tun_sock e) (h # t)])"
    if "\<not> hdr_RDI h" for role
    using that by (auto simp: sdap_rx_ue_def head intro: exI [of _ "[]"])
  show ?thesis
  proof (cases "nr_sdap_drb_lookup e d")
    case None
    then show ?thesis using Some by (intro exI [of _ "[]"]) (simp add: sdap_data_ind_def nr_sdap_rx_entity_def put)
  next
    case (Some r)
    show ?thesis
    proof (cases gnb)
      case True
      from gnb [of "map_role r"] obtain outs where "sdap_rx_gnb e (map_role r) d p u (h # t) st = Inr (st\<lparr>sdap_outs := sdap_outs st @ outs\<rparr>)"
        "outs = [] \<or> outs = [Gtp_send_qfi u p (uint (hdr_QFI h)) t] \<or> outs = [Gtp_send u p (h # t)]" by blast
      then show ?thesis using \<open>nr_sdap_get_entity st u p = Some e\<close> Some True
        by (intro exI [of _ outs]) (auto simp: sdap_data_ind_def nr_sdap_rx_entity_def put buf)
    next
      case False
      then have "\<not> hdr_RDI h" using assms(4) buf by simp
      from ue [OF this, of "map_role r"] obtain outs where "sdap_rx_ue aes' e (map_role r) d u (h # t) st = Inr (e, st\<lparr>sdap_outs := sdap_outs st @ outs\<rparr>)"
        "outs = [] \<or> outs = [Tun_write (tun_sock e) t] \<or> outs = [Tun_write (tun_sock e) (h # t)]" by blast
      then show ?thesis using \<open>nr_sdap_get_entity st u p = Some e\<close> Some False
        by (intro exI [of _ outs]) (auto simp: sdap_data_ind_def nr_sdap_rx_entity_def put buf)
    qed
  qed
qed

theorem sdap_receive_safe_witness:
  "\<exists>outs st. sdap_ops plain_aes (sort_key precedence) demo_sdap_ops (new_sdap_layer (new_nr_pdcp_ue_manager 0 False)) = Inr st
    \<and> sdap_data_ind plain_aes 1 False 5 7 [9, 1, 2] st = Inr (st\<lparr>sdap_outs := sdap_outs st @ outs\<rparr>)"
proof -
  have "\<not> hdr_RDI 9" by code_simp
  then show ?thesis
    using sdap_receive_safe [OF sort_key_ok demo_sdap_run [of plain_aes "new_nr_pdcp_ue_manager 0 False"], of "[9, 1, 2]" False plain_aes 1 5 7]
      demo_sdap_run [of plain_aes "new_nr_pdcp_ue_manager 0 False"] by auto
qed

end
