(* ===== verification/Seq_Arr.thy ===== *)
theory Seq_Arr
  imports RAN_Prelude
begin

text \<open>
  The growable array of \<open>seq_arr.c\<close> with the search of \<open>find.c\<close>, on bytes as in the code: iterators are offsets in
  the data, elements are copied, moved and cleared with \<open>memcpy\<close>, \<open>memmove\<close> and \<open>memset\<close>, and the capacity doubles
  and halves. It implements a list; the rules of SDAP, which the code keeps in such arrays, are lists in the model.
\<close>

section \<open>The array\<close>

record seq_arr =
  sa_data :: "byte list"
  sa_size :: int
  sa_elt_size :: int
  sa_cap :: int

definition MIN_SIZE :: int where
  "MIN_SIZE = 8"

text \<open>\<open>g\<close> gives the bytes that \<open>realloc\<close> leaves uninitialised.\<close>

definition maybe_expand :: "(nat \<Rightarrow> byte) \<Rightarrow> seq_arr \<Rightarrow> seq_arr" where
  "maybe_expand g a =
     (if sa_size a + 1 = sa_cap a
      then let n = nat (2 * sa_cap a * sa_elt_size a)
           in a\<lparr>sa_data := take n (sa_data a) @ map g [length (sa_data a)..<n], sa_cap := sa_cap a * 2\<rparr>
      else a)"

text \<open>The occupancy is compared with a quarter; the capacity is a power of two, so the quotient is exact.\<close>

definition maybe_shrink :: "seq_arr \<Rightarrow> seq_arr res" where
  "maybe_shrink a =
     (if sa_size a > MIN_SIZE \<and> 4 * sa_size a < sa_cap a
      then if sa_cap a \<le> MIN_SIZE \<or> sa_size a > sa_cap a div 2 then Inl Assert_fatal
           else res_bind (c_slice (sa_data a) 0 (sa_size a * sa_elt_size a)) (\<lambda>bytes.
                res_bind (c_blit (replicate (nat (sa_cap a div 2 * sa_elt_size a)) 0) 0 bytes) (\<lambda>d.
                Inr (a\<lparr>sa_data := d, sa_cap := sa_cap a div 2\<rparr>)))
      else Inr a)"

definition seq_arr_init :: "int \<Rightarrow> seq_arr" where
  "seq_arr_init n = \<lparr>sa_data = replicate (nat (MIN_SIZE * n)) 0, sa_size = 0, sa_elt_size = n, sa_cap = MIN_SIZE\<rparr>"

definition seq_arr_push_back :: "(nat \<Rightarrow> byte) \<Rightarrow> seq_arr \<Rightarrow> byte list \<Rightarrow> seq_arr res" where
  "seq_arr_push_back g a x =
     (if int (length x) \<noteq> sa_elt_size a then Inl Assert_fatal
      else let a = maybe_expand g a
           in res_bind (c_blit (sa_data a) (sa_size a * sa_elt_size a) x) (\<lambda>d.
              Inr (a\<lparr>sa_data := d, sa_size := sa_size a + 1\<rparr>)))"

definition seq_arr_front :: "seq_arr \<Rightarrow> int" where
  "seq_arr_front a = 0"

definition seq_arr_next :: "seq_arr \<Rightarrow> int \<Rightarrow> int" where
  "seq_arr_next a it = it + sa_elt_size a"

definition seq_arr_end :: "seq_arr \<Rightarrow> int" where
  "seq_arr_end a = sa_size a * sa_elt_size a"

definition seq_arr_at :: "seq_arr \<Rightarrow> int \<Rightarrow> int res" where
  "seq_arr_at a pos = (if pos < sa_size a then Inr (pos * sa_elt_size a) else Inl Assert_fatal)"

text \<open>Erasing; the elements given to \<open>free_func\<close>, if there is one, are collected.\<close>

definition free_loop :: "seq_arr \<Rightarrow> int \<Rightarrow> int \<Rightarrow> byte list list res" where
  "free_loop a start_it end_it =
     res_bind (while_res (\<lambda>(it, freed). Inr (it \<noteq> end_it))
       (\<lambda>(it, freed). res_bind (c_slice (sa_data a) it (sa_elt_size a)) (\<lambda>x. Inr (seq_arr_next a it, freed @ [x])))
       (start_it, [])) (\<lambda>(_, freed). Inr freed)"

definition seq_arr_erase_it :: "bool \<Rightarrow> seq_arr \<Rightarrow> int \<Rightarrow> int \<Rightarrow> (byte list list \<times> seq_arr) res" where
  "seq_arr_erase_it deep a start_it end_it =
     (if end_it < start_it then Inl Assert_fatal
      else if start_it = end_it then Inr ([], a)
      else res_bind (if deep then free_loop a start_it end_it else Inr []) (\<lambda>freed.
           let move = seq_arr_end a - end_it; n = end_it - start_it
           in if move < 0 then Inl Assert_fatal
              else res_bind (c_slice (sa_data a) end_it move) (\<lambda>bytes.
                   res_bind (c_blit (sa_data a) start_it bytes) (\<lambda>d.
                   if n div sa_elt_size a \<le> 0 then Inl Assert_fatal
                   else let a = a\<lparr>sa_data := d, sa_size := sa_size a - n div sa_elt_size a\<rparr>
                        in res_bind (c_blit (sa_data a) (seq_arr_end a) (replicate (nat n) 0)) (\<lambda>d.
                           res_bind (maybe_shrink (a\<lparr>sa_data := d\<rparr>)) (\<lambda>a. Inr (freed, a)))))))"

definition seq_arr_erase_deep :: "bool \<Rightarrow> seq_arr \<Rightarrow> int \<Rightarrow> (byte list list \<times> seq_arr) res" where
  "seq_arr_erase_deep deep a it = seq_arr_erase_it deep a it (seq_arr_next a it)"

definition seq_arr_erase :: "seq_arr \<Rightarrow> int \<Rightarrow> seq_arr res" where
  "seq_arr_erase a it = res_bind (seq_arr_erase_deep False a it) (\<lambda>(_, a). Inr a)"

definition seq_arr_free :: "bool \<Rightarrow> seq_arr \<Rightarrow> byte list list res" where
  "seq_arr_free deep a = (if deep then free_loop a (seq_arr_front a) (seq_arr_end a) else Inr [])"

definition find_if :: "(byte list \<Rightarrow> bool) \<Rightarrow> seq_arr \<Rightarrow> int option res" where
  "find_if f a =
     res_bind (while_res
       (\<lambda>it. if it = seq_arr_end a then Inr False
             else res_bind (c_slice (sa_data a) it (sa_elt_size a)) (\<lambda>x. Inr (\<not> f x)))
       (\<lambda>it. Inr (seq_arr_next a it)) (seq_arr_front a)) (\<lambda>it.
     Inr (if it = seq_arr_end a then None else Some it))"

section \<open>The list it holds\<close>

definition chunks :: "nat \<Rightarrow> nat \<Rightarrow> byte list \<Rightarrow> byte list list" where
  "chunks n k d = map (\<lambda>i. take n (drop (i * n) d)) [0..<k]"

definition seq_elems :: "seq_arr \<Rightarrow> byte list list" where
  "seq_elems a = chunks (nat (sa_elt_size a)) (nat (sa_size a)) (sa_data a)"

definition seq_wf :: "seq_arr \<Rightarrow> bool" where
  "seq_wf a \<longleftrightarrow> 0 < sa_elt_size a \<and> 0 \<le> sa_size a \<and> sa_size a < sa_cap a \<and> MIN_SIZE \<le> sa_cap a
     \<and> int (length (sa_data a)) = sa_cap a * sa_elt_size a"

lemma length_concat_same: "list_all (\<lambda>x. length x = n) es \<Longrightarrow> length (concat es) = length es * n"
  by (induction es) auto

lemma nth_concat: "list_all (\<lambda>x. length x = n) es \<Longrightarrow> i < length es \<Longrightarrow> take n (drop (i * n) (concat es @ r)) = es ! i"
proof (induction es arbitrary: i)
  case (Cons x es)
  then show ?case by (cases i) (auto simp: add.commute)
qed simp

lemma chunks_concat: "list_all (\<lambda>x. length x = n) es \<Longrightarrow> chunks n (length es) (concat es @ r) = es"
  by (rule nth_equalityI) (simp_all add: chunks_def nth_concat del: take_append drop_append)

lemma chunks_lengths: "k * n \<le> length d \<Longrightarrow> list_all (\<lambda>x. length x = n) (chunks n k d)"
proof -
  assume le: "k * n \<le> length d"
  have "n \<le> length d - i * n" if "i < k" for i
  proof -
    have "Suc i * n \<le> k * n" using that by (intro mult_right_mono) auto
    then show ?thesis using le by simp
  qed
  then show ?thesis by (auto simp: chunks_def list_all_iff min_absorb2)
qed

lemma concat_chunks: "k * n \<le> length d \<Longrightarrow> concat (chunks n k d) = take (k * n) d"
proof (induction k)
  case (Suc k)
  then have "concat (chunks n (Suc k) d) = take (k * n) d @ take n (drop (k * n) d)" by (simp add: chunks_def)
  then show ?case by (simp add: take_add add.commute flip: take_add)
qed (simp add: chunks_def)

lemma seq_wf_split:
  assumes "seq_wf a"
  obtains es r where "seq_elems a = es" "sa_data a = concat es @ r" "list_all (\<lambda>x. length x = nat (sa_elt_size a)) es"
    "sa_size a = int (length es)" "length (concat es) = length es * nat (sa_elt_size a)"
    "length r = nat (sa_cap a - sa_size a) * nat (sa_elt_size a)"
proof -
  let ?n = "nat (sa_elt_size a)" and ?k = "nat (sa_size a)" and ?c = "nat (sa_cap a)"
  have pos: "0 < sa_elt_size a" "0 \<le> sa_size a" "sa_size a < sa_cap a" using assms by (auto simp: seq_wf_def)
  have "int (length (sa_data a)) = int (?c * ?n)" using assms pos by (simp add: seq_wf_def)
  then have len: "length (sa_data a) = ?c * ?n" by linarith
  have le: "?k * ?n \<le> length (sa_data a)" using pos len by (simp add: mult_right_mono)
  note ls = chunks_lengths [OF le] and cc = concat_chunks [OF le]
  have "length (drop (?k * ?n) (sa_data a)) = nat (sa_cap a - sa_size a) * ?n"
    using len pos by (simp add: nat_diff_distrib diff_mult_distrib)
  then show ?thesis
    using that [of "chunks ?n ?k (sa_data a)" "drop (?k * ?n) (sa_data a)"] ls cc pos length_concat_same [OF ls]
    by (simp add: seq_elems_def chunks_def)
qed

text \<open>Conversely, such data make a well-formed array with these elements.\<close>

lemma seq_wfI:
  assumes "sa_data a = concat es @ r" "list_all (\<lambda>x. length x = nat (sa_elt_size a)) es" "sa_size a = int (length es)"
    "length r = nat (sa_cap a - sa_size a) * nat (sa_elt_size a)" "0 < sa_elt_size a" "sa_size a < sa_cap a" "MIN_SIZE \<le> sa_cap a"
  shows "seq_wf a \<and> seq_elems a = es"
proof -
  have "int (length (sa_data a)) = sa_size a * sa_elt_size a + (sa_cap a - sa_size a) * sa_elt_size a"
    using assms length_concat_same [OF assms(2)] by simp
  then have "int (length (sa_data a)) = sa_cap a * sa_elt_size a" by (simp add: left_diff_distrib)
  then show ?thesis using assms chunks_concat [OF assms(2), of r] by (simp add: seq_wf_def seq_elems_def)
qed

lemma seq_init_ok: "0 < n \<Longrightarrow> seq_wf (seq_arr_init n) \<and> seq_elems (seq_arr_init n) = []"
  by (rule seq_wfI [where r = "replicate (nat (MIN_SIZE * n)) 0"]) (auto simp: seq_arr_init_def MIN_SIZE_def nat_mult_distrib)

lemma maybe_expand_ok:
  assumes "seq_wf a"
  shows "seq_wf (maybe_expand g a) \<and> seq_elems (maybe_expand g a) = seq_elems a \<and> sa_size (maybe_expand g a) = sa_size a
    \<and> sa_elt_size (maybe_expand g a) = sa_elt_size a \<and> sa_size a + 1 < sa_cap (maybe_expand g a)"
proof (cases "sa_size a + 1 = sa_cap a")
  case False
  then show ?thesis using assms by (auto simp: maybe_expand_def seq_wf_def)
next
  case True
  from assms obtain es r where es: "seq_elems a = es" "sa_data a = concat es @ r" "list_all (\<lambda>x. length x = nat (sa_elt_size a)) es"
    "sa_size a = int (length es)" "length r = nat (sa_cap a - sa_size a) * nat (sa_elt_size a)"
    by (rule seq_wf_split)
  let ?n = "nat (2 * sa_cap a * sa_elt_size a)" and ?l = "length (sa_data a)"
  have pos: "0 < sa_elt_size a" "MIN_SIZE \<le> sa_cap a" and l: "int ?l = sa_cap a * sa_elt_size a" using assms by (auto simp: seq_wf_def)
  have n: "int ?n = 2 * int ?l" using pos l by (simp add: MIN_SIZE_def)
  then have le: "?l \<le> ?n" by linarith
  let ?r = "r @ map g [?l..<?n]"
  have "int (length ?r) = (2 * sa_cap a - sa_size a) * sa_elt_size a"
    using es(5) pos n le l True by (simp add: of_nat_diff left_diff_distrib)
  then have "length ?r = nat ((2 * sa_cap a - sa_size a) * sa_elt_size a)" by linarith
  then have r: "length ?r = nat (sa_cap a * 2 - sa_size a) * nat (sa_elt_size a)"
    using True es(4) pos by (simp add: nat_mult_distrib mult.commute)
  have data: "sa_data (maybe_expand g a) = concat es @ ?r" using True le es(2) by (simp add: maybe_expand_def Let_def)
  have "seq_wf (maybe_expand g a) \<and> seq_elems (maybe_expand g a) = es"
    by (rule seq_wfI [OF data]) (use es(3,4) r pos True in \<open>auto simp: maybe_expand_def Let_def MIN_SIZE_def\<close>)
  then show ?thesis using True es(1) pos by (simp add: maybe_expand_def Let_def MIN_SIZE_def)
qed

lemma c_blit_append: "length x \<le> length q \<Longrightarrow> i = int (length p) \<Longrightarrow> c_blit (p @ q) i x = Inr (p @ x @ drop (length x) q)"
  by (simp add: c_blit_def)

lemma c_slice_append: "i = int (length p) \<Longrightarrow> k = int (length q) \<Longrightarrow> c_slice (p @ q @ r) i k = Inr q"
  by (simp add: c_slice_def)

lemma push_back_ok:
  assumes "seq_wf a" "int (length x) = sa_elt_size a"
  shows "\<exists>a'. seq_arr_push_back g a x = Inr a' \<and> seq_wf a' \<and> seq_elems a' = seq_elems a @ [x] \<and> sa_elt_size a' = sa_elt_size a"
proof -
  let ?b = "maybe_expand g a"
  have b: "seq_wf ?b" "seq_elems ?b = seq_elems a" "sa_elt_size ?b = sa_elt_size a" "sa_size ?b = sa_size a" "sa_size a + 1 < sa_cap ?b"
    using maybe_expand_ok [OF assms(1), of g] by auto
  obtain es r where es: "seq_elems ?b = es" "sa_data ?b = concat es @ r" "list_all (\<lambda>x. length x = nat (sa_elt_size ?b)) es"
    "sa_size ?b = int (length es)" "length (concat es) = length es * nat (sa_elt_size ?b)"
    "length r = nat (sa_cap ?b - sa_size ?b) * nat (sa_elt_size ?b)"
    by (rule seq_wf_split [OF b(1)])
  have pos: "0 < sa_elt_size ?b" "MIN_SIZE \<le> sa_cap ?b" using b(1) by (auto simp: seq_wf_def)
  obtain m where m: "nat (sa_cap ?b - sa_size ?b) = Suc m" using b(4,5) by (metis Suc_pred' zero_less_nat_eq add_strict_increasing2 diff_gt_0_iff_gt less_add_one order.strict_trans)
  have x: "length x = nat (sa_elt_size ?b)" using assms(2) b(3) by simp
  have len: "length x \<le> length r" "length (drop (length x) r) = m * nat (sa_elt_size ?b)" using es(6) m x by simp_all
  let ?a = "?b\<lparr>sa_data := concat es @ x @ drop (length x) r, sa_size := sa_size ?b + 1\<rparr>"
  have "c_blit (sa_data ?b) (sa_size ?b * sa_elt_size ?b) x = Inr (concat es @ x @ drop (length x) r)"
    unfolding es(2) by (rule c_blit_append [OF len(1)]) (use es(4,5) pos in simp)
  then have "seq_arr_push_back g a x = Inr ?a" using assms(2) by (simp add: seq_arr_push_back_def Let_def)
  moreover have "seq_wf ?a \<and> seq_elems ?a = es @ [x]"
    by (rule seq_wfI [where r = "drop (length x) r"]) (use es(3,4) x pos len(2) m b(4,5) in \<open>auto simp: nat_diff_distrib\<close>)
  ultimately show ?thesis using es(1) b(2,3) by auto
qed

lemma maybe_shrink_ok:
  assumes "seq_wf a"
  shows "\<exists>a'. maybe_shrink a = Inr a' \<and> seq_wf a' \<and> seq_elems a' = seq_elems a \<and> sa_elt_size a' = sa_elt_size a"
proof (cases "sa_size a > MIN_SIZE \<and> 4 * sa_size a < sa_cap a")
  case False
  then show ?thesis using assms by (auto simp: maybe_shrink_def)
next
  case True
  obtain es r where es: "seq_elems a = es" "sa_data a = concat es @ r" "list_all (\<lambda>x. length x = nat (sa_elt_size a)) es"
    "sa_size a = int (length es)" "length (concat es) = length es * nat (sa_elt_size a)"
    by (rule seq_wf_split [OF assms])
  have pos: "0 < sa_elt_size a" using assms by (simp add: seq_wf_def)
  let ?c = "sa_cap a div 2" let ?z = "replicate (nat (?c * sa_elt_size a)) (0 :: byte)"
  have c: "2 * sa_size a \<le> ?c" "MIN_SIZE < sa_cap a" "sa_size a < ?c" "MIN_SIZE \<le> ?c" using True by (auto simp: MIN_SIZE_def)
  have slice: "c_slice (sa_data a) 0 (sa_size a * sa_elt_size a) = Inr (concat es)"
    unfolding es(2) using c_slice_append [of 0 "[]" "sa_size a * sa_elt_size a" "concat es" r] es(4,5) pos by simp
  have z: "length ?z = nat ?c * nat (sa_elt_size a)" using c pos by (simp add: nat_mult_distrib MIN_SIZE_def)
  have le: "length (concat es) \<le> length ?z" unfolding z es(5) using es(4) c(3) by (intro mult_right_mono) auto
  have blit: "c_blit ?z 0 (concat es) = Inr (concat es @ drop (length (concat es)) ?z)"
    using c_blit_append [of "concat es" ?z 0 "[]"] le by simp
  let ?a = "a\<lparr>sa_data := concat es @ drop (length (concat es)) ?z, sa_cap := ?c\<rparr>"
  have rest: "length (drop (length (concat es)) ?z) = nat (?c - sa_size a) * nat (sa_elt_size a)"
    unfolding length_drop z es(5) using es(4) c(3) by (simp add: nat_diff_distrib diff_mult_distrib)
  have "maybe_shrink a = Inr ?a" using True c slice blit by (simp add: maybe_shrink_def)
  moreover have "seq_wf ?a \<and> seq_elems ?a = es"
    by (rule seq_wfI [where r = "drop (length (concat es)) ?z"]) (use es(3,4) rest pos c in simp_all)
  ultimately show ?thesis using es(1) by auto
qed

text \<open>Erasing the element at an index, through the iterator that \<open>seq_arr_at\<close> gives.\<close>

definition erase_at :: "seq_arr \<Rightarrow> nat \<Rightarrow> seq_arr res" where
  "erase_at a i = res_bind (seq_arr_at a (int i)) (seq_arr_erase a)"

lemma erase_at_ok:
  assumes "seq_wf a" "i < length (seq_elems a)"
  shows "\<exists>a'. erase_at a i = Inr a' \<and> seq_wf a' \<and> seq_elems a' = take i (seq_elems a) @ drop (Suc i) (seq_elems a)
    \<and> sa_elt_size a' = sa_elt_size a"
proof -
  let ?n = "nat (sa_elt_size a)"
  obtain es r where es: "seq_elems a = es" "sa_data a = concat es @ r" "list_all (\<lambda>x. length x = ?n) es"
    "sa_size a = int (length es)" "length r = nat (sa_cap a - sa_size a) * ?n"
    by (rule seq_wf_split [OF assms(1)])
  define A e B where "A = take i es" and "e = es ! i" and "B = drop (Suc i) es"
  have i: "i < length es" using assms(2) es(1) by simp
  then have split: "es = A @ e # B" by (simp add: A_def e_def B_def id_take_nth_drop)
  have pos: "0 < sa_elt_size a" "sa_size a < sa_cap a" "MIN_SIZE \<le> sa_cap a" using assms(1) by (auto simp: seq_wf_def)
  have all: "list_all (\<lambda>x. length x = ?n) A" "list_all (\<lambda>x. length x = ?n) B" "length e = ?n" using es(3) split by auto
  note lens = length_concat_same [OF all(1)] length_concat_same [OF all(2)]
  have Ai: "length A = i" "length es = Suc (i + length B)" using i by (auto simp: A_def B_def)
  define t where "t = drop (length (concat B)) (e @ concat B @ r)"
  have t: "length t = ?n + length r" by (simp add: t_def all(3))
  define d where "d = concat A @ concat B @ replicate ?n 0 @ drop ?n t"
  let ?a = "a\<lparr>sa_size := int (length (A @ B)), sa_data := d\<rparr>"
  have wf: "seq_wf ?a \<and> seq_elems ?a = A @ B"
  proof (rule seq_wfI [where r = "replicate ?n 0 @ drop ?n t"])
    have "nat (sa_cap a - int (length (A @ B))) = Suc (nat (sa_cap a - sa_size a))" using Ai es(4) pos(2) by simp
    then show "length (replicate ?n 0 @ drop ?n t) = nat (sa_cap ?a - sa_size ?a) * nat (sa_elt_size ?a)"
      using t es(5) by (simp del: length_append) (simp add: t)
  qed (use all pos Ai es(4) in \<open>auto simp: d_def\<close>)
  from maybe_shrink_ok [of ?a] wf obtain a' where a': "maybe_shrink ?a = Inr a'" "seq_wf a'" "seq_elems a' = A @ B" "sa_elt_size a' = sa_elt_size a"
    by auto
  have slice: "c_slice (sa_data a) (int i * sa_elt_size a + sa_elt_size a) (seq_arr_end a - (int i * sa_elt_size a + sa_elt_size a)) = Inr (concat B)"
    using c_slice_append [of "int i * sa_elt_size a + sa_elt_size a" "concat A @ e" "seq_arr_end a - (int i * sa_elt_size a + sa_elt_size a)" "concat B" r]
      es(2,4) pos(1) Ai lens all(3) by (simp add: split seq_arr_end_def algebra_simps)
  have blit: "c_blit (sa_data a) (int i * sa_elt_size a) (concat B) = Inr (concat A @ concat B @ t)"
    using c_blit_append [of "concat B" "e @ concat B @ r" "int i * sa_elt_size a" "concat A"] es(2) pos(1) Ai lens by (simp add: split t_def)
  have set: "c_blit (concat A @ concat B @ t) (int (i + length B) * sa_elt_size a) (replicate ?n 0) = Inr d"
    using c_blit_append [of "replicate ?n 0" t "int (i + length B) * sa_elt_size a" "concat A @ concat B"] t pos(1) Ai lens
    by (simp add: d_def algebra_simps)
  have "int i < sa_size a" "sa_size a - 1 = int (i + length B)" using es(4) Ai by auto
  moreover have "\<not> sa_size a * sa_elt_size a < int i * sa_elt_size a + sa_elt_size a"
    using mult_right_mono [of "int i + 1" "sa_size a" "sa_elt_size a"] calculation(1) pos(1) by (simp add: algebra_simps)
  ultimately have "erase_at a i = Inr a'"
    using pos(1) slice blit set a'(1) Ai
    by (simp add: erase_at_def seq_arr_at_def seq_arr_erase_def seq_arr_erase_deep_def seq_arr_erase_it_def seq_arr_next_def Let_def)
       (simp add: seq_arr_end_def split: if_splits)
  then show ?thesis using a' es(1) by (auto simp: A_def B_def)
qed

section \<open>The loops over the elements\<close>

lemma seq_read:
  assumes "seq_wf a" "i < length (seq_elems a)"
  shows "c_slice (sa_data a) (int i * sa_elt_size a) (sa_elt_size a) = Inr (seq_elems a ! i)"
proof -
  obtain es r where es: "seq_elems a = es" "sa_data a = concat es @ r" "list_all (\<lambda>x. length x = nat (sa_elt_size a)) es"
    by (rule seq_wf_split [OF assms(1)])
  have pos: "0 < sa_elt_size a" using assms(1) by (simp add: seq_wf_def)
  have split: "es = take i es @ es ! i # drop (Suc i) es" using assms(2) es(1) by (intro id_take_nth_drop) simp
  have all: "list_all (\<lambda>x. length x = nat (sa_elt_size a)) (take i es)" "length (es ! i) = nat (sa_elt_size a)"
    using es(1,3) assms(2) by (auto simp: list_all_length)
  have data: "sa_data a = concat (take i es) @ es ! i @ concat (drop (Suc i) es) @ r" by (subst es(2), subst split) simp
  have "length (take i es) = i" using assms(2) es(1) by simp
  then have len: "int i * sa_elt_size a = int (length (concat (take i es)))" using length_concat_same [OF all(1)] pos by simp
  show ?thesis unfolding data es(1) by (rule c_slice_append [OF len]) (use all(2) pos in simp)
qed

lemma seq_end: "seq_wf a \<Longrightarrow> seq_arr_end a = int (length (seq_elems a)) * sa_elt_size a"
  by (simp add: seq_wf_def seq_elems_def chunks_def seq_arr_end_def)

lemma seq_at_end: "seq_wf a \<Longrightarrow> int i * sa_elt_size a = seq_arr_end a \<longleftrightarrow> i = length (seq_elems a)"
proof -
  assume wf: "seq_wf a"
  then have "sa_elt_size a \<noteq> 0" by (simp add: seq_wf_def)
  then show ?thesis unfolding seq_end [OF wf] by simp
qed

lemma free_all_ok:
  assumes "seq_wf a"
  shows "seq_arr_free True a = Inr (seq_elems a)"
proof -
  let ?n = "sa_elt_size a" and ?es = "seq_elems a"
  let ?P = "\<lambda>(it, freed). \<exists>i \<le> length ?es. it = int i * ?n \<and> freed = take i ?es"
  have pos: "0 < ?n" using assms by (simp add: seq_wf_def)
  let ?b = "\<lambda>(it, freed :: byte list list). Inr (it \<noteq> seq_arr_end a) :: bool res"
  let ?c = "\<lambda>(it, freed). res_bind (c_slice (sa_data a) it ?n) (\<lambda>x. Inr (seq_arr_next a it, freed @ [x]))"
  have "\<exists>t. while_res ?b ?c (0, []) = Inr t \<and> ?P t \<and> ?b t = Inr False"
  proof (rule while_res_total [where f = "\<lambda>(it, freed). length ?es - length freed"])
    show "?P (0, [])" by auto
    show "\<exists>x. ?b t = Inr x" for t by (cases t) auto
  next
    fix t assume P: "?P t" and b: "?b t = Inr True"
    from P obtain i where i: "i \<le> length ?es" "t = (int i * ?n, take i ?es)" by (cases t) auto
    then have "i < length ?es" using b seq_at_end [OF assms, of i] by auto
    then have "?c t = Inr (int (Suc i) * ?n, take (Suc i) ?es)" using i seq_read [OF assms, of i]
      by (simp add: seq_arr_next_def take_Suc_conv_app_nth algebra_simps)
    then show "\<exists>t'. ?c t = Inr t' \<and> ?P t' \<and> (case t' of (it, freed) \<Rightarrow> length ?es - length freed) < (case t of (it, freed) \<Rightarrow> length ?es - length freed)"
      using \<open>i < length ?es\<close> i by (intro exI [of _ "(int (Suc i) * ?n, take (Suc i) ?es)"]) (auto intro: exI [of _ "Suc i"])
  qed
  then obtain i where "while_res ?b ?c (0, []) = Inr (int i * ?n, take i ?es)" "int i * ?n = seq_arr_end a" by auto
  then show ?thesis using seq_at_end [OF assms, of i] by (simp add: seq_arr_free_def free_loop_def seq_arr_front_def)
qed

lemma find_if_ok:
  assumes "seq_wf a"
  shows "\<exists>i \<le> length (seq_elems a). (\<forall>j < i. \<not> f (seq_elems a ! j)) \<and> (i < length (seq_elems a) \<longrightarrow> f (seq_elems a ! i))
    \<and> find_if f a = Inr (if i = length (seq_elems a) then None else Some (int i * sa_elt_size a))"
proof -
  let ?n = "sa_elt_size a" and ?es = "seq_elems a"
  let ?P = "\<lambda>it. \<exists>i \<le> length ?es. it = int i * ?n \<and> (\<forall>j < i. \<not> f (?es ! j))"
  have pos: "0 < ?n" using assms by (simp add: seq_wf_def)
  let ?b = "\<lambda>it. if it = seq_arr_end a then Inr False else res_bind (c_slice (sa_data a) it ?n) (\<lambda>x. Inr (\<not> f x))"
  have b: "?b (int i * ?n) = Inr (i < length ?es \<and> \<not> f (?es ! i))" if "i \<le> length ?es" for i
    using that seq_at_end [OF assms, of i] seq_read [OF assms, of i] by (cases "i = length ?es") auto
  have "\<exists>t. while_res ?b (\<lambda>it. Inr (seq_arr_next a it)) 0 = Inr t \<and> ?P t \<and> ?b t = Inr False"
  proof (rule while_res_total [where f = "\<lambda>it. nat (seq_arr_end a - it)"])
    show "?P 0" by auto
    show "\<exists>x. ?b t = Inr x" if "?P t" for t using that b by blast
  next
    fix t assume P: "?P t" and bt: "?b t = Inr True"
    from P obtain i where i: "i \<le> length ?es" "t = int i * ?n" "\<forall>j < i. \<not> f (?es ! j)" by auto
    then have lt: "i < length ?es" "\<not> f (?es ! i)" using bt b [of i] by auto
    have "?P (seq_arr_next a t)" using i lt by (intro exI [of _ "Suc i"]) (auto simp: seq_arr_next_def algebra_simps less_Suc_eq)
    moreover have "t < seq_arr_end a" using lt(1) i(2) pos by (simp add: seq_end [OF assms])
    ultimately show "\<exists>t'. Inr (seq_arr_next a t) = Inr t' \<and> ?P t' \<and> nat (seq_arr_end a - t') < nat (seq_arr_end a - t)"
      using pos by (auto simp: seq_arr_next_def)
  qed
  then obtain i where i: "i \<le> length ?es" "\<forall>j < i. \<not> f (?es ! j)" "?b (int i * ?n) = Inr False"
    "while_res ?b (\<lambda>it. Inr (seq_arr_next a it)) 0 = Inr (int i * ?n)" by blast
  then show ?thesis using b [OF i(1)] seq_at_end [OF assms, of i]
    by (intro exI [of _ i]) (auto simp: find_if_def seq_arr_front_def)
qed

section \<open>The contract of a sequence container\<close>

datatype 'e seq_op = Push 'e | Erase nat

fun seq_run :: "('c \<Rightarrow> 'e \<Rightarrow> 'c res) \<Rightarrow> ('c \<Rightarrow> nat \<Rightarrow> 'c res) \<Rightarrow> 'e seq_op list \<Rightarrow> 'c \<Rightarrow> 'c res" where
  "seq_run push er [] c = Inr c"
| "seq_run push er (Push x # ops) c = res_bind (push c x) (seq_run push er ops)"
| "seq_run push er (Erase i # ops) c = res_bind (er c i) (seq_run push er ops)"

text \<open>The same operations on a list; erasing out of range is not allowed.\<close>

fun list_run :: "('e \<Rightarrow> bool) \<Rightarrow> 'e seq_op list \<Rightarrow> 'e list \<Rightarrow> 'e list option" where
  "list_run ok [] l = Some l"
| "list_run ok (Push x # ops) l = (if ok x then list_run ok ops (l @ [x]) else None)"
| "list_run ok (Erase i # ops) l = (if i < length l then list_run ok ops (take i l @ drop (Suc i) l) else None)"

locale seq_container =
  fixes wf :: "'c \<Rightarrow> bool" and elems :: "'c \<Rightarrow> 'e list" and ok :: "'e \<Rightarrow> bool"
    and push :: "'c \<Rightarrow> 'e \<Rightarrow> 'c res" and er :: "'c \<Rightarrow> nat \<Rightarrow> 'c res"
  assumes push_law: "wf c \<Longrightarrow> ok x \<Longrightarrow> \<exists>c'. push c x = Inr c' \<and> wf c' \<and> elems c' = elems c @ [x]"
    and er_law: "wf c \<Longrightarrow> i < length (elems c) \<Longrightarrow> \<exists>c'. er c i = Inr c' \<and> wf c' \<and> elems c' = take i (elems c) @ drop (Suc i) (elems c)"
begin

lemma run_refines:
  "wf c \<Longrightarrow> list_run ok ops (elems c) = Some l \<Longrightarrow> \<exists>c'. seq_run push er ops c = Inr c' \<and> wf c' \<and> elems c' = l"
proof (induction ops arbitrary: c)
  case (Cons op ops)
  show ?case
  proof (cases op)
    case (Push x)
    then obtain c' where "push c x = Inr c'" "wf c'" "elems c' = elems c @ [x]" using push_law [of c x] Cons.prems by (auto split: if_splits)
    then show ?thesis using Cons.IH [of c'] Cons.prems Push by (auto split: if_splits)
  next
    case (Erase i)
    then obtain c' where "er c i = Inr c'" "wf c'" "elems c' = take i (elems c) @ drop (Suc i) (elems c)"
      using er_law [of c i] Cons.prems by (auto split: if_splits)
    then show ?thesis using Cons.IH [of c'] Cons.prems Erase by (auto split: if_splits)
  qed
qed simp

end

interpretation sa: seq_container "\<lambda>a. seq_wf a \<and> sa_elt_size a = n" seq_elems "\<lambda>x. int (length x) = n" "seq_arr_push_back g" erase_at
  for n :: int and g :: "nat \<Rightarrow> byte"
  by unfold_locales (use push_back_ok erase_at_ok in \<open>blast+\<close>)

section \<open>Properties\<close>

text \<open>
  (C17) The growable array implements a list. Any sequence of insertions at the end, of elements of the element size, and of
  erasures inside the array runs without fault on a new array, through all expansions and reductions of the
  memory and whatever its uninitialised bytes are, and leaves the elements that the same operations leave in a list.
\<close>

theorem seq_arr_refines_list:
  assumes "0 < n" "list_run (\<lambda>x. int (length x) = n) ops [] = Some l"
  shows "\<exists>a. seq_run (seq_arr_push_back g) erase_at ops (seq_arr_init n) = Inr a \<and> seq_elems a = l
    \<and> sa_size a = int (length l) \<and> sa_size a < sa_cap a \<and> int (length (sa_data a)) = sa_cap a * n"
proof -
  have "sa_elt_size (seq_arr_init n) = n" by (simp add: seq_arr_init_def)
  then obtain a where "seq_run (seq_arr_push_back g) erase_at ops (seq_arr_init n) = Inr a" "seq_wf a" "sa_elt_size a = n" "seq_elems a = l"
    using sa.run_refines [of "seq_arr_init n" n ops l g] seq_init_ok [OF assms(1)] assms(2) by auto
  moreover from this(2,4) have "sa_size a = int (length l)" by (auto simp: seq_wf_def seq_elems_def chunks_def)
  ultimately show ?thesis by (auto simp: seq_wf_def)
qed

theorem seq_arr_refines_list_witness:
  "\<exists>a. seq_run (seq_arr_push_back (\<lambda>_. 255)) erase_at (map (\<lambda>i. Push [of_nat i, 1]) [0..<9] @ [Erase 0]) (seq_arr_init 2) = Inr a
    \<and> seq_elems a = map (\<lambda>i. [of_nat i, 1]) [1..<9]"
  using seq_arr_refines_list [of 2 "map (\<lambda>i. Push [of_nat i, 1]) [0..<9] @ [Erase 0]" "map (\<lambda>i. [of_nat i, 1]) [1..<9]" "\<lambda>_. 255"]
  by (auto simp: upt_rec)

text \<open>
  (C18) The loops over an array end. On every array that insertions and erasures produce, \<open>find_if\<close> ends and returns
  the iterator of the first element with the property, or nothing when there is none; and freeing the array ends after it has
  given each element once, in order, to the function that frees it.
\<close>

theorem seq_arr_loops_end:
  assumes "0 < n" "list_run (\<lambda>x. int (length x) = n) ops [] = Some l"
    "seq_run (seq_arr_push_back g) erase_at ops (seq_arr_init n) = Inr a"
  shows "seq_arr_free True a = Inr l \<and>
    (\<exists>i \<le> length l. (\<forall>j < i. \<not> f (l ! j)) \<and> (i < length l \<longrightarrow> f (l ! i))
      \<and> find_if f a = Inr (if i = length l then None else Some (int i * n)))"
proof -
  have "sa_elt_size (seq_arr_init n) = n" by (simp add: seq_arr_init_def)
  then have a: "seq_wf a" "sa_elt_size a = n" "seq_elems a = l"
    using sa.run_refines [of "seq_arr_init n" n ops l g] seq_init_ok [OF assms(1)] assms(2,3) by auto
  show ?thesis using free_all_ok [OF a(1)] find_if_ok [OF a(1), of f] unfolding a(2,3) by blast
qed

theorem seq_arr_loops_end_witness:
  "\<exists>a. seq_run (seq_arr_push_back (\<lambda>_. 255)) erase_at [Push [7, 1], Push [8, 1]] (seq_arr_init 2) = Inr a \<and> seq_arr_free True a = Inr [[7, 1], [8, 1]]"
proof -
  have run: "seq_run (seq_arr_push_back (\<lambda>_. 255)) erase_at [Push [7, 1], Push [8, 1]] (seq_arr_init 2)
    = Inr \<lparr>sa_data = [7, 1, 8, 1] @ replicate 12 0, sa_size = 2, sa_elt_size = 2, sa_cap = 8\<rparr>"
    by code_simp
  show ?thesis using seq_arr_loops_end [OF _ _ run, of "[[7, 1], [8, 1]]"] run by simp
qed

end
