(* ===== verification/Time_Stat.thy ===== *)
theory Time_Stat
  imports Complex_Main "HOL-Library.Log_Nat" RAN_Prelude
begin

text \<open>
  The windowed average of \<open>common/utils/time_stat.c\<close>: a ring of time-stamped values that
  grows when it is full, with the running sum of the values it holds. The RLC entities use
  it for the average time an SDU waits before it is passed to the MAC. \<open>ring_live\<close> is the
  abstract content, the live entries from the oldest to the newest; the lemmas show that
  each operation is the expected operation on that list and keeps the running sum exact.
\<close>

section \<open>Data\<close>

record time_value =
  tv_time :: u64
  tv_value :: u64

record time_ring =
  ring_head :: int
  ring_tail :: int
  ring_buffer :: "time_value list"
  ring_maxsize :: int
  ring_size :: int

record time_average =
  ta_duration :: int
  ring :: time_ring
  accumulated_value :: u64

section \<open>Operations\<close>

definition time_average_new :: "int \<Rightarrow> int \<Rightarrow> time_average res" where
  "time_average_new dur initial_size =
     (if initial_size AND (initial_size - 1) \<noteq> 0 then Inl Exit_fatal
      else Inr \<lparr>ta_duration = dur,
                ring = \<lparr>ring_head = initial_size - 1, ring_tail = 0,
                     ring_buffer = replicate (nat initial_size) \<lparr>tv_time = 0, tv_value = 0\<rparr>,
                     ring_maxsize = initial_size, ring_size = 0\<rparr>,
                accumulated_value = 0\<rparr>)"

definition time_average_reset :: "time_average \<Rightarrow> time_average" where
  "time_average_reset t =
     t\<lparr>ring := (ring t)\<lparr>ring_head := ring_maxsize (ring t) - 1, ring_tail := 0, ring_size := 0\<rparr>,
       accumulated_value := 0\<rparr>"

definition remove_old :: "time_average \<Rightarrow> u64 \<Rightarrow> time_average res" where
  "remove_old t time =
     while_res
       (\<lambda>t. if ring_size (ring t) = 0 then Inr False
             else res_bind (c_index (ring_buffer (ring t)) (ring_tail (ring t)))
                    (\<lambda>v. Inr (tv_time v < time - of_int (ta_duration t))))
       (\<lambda>t. res_bind (c_index (ring_buffer (ring t)) (ring_tail (ring t)))
               (\<lambda>v. Inr (t\<lparr>accumulated_value := accumulated_value t - tv_value v,
                            ring := (ring t)\<lparr>ring_size := ring_size (ring t) - 1,
                                       ring_tail := (ring_tail (ring t) + 1) smod ring_maxsize (ring t)\<rparr>\<rparr>)))
       t"

text \<open>
  The growth step of \<open>time_average_add\<close>: the memory that \<open>realloc\<close> adds is unspecified in
  C and zero here; \<open>ring_live\<close> shows that it is never read.
\<close>

definition ring_grow :: "time_ring \<Rightarrow> time_ring res" where
  "ring_grow q =
     (let q1 = q\<lparr>ring_maxsize := ring_maxsize q * 2,
                 ring_buffer := ring_buffer q @ replicate (nat (ring_maxsize q)) \<lparr>tv_time = 0, tv_value = 0\<rparr>\<rparr>
      in if ring_head q1 < ring_tail q1
         then res_bind (c_slice (ring_buffer q1) 0 (ring_head q1 + 1)) (\<lambda>moved.
              res_bind (c_blit (ring_buffer q1) (ring_size q1) moved) (\<lambda>b.
              Inr (q1\<lparr>ring_buffer := b, ring_head := ring_head q1 + ring_size q1\<rparr>)))
         else Inr q1)"

definition time_average_add :: "time_average \<Rightarrow> u64 \<Rightarrow> u64 \<Rightarrow> time_average res" where
  "time_average_add t0 time value =
     res_bind (remove_old t0 time) (\<lambda>t.
     res_bind (if ring_size (ring t) = ring_maxsize (ring t) then ring_grow (ring t) else Inr (ring t)) (\<lambda>q.
     let h = (ring_head q + 1) smod ring_maxsize q in
     res_bind (c_store (ring_buffer q) h \<lparr>tv_time = time, tv_value = value\<rparr>) (\<lambda>b.
     Inr (t\<lparr>ring := q\<lparr>ring_head := h, ring_buffer := b, ring_size := ring_size q + 1\<rparr>,
            accumulated_value := accumulated_value t + value\<rparr>))))"

text \<open>
  The rounding of \<open>double\<close>: to the nearest number with a significand of 53 bits, to an even
  significand in the middle. The numbers here lie between \<open>2 ^ -31\<close> and \<open>2 ^ 64\<close>, far from the
  limits of the exponent.
\<close>

definition round_even :: "rat \<Rightarrow> int" where
  "round_even y =
     (let f = \<lfloor>y\<rfloor>; d = y - of_int f
      in if d < 1 / 2 \<or> d = 1 / 2 \<and> even f then f else f + 1)"

definition double_exponent :: "rat \<Rightarrow> int" where
  "double_exponent x =
     (let (a, b) = quotient_of x;
          e = int (floorlog 2 (nat a)) - int (floorlog 2 (nat b)) - 53
      in if 2 ^ 53 \<le> x / 2 powi e then e + 1 else e)"

definition round_double :: "rat \<Rightarrow> rat" where
  "round_double x =
     (if x = 0 then 0
      else let e = double_exponent x in of_int (round_even (x / 2 powi e)) * 2 powi e)"

text \<open>The conversion of the sum and the quotient round; the size of the ring is exact as a \<open>double\<close>.\<close>

definition time_average_get_average :: "time_average \<Rightarrow> u64 \<Rightarrow> (rat \<times> time_average) res" where
  "time_average_get_average t0 time =
     res_bind (remove_old t0 time) (\<lambda>t.
     Inr (if ring_size (ring t) = 0 then 0
          else round_double (round_double (of_nat (unat (accumulated_value t))) / of_int (ring_size (ring t))), t))"

section \<open>Rounding\<close>

lemma two_powi_add:
  assumes "i + j = k"
  shows "(2 :: rat) powi i * 2 powi j = 2 powi k"
  unfolding assms [symmetric] by (subst power_int_add) simp_all

lemma double_exponent:
  assumes "0 < x"
  shows "2 ^ 52 \<le> x / 2 powi double_exponent x \<and> x / 2 powi double_exponent x < 2 ^ 53"
proof -
  obtain a b where q: "quotient_of x = (a, b)" by (cases "quotient_of x")
  have x: "x = of_int a / of_int b" "0 < b" using quotient_of_div [OF q] quotient_of_denom_pos [OF q] by simp_all
  then have a: "0 < a" using assms by (simp add: zero_less_divide_iff)
  define la where "la = floorlog 2 (nat a)"
  define lb where "lb = floorlog 2 (nat b)"
  have fl: "0 < floorlog 2 (nat c) \<and> 2 ^ (floorlog 2 (nat c) - 1) \<le> c \<and> c < 2 ^ floorlog 2 (nat c)" if "0 < c" for c :: int
  proof -
    have "2 ^ (floorlog 2 (nat c) - 1) \<le> nat c \<and> nat c < 2 ^ floorlog 2 (nat c)" using floorlog_bounds [of "nat c" 2] that by simp
    moreover have "0 < floorlog 2 (nat c)" using that by (simp add: floorlog_def)
    ultimately show ?thesis using that by (simp add: nat_less_iff le_nat_iff)
  qed
  have pw: "(2 :: rat) powi (int n - 1) \<le> of_int c \<and> of_int c < (2 :: rat) powi int n"
    if "0 < n \<and> 2 ^ (n - 1) \<le> c \<and> c < 2 ^ n" for n c
  proof -
    have "int n - 1 = int (n - 1)" using that by (simp add: of_nat_diff)
    moreover have "(of_int (2 ^ (n - 1)) :: rat) \<le> of_int c" "(of_int c :: rat) < of_int (2 ^ n)"
      using that by (simp_all only: of_int_le_iff of_int_less_iff)
    ultimately show ?thesis by (simp only: power_int_of_nat of_int_power of_int_numeral simp_thms)
  qed
  note A = pw [OF fl [OF a], folded la_def] and B = pw [OF fl [OF x(2)], folded lb_def]
  define e where "e = int la - int lb - 53"
  have p: "(0 :: rat) < 2 powi k" for k by simp
  have lo: "(2 :: rat) powi (int la - 1 - int lb) < x"
  proof -
    have "(2 :: rat) powi (int la - 1 - int lb) * of_int b < 2 powi (int la - 1 - int lb) * 2 powi int lb"
      using B p by (intro mult_strict_left_mono) simp_all
    also have "\<dots> = 2 powi (int la - 1)" by (rule two_powi_add) simp
    also have "\<dots> \<le> of_int a" using A by simp
    finally show ?thesis using x by (simp add: pos_less_divide_eq)
  qed
  have hi: "x < (2 :: rat) powi (int la - int lb + 1)"
  proof -
    have "of_int a < (2 :: rat) powi int la" using A by simp
    also have "\<dots> = 2 powi (int la - int lb + 1) * 2 powi (int lb - 1)" by (rule two_powi_add [symmetric]) simp
    also have "\<dots> \<le> 2 powi (int la - int lb + 1) * of_int b" using B p by (intro mult_left_mono) (simp_all add: less_imp_le)
    finally show ?thesis using x by (simp add: pos_divide_less_eq)
  qed
  have e52: "(2 :: rat) powi (int la - 1 - int lb) = 2 ^ 52 * 2 powi e"
    using two_powi_add [of 52 e "int la - 1 - int lb"] by (simp add: e_def)
  have e54: "(2 :: rat) powi (int la - int lb + 1) = 2 ^ 54 * 2 powi e"
    using two_powi_add [of 54 e "int la - int lb + 1"] by (simp add: e_def)
  have y: "2 ^ 52 < x / 2 powi e" "x / 2 powi e < 2 ^ 54"
    using lo hi unfolding e52 e54 by (simp_all only: pos_less_divide_eq [OF p] pos_divide_less_eq [OF p])
  have "(2 :: rat) powi (e + 1) = 2 powi e * 2" using two_powi_add [of e 1 "e + 1"] by simp
  then have half: "x / 2 powi (e + 1) = x / 2 powi e / 2" by simp
  have "double_exponent x = (if 2 ^ 53 \<le> x / 2 powi e then e + 1 else e)"
    by (simp add: double_exponent_def q e_def la_def lb_def Let_def)
  then show ?thesis using y half by auto
qed

lemma round_even_error: "\<bar>of_int (round_even y) - y\<bar> \<le> 1 / 2"
proof -
  have "of_int \<lfloor>y\<rfloor> \<le> y" "y < of_int \<lfloor>y\<rfloor> + 1" by linarith+
  then show ?thesis by (auto simp: round_even_def Let_def abs_le_iff)
qed

lemma round_double_error:
  assumes "0 \<le> x"
  shows "\<bar>round_double x - x\<bar> \<le> x / 2 ^ 53"
proof (cases "x = 0")
  case False
  define s :: rat where "s = 2 powi double_exponent x"
  have s: "0 < s" by (simp add: s_def)
  have "2 ^ 52 \<le> x / s" using double_exponent [of x] assms False by (simp add: s_def)
  then have "\<bar>of_int (round_even (x / s)) - x / s\<bar> \<le> x / s / 2 ^ 53" using round_even_error [of "x / s"] by simp
  then have "s * \<bar>of_int (round_even (x / s)) - x / s\<bar> \<le> s * (x / s / 2 ^ 53)" using s by (intro mult_left_mono) simp_all
  moreover have "s * \<bar>of_int (round_even (x / s)) - x / s\<bar> = \<bar>round_double x - x\<bar>"
    using s False by (simp add: round_double_def Let_def s_def abs_mult_pos' right_diff_distrib mult.commute)
  ultimately show ?thesis using s by simp
qed (simp add: round_double_def)

text \<open>The relative error of a rounded quotient of a rounded number.\<close>

lemma round_quotient_error:
  assumes "0 \<le> a" "0 < n"
  shows "\<bar>round_double (round_double a / n) - a / n\<bar> \<le> a / n * (3 / 2 ^ 53)"
proof -
  have d: "\<bar>round_double a - a\<bar> \<le> a / 2 ^ 53" by (rule round_double_error [OF assms(1)])
  moreover have "a / 2 ^ 53 \<le> a" using assms(1) by simp
  ultimately have pos: "0 \<le> round_double a" by linarith
  have "\<bar>round_double (round_double a / n) - round_double a / n\<bar> \<le> round_double a / n / 2 ^ 53"
    using pos assms(2) by (intro round_double_error) simp
  moreover have "\<bar>round_double a / n - a / n\<bar> \<le> a / 2 ^ 53 / n"
    using divide_right_mono [OF d, of n] assms(2) by (simp only: abs_divide diff_divide_distrib [symmetric] less_imp_le abs_of_pos)
  moreover have "round_double a / n / 2 ^ 53 \<le> (a + a / 2 ^ 53) / n / 2 ^ 53"
  proof -
    have "round_double a \<le> a + a / 2 ^ 53" using d by linarith
    then show ?thesis using assms(2) by (intro divide_right_mono) simp_all
  qed
  ultimately have "\<bar>round_double (round_double a / n) - a / n\<bar> \<le> (a + a / 2 ^ 53) / n / 2 ^ 53 + a / 2 ^ 53 / n" by linarith
  also have "\<dots> = a / n * (2 / 2 ^ 53 + 1 / 2 ^ 106)" using assms(2) by (simp add: field_simps)
  also have "\<dots> \<le> a / n * (3 / 2 ^ 53)" using assms by (intro mult_left_mono) simp_all
  finally show ?thesis .
qed

section \<open>The live entries of the ring\<close>

definition ring_live :: "time_ring \<Rightarrow> time_value list" where
  "ring_live q =
     map (\<lambda>k. ring_buffer q ! nat ((ring_tail q + int k) mod ring_maxsize q)) [0..<nat (ring_size q)]"

definition ring_wf :: "time_ring \<Rightarrow> bool" where
  "ring_wf q \<longleftrightarrow> 0 < ring_maxsize q \<and> ring_maxsize q = int (length (ring_buffer q))
     \<and> 0 \<le> ring_size q \<and> ring_size q \<le> ring_maxsize q \<and> 0 \<le> ring_tail q \<and> ring_tail q < ring_maxsize q
     \<and> 0 \<le> ring_head q \<and> ring_head q < ring_maxsize q
     \<and> (ring_head q + 1) mod ring_maxsize q = (ring_tail q + ring_size q) mod ring_maxsize q"

definition time_average_wf :: "time_average \<Rightarrow> bool" where
  "time_average_wf t \<longleftrightarrow> ring_wf (ring t)
     \<and> accumulated_value t = (\<Sum>v\<leftarrow>ring_live (ring t). tv_value v)"

lemma length_ring_live [simp]: "length (ring_live q) = nat (ring_size q)"
  by (simp add: ring_live_def)

lemma ring_live_Cons:
  assumes "ring_wf q" "ring_size q \<noteq> 0"
  shows "ring_live q = ring_buffer q ! nat (ring_tail q)
           # ring_live (q\<lparr>ring_size := ring_size q - 1, ring_tail := (ring_tail q + 1) mod ring_maxsize q\<rparr>)"
proof -
  obtain n where n: "nat (ring_size q) = Suc n" "nat (ring_size q - 1) = n"
    using assms by (cases "nat (ring_size q)") (auto simp: ring_wf_def)
  have "[0..<Suc n] = 0 # map Suc [0..<n]" 
    by (simp add: map_Suc_upt upt_conv_Cons del: upt_Suc)
  moreover have "((ring_tail q + 1) mod ring_maxsize q + int k) mod ring_maxsize q
      = (ring_tail q + int (Suc k)) mod ring_maxsize q" for k
    by (simp add: mod_simps ac_simps)
  ultimately show ?thesis
    using assms by (simp add: ring_live_def n ring_wf_def)
qed

lemma ring_wf_pop:
  assumes "ring_wf q" "ring_size q \<noteq> 0"
  shows "ring_wf (q\<lparr>ring_size := ring_size q - 1, ring_tail := (ring_tail q + 1) mod ring_maxsize q\<rparr>)"
proof -
  have "((ring_tail q + 1) mod ring_maxsize q + (ring_size q - 1)) mod ring_maxsize q
      = (ring_tail q + ring_size q) mod ring_maxsize q"
    by (simp add: mod_add_left_eq)
  with assms show ?thesis by (auto simp: ring_wf_def)
qed

lemma remove_old_refines:
  assumes "time_average_wf t"
  shows "\<exists>t'. remove_old t time = Inr t' \<and> time_average_wf t' \<and> ta_duration t' = ta_duration t
           \<and> ring_live (ring t')
             = dropWhile (\<lambda>v. tv_time v < time - of_int (ta_duration t)) (ring_live (ring t))"
proof -
  let ?old = "\<lambda>v. tv_time v < time - of_int (ta_duration t)"
  let ?P = "\<lambda>u. time_average_wf u \<and> ta_duration u = ta_duration t
      \<and> dropWhile ?old (ring_live (ring u)) = dropWhile ?old (ring_live (ring t))"
  let ?b = "\<lambda>t. if ring_size (ring t) = 0 then Inr False
             else res_bind (c_index (ring_buffer (ring t)) (ring_tail (ring t)))
                    (\<lambda>v. Inr (tv_time v < time - of_int (ta_duration t)))"
  let ?c = "\<lambda>t. res_bind (c_index (ring_buffer (ring t)) (ring_tail (ring t)))
               (\<lambda>v. Inr (t\<lparr>accumulated_value := accumulated_value t - tv_value v,
                            ring := (ring t)\<lparr>ring_size := ring_size (ring t) - 1,
                                       ring_tail := (ring_tail (ring t) + 1) smod ring_maxsize (ring t)\<rparr>\<rparr>))"
  have index: "c_index (ring_buffer (ring u)) (ring_tail (ring u)) = Inr (ring_buffer (ring u) ! nat (ring_tail (ring u)))"
    if "time_average_wf u" for u
    using that by (auto simp: c_index_def time_average_wf_def ring_wf_def)
  have pop: "\<exists>u'. ?c u = Inr u' \<and> ?P u' \<and> nat (ring_size (ring u')) < nat (ring_size (ring u))"
    if P: "?P u" and b: "?b u = Inr True" for u
  proof -
    let ?q = "ring u"
    let ?q' = "?q\<lparr>ring_size := ring_size ?q - 1, ring_tail := (ring_tail ?q + 1) mod ring_maxsize ?q\<rparr>"
    let ?u' = "u\<lparr>accumulated_value
                := accumulated_value u - tv_value (ring_buffer ?q ! nat (ring_tail ?q)), ring := ?q'\<rparr>"
    from P b have nz: "ring_size ?q \<noteq> 0" and old: "?old (ring_buffer ?q ! nat (ring_tail ?q))"
      by (auto simp: index split: if_splits)
    from P have wf: "ring_wf ?q" by (simp add: time_average_wf_def)
    then have sm: "(ring_tail ?q + 1) smod ring_maxsize ?q = (ring_tail ?q + 1) mod ring_maxsize ?q"
      by (auto simp: ring_wf_def)
    have "?c u = Inr ?u'" using P by (simp add: index sm)
    moreover have "time_average_wf ?u'"
      using P ring_live_Cons [OF wf nz] ring_wf_pop [OF wf nz]
      by (simp add: time_average_wf_def)
    moreover have "dropWhile ?old (ring_live ?q') = dropWhile ?old (ring_live ?q)"
      using old by (simp only: ring_live_Cons [OF wf nz] dropWhile.simps if_True)
    moreover have "nat (ring_size ?q') < nat (ring_size ?q)" using wf nz by (simp add: ring_wf_def)
    moreover have "ring ?u' = ?q'" "ta_duration ?u' = ta_duration u" by simp_all
    ultimately show ?thesis using P by metis
  qed
  have "\<exists>u. while_res ?b ?c t = Inr u \<and> ?P u \<and> ?b u = Inr False"
  proof (rule while_res_total [where P = ?P and f = "\<lambda>u. nat (ring_size (ring u))"])
    show "?P t" using assms by simp
    show "\<exists>x. ?b u = Inr x" if "?P u" for u
      by (cases "ring_size (ring u) = 0") (use that in \<open>auto simp: index\<close>)
  qed (rule pop)
  then obtain u where u: "remove_old t time = Inr u" "?P u" "?b u = Inr False"
    unfolding remove_old_def by blast
  have "dropWhile ?old (ring_live (ring u)) = ring_live (ring u)"
  proof (cases "ring_size (ring u) = 0")
    case True
    then show ?thesis by (simp add: ring_live_def)
  next
    case False
    moreover have "\<not> ?old (ring_buffer (ring u) ! nat (ring_tail (ring u)))"
      using False u by (simp add: index)
    ultimately show ?thesis
      using u(2) ring_live_Cons [of "ring u"] by (simp add: time_average_wf_def)
  qed
  with u(1,2) show ?thesis by metis
qed

text \<open>Growing keeps the live entries, and pushing appends one.\<close>

lemma ring_grow_refines:
  assumes "ring_wf q" "ring_size q = ring_maxsize q"
  shows "\<exists>q'. ring_grow q = Inr q' \<and> ring_wf q' \<and> ring_live q' = ring_live q
           \<and> ring_size q' = ring_size q \<and> ring_size q' < ring_maxsize q'"
proof -
  let ?n = "length (ring_buffer q)"
  have full: "(ring_head q + 1) mod int ?n = ring_tail q" "ring_maxsize q = int ?n" "0 < ?n"
      "ring_size q = int ?n" "0 \<le> ring_tail q" "ring_tail q < int ?n" "0 \<le> ring_head q" "ring_head q < int ?n"
    using assms by (auto simp: ring_wf_def)
  show ?thesis
  proof (cases "ring_head q < ring_tail q")
    case True
    with full have t: "ring_tail q = ring_head q + 1" by (auto simp: mod_pos_pos_trivial)
    let ?z = "replicate ?n \<lparr>tv_time = 0, tv_value = 0\<rparr>"
    let ?m = "take (nat (ring_head q + 1)) (ring_buffer q)"
    let ?b = "ring_buffer q @ ?m @ drop (length ?m) ?z"
    let ?q' = "q\<lparr>ring_maxsize := int ?n * 2, ring_buffer := ?b, ring_head := ring_head q + int ?n\<rparr>"
    have grow: "ring_grow q = Inr ?q'"
      using True full by (simp add: ring_grow_def c_slice_def c_blit_def Let_def)
    have "ring_buffer ?q' ! nat ((ring_tail q + int k) mod (int ?n * 2))
          = ring_buffer q ! nat ((ring_tail q + int k) mod int ?n)" if "k < ?n" for k
    proof (cases "ring_tail q + int k < int ?n")
      case True
      with full show ?thesis by (simp add: mod_pos_pos_trivial nth_append)
    next
      case False
      have "(ring_tail q + int k) mod int ?n = ring_tail q + int k - int ?n"
        using False full that by (intro mod_once) simp_all
      moreover have "(ring_tail q + int k) mod (int ?n * 2) = ring_tail q + int k"
        using full that by (simp add: mod_pos_pos_trivial)
      ultimately show ?thesis
        using False full that t by (simp add: nth_append nat_diff_distrib nat_add_distrib)
    qed
    then have "ring_live ?q' = ring_live q" by (simp add: ring_live_def full)
    moreover have "ring_wf ?q'" using full t by (simp add: ring_wf_def)
    ultimately show ?thesis using grow full by auto
  next
    case False
    have h: "ring_head q + 1 = int ?n"
    proof (rule ccontr)
      assume "ring_head q + 1 \<noteq> int ?n"
      with full have "(ring_head q + 1) mod int ?n = ring_head q + 1" by (simp add: mod_pos_pos_trivial)
      with full False show False by simp
    qed
    with full have t: "ring_tail q = 0" by simp
    let ?q' = "q\<lparr>ring_maxsize := int ?n * 2,
                 ring_buffer := ring_buffer q @ replicate ?n \<lparr>tv_time = 0, tv_value = 0\<rparr>\<rparr>"
    have "ring_grow q = Inr ?q'" using False full by (simp add: ring_grow_def Let_def)
    moreover have "ring_live ?q' = ring_live q"
      by (simp add: ring_live_def full t nth_append)
    moreover have "ring_wf ?q'" using full h t by (simp add: ring_wf_def)
    ultimately show ?thesis using full by auto
  qed
qed

lemma ring_push_refines:
  fixes v :: time_value
  assumes "ring_wf q" "ring_size q < ring_maxsize q"
  defines "h \<equiv> (ring_head q + 1) smod ring_maxsize q"
  defines "q' \<equiv> q\<lparr>ring_head := h, ring_buffer := (ring_buffer q)[nat h := v], ring_size := ring_size q + 1\<rparr>"
  shows "c_store (ring_buffer q) h v = Inr ((ring_buffer q)[nat h := v])"
    and "ring_wf q'" and "ring_live q' = ring_live q @ [v]"
proof -
  let ?n = "length (ring_buffer q)"
  have wf: "ring_maxsize q = int ?n" "0 < ?n" "0 \<le> ring_size q" "0 \<le> ring_tail q" "ring_tail q < int ?n"
      "0 \<le> ring_head q" "ring_head q < int ?n" "ring_size q < int ?n"
      "(ring_head q + 1) mod int ?n = (ring_tail q + ring_size q) mod int ?n"
    using assms by (auto simp: ring_wf_def)
  have h: "h = (ring_tail q + ring_size q) mod int ?n"
    using wf by (simp add: h_def)
  then have hb: "0 \<le> h" "h < int ?n" using wf by auto
  show "c_store (ring_buffer q) h v = Inr ((ring_buffer q)[nat h := v])" using hb by (simp add: c_store_def)
  have "(h + 1) mod int ?n = (ring_tail q + (ring_size q + 1)) mod int ?n"
    by (simp add: h mod_simps ac_simps)
  then show "ring_wf q'" using wf hb by (simp add: ring_wf_def q'_def)
  have "(ring_tail q + int k) mod int ?n \<noteq> h" if "k < nat (ring_size q)" for k
  proof
    assume "(ring_tail q + int k) mod int ?n = h"
    then have "(ring_tail q + int k) mod int ?n = (ring_tail q + ring_size q) mod int ?n" by (simp add: h)
    then have "int k = ring_size q" by (rule mod_add_cancel_bounded) (use that wf in simp_all)
    with that show False by simp
  qed
  then have "ring_buffer q' ! nat ((ring_tail q + int k) mod int ?n)
      = ring_buffer q ! nat ((ring_tail q + int k) mod int ?n)" if "k < nat (ring_size q)" for k
    using that hb wf by (fastforce simp: q'_def nth_list_update eq_nat_nat_iff)
  moreover have "ring_buffer q' ! nat ((ring_tail q + ring_size q) mod int ?n) = v"
    using hb by (simp add: q'_def flip: h)
  moreover have "nat (ring_size q + 1) = Suc (nat (ring_size q))" using wf by simp
  ultimately show "ring_live q' = ring_live q @ [v]"
    using wf by (simp add: ring_live_def q'_def)
qed

text \<open>
  \<open>time_average_add\<close> on the live entries: those older than the window leave from the front
  and the new one is appended. It never faults, and the running sum stays exact.
\<close>

theorem time_average_add_refines:
  assumes "time_average_wf t"
  shows "\<exists>t'. time_average_add t time value = Inr t' \<and> time_average_wf t'
           \<and> ring_live (ring t')
             = dropWhile (\<lambda>v. tv_time v < time - of_int (ta_duration t)) (ring_live (ring t))
               @ [\<lparr>tv_time = time, tv_value = value\<rparr>]"
proof -
  obtain u where u: "remove_old t time = Inr u" "time_average_wf u" "ta_duration u = ta_duration t"
      "ring_live (ring u)
        = dropWhile (\<lambda>v. tv_time v < time - of_int (ta_duration t)) (ring_live (ring t))"
    using remove_old_refines [OF assms] by blast
  let ?g = "if ring_size (ring u) = ring_maxsize (ring u) then ring_grow (ring u) else Inr (ring u)"
  have "\<exists>q. ?g = Inr q \<and> ring_wf q \<and> ring_live q = ring_live (ring u) \<and> ring_size q < ring_maxsize q"
    using u(2) ring_grow_refines [of "ring u"] by (auto simp: time_average_wf_def ring_wf_def)
  then obtain q where q: "?g = Inr q" "ring_wf q" "ring_live q = ring_live (ring u)"
      "ring_size q < ring_maxsize q" by blast
  show ?thesis
    using u q ring_push_refines [OF q(2,4), of "\<lparr>tv_time = time, tv_value = value\<rparr>"]
    by (simp add: time_average_add_def Let_def time_average_wf_def)
qed

section \<open>The mean of a sequence of samples\<close>

lemma time_average_add_duration:
  assumes "time_average_wf t" "time_average_add t time v = Inr t'"
  shows "ta_duration t' = ta_duration t"
proof -
  obtain u where "remove_old t time = Inr u" "ta_duration u = ta_duration t" using remove_old_refines [OF assms(1), of time] by blast
  then show ?thesis using assms(2) by (auto simp: time_average_add_def Let_def res_simps)
qed

fun add_samples :: "(u64 \<times> u64) list \<Rightarrow> time_average \<Rightarrow> time_average res" where
  "add_samples [] t = Inr t"
| "add_samples ((time, v) # l) t = res_bind (time_average_add t time v) (add_samples l)"

text \<open>What the additions leave in the ring, on a list: samples are removed from the front only.\<close>

definition samples_in_window :: "int \<Rightarrow> u64 \<Rightarrow> time_value list \<Rightarrow> time_value list" where
  "samples_in_window dur now l = dropWhile (\<lambda>v. tv_time v < now - of_int dur) l"

fun samples_window :: "int \<Rightarrow> (u64 \<times> u64) list \<Rightarrow> time_value list \<Rightarrow> time_value list" where
  "samples_window dur [] l = l"
| "samples_window dur ((time, v) # s) l = samples_window dur s (samples_in_window dur time l @ [\<lparr>tv_time = time, tv_value = v\<rparr>])"

lemma add_samples_refines:
  "time_average_wf t \<Longrightarrow> ta_duration t = dur \<Longrightarrow>
   \<exists>t'. add_samples s t = Inr t' \<and> time_average_wf t' \<and> ta_duration t' = dur \<and> ring_live (ring t') = samples_window dur s (ring_live (ring t))"
proof (induction s arbitrary: t)
  case (Cons p s)
  obtain time v where p: "p = (time, v)" by (cases p)
  obtain t' where "time_average_add t time v = Inr t'" "time_average_wf t'"
    "ring_live (ring t') = samples_in_window dur time (ring_live (ring t)) @ [\<lparr>tv_time = time, tv_value = v\<rparr>]"
    using time_average_add_refines [OF Cons.prems(1), of time v] Cons.prems(2) by (auto simp: samples_in_window_def)
  then show ?case using Cons.IH [of t'] time_average_add_duration [OF Cons.prems(1), of time v t'] Cons.prems(2) p by auto
qed simp

lemma time_average_new_wf:
  assumes "time_average_new dur n = Inr t" "0 < n"
  shows "time_average_wf t \<and> ta_duration t = dur \<and> ring_live (ring t) = []"
  using assms by (auto simp: time_average_new_def time_average_wf_def ring_wf_def ring_live_def split: if_splits)

text \<open>The documented window: the samples that are at most \<open>dur\<close> older than \<open>now\<close>.\<close>

definition fresh :: "int \<Rightarrow> u64 \<Rightarrow> time_value \<Rightarrow> bool" where
  "fresh dur now v \<longleftrightarrow> uint now - dur \<le> uint (tv_time v)"

definition sample :: "u64 \<times> u64 \<Rightarrow> time_value" where
  "sample p = \<lparr>tv_time = fst p, tv_value = snd p\<rparr>"

abbreviation in_time :: "time_value list \<Rightarrow> bool" where
  "in_time \<equiv> sorted_wrt (\<lambda>a b. tv_time a \<le> tv_time b)"

lemma fresh_iff:
  assumes "0 \<le> dur" "dur \<le> uint now"
  shows "tv_time v < now - of_int dur \<longleftrightarrow> \<not> fresh dur now v"
proof -
  have d: "uint (of_int dur :: u64) = dur" using assms uint_lt2p [of now] by (simp add: uint_word_of_int)
  have "uint (now - of_int dur) = uint now - dur"
    using assms(2) uint_sub_if' [of now "of_int dur"] unfolding d by simp
  then show ?thesis by (auto simp: word_less_def fresh_def)
qed

lemma samples_in_window_filter:
  assumes "0 \<le> dur" "dur \<le> uint now" "in_time l"
  shows "samples_in_window dur now l = filter (fresh dur now) l"
  using assms(3)
proof (induction l)
  case (Cons v l)
  show ?case
  proof (cases "fresh dur now v")
    case True
    then have "\<forall>w\<in>set l. fresh dur now w" using Cons.prems by (auto simp: fresh_def word_le_def)
    then show ?thesis using True by (simp add: samples_in_window_def fresh_iff [OF assms(1,2)])
  next
    case False
    then show ?thesis using Cons by (simp add: samples_in_window_def fresh_iff [OF assms(1,2)])
  qed
qed (simp add: samples_in_window_def)

lemma samples_window_filter:
  assumes "0 \<le> dur" "in_time (l @ map sample s)" "\<forall>p\<in>set s. dur \<le> uint (fst p) \<and> fst p \<le> now"
  shows "filter (fresh dur now) (samples_window dur s l) = filter (fresh dur now) (l @ map sample s) \<and> in_time (samples_window dur s l)"
  using assms(2,3)
proof (induction s arbitrary: l)
  case (Cons p s)
  obtain t v where p: "p = (t, v)" by (cases p)
  have t: "dur \<le> uint t" "t \<le> now" using Cons.prems(2) p by auto
  let ?l = "filter (fresh dur t) l @ [sample p]"
  have w: "samples_window dur (p # s) l = samples_window dur s ?l"
    using samples_in_window_filter [OF assms(1) t(1), of l] Cons.prems(1) by (simp add: p sample_def sorted_wrt_append)
  have "in_time (?l @ map sample s)" using Cons.prems(1) by (auto simp: sorted_wrt_append sorted_wrt_filter)
  then have ih: "filter (fresh dur now) (samples_window dur s ?l) = filter (fresh dur now) (?l @ map sample s)"
    "in_time (samples_window dur s ?l)"
    using Cons.IH [of ?l] Cons.prems(2) by auto
  have "fresh dur t v" if "fresh dur now v" for v using that t(2) by (simp add: fresh_def word_le_def)
  then have "filter (fresh dur now) (filter (fresh dur t) l) = filter (fresh dur now) l"
    unfolding filter_filter by (intro filter_cong) auto
  then show ?case using ih unfolding w by simp
qed simp

lemma get_average_window:
  assumes "time_average_wf t" "live = samples_in_window (ta_duration t) now (ring_live (ring t))"
  shows "\<exists>t'. time_average_get_average t now = Inr (if live = [] then 0
      else round_double (round_double (of_nat (unat (\<Sum>v\<leftarrow>live. tv_value v))) / of_nat (length live)), t')
    \<and> ring_live (ring t') = live"
proof -
  obtain t' where t': "remove_old t now = Inr t'" "time_average_wf t'" "ring_live (ring t') = live"
    using remove_old_refines [OF assms(1), of now] assms(2) by (auto simp: samples_in_window_def)
  have size: "ring_size (ring t') = int (length live)" "accumulated_value t' = (\<Sum>v\<leftarrow>live. tv_value v)"
    using t'(2) length_ring_live [of "ring t'"] unfolding t'(3) [symmetric] by (auto simp: time_average_wf_def ring_wf_def)
  show ?thesis using t'(3) by (intro exI [of _ t']) (simp add: time_average_get_average_def t'(1) size)
qed



text \<open>
  What happens outside these conditions: after a step back of the clock an old sample stays behind
  a young one, and with time stamps below the duration \<open>time - duration\<close> wraps and
  samples of the window are dropped.
\<close>

lemma average_of_ring:
  assumes "time_average_new dur n = Inr t0" "0 < n" "live = samples_in_window dur now (samples_window dur s [])"
  shows "res_bind (add_samples s t0) (\<lambda>t. res_bind (time_average_get_average t now) (\<lambda>r. Inr (fst r))) = Inr (if live = [] then 0
      else round_double (round_double (of_nat (unat (\<Sum>v\<leftarrow>live. tv_value v))) / of_nat (length live)))"
proof -
  obtain t where t: "add_samples s t0 = Inr t" "time_average_wf t" "ta_duration t = dur" "ring_live (ring t) = samples_window dur s []"
    using add_samples_refines [of t0 dur s] time_average_new_wf [OF assms(1,2)] by auto
  then show ?thesis using get_average_window [OF t(2), of live now] assms(3) by auto
qed

lemma time_average_clock_back:
  "res_bind (time_average_new 10 2) (\<lambda>t. res_bind (add_samples [(108, 9), (90, 1)] t) (\<lambda>t.
     res_bind (time_average_get_average t 112) (\<lambda>r. Inr (fst r)))) = Inr 5"
proof -
  obtain t0 where t0: "time_average_new 10 2 = Inr t0" by (simp add: time_average_new_def)
  have rd: "round_double (round_double 10 / 2) = 5" by code_simp
  show ?thesis using average_of_ring [OF t0 _ refl, of "[(108, 9), (90, 1)]" 112] t0 rd by (simp add: samples_in_window_def)
qed

lemma time_average_wraps:
  "res_bind (time_average_new 10 2) (\<lambda>t. res_bind (add_samples [(3, 9)] t) (\<lambda>t.
     res_bind (time_average_get_average t 5) (\<lambda>r. Inr (fst r)))) = Inr 0"
proof -
  obtain t0 where t0: "time_average_new 10 2 = Inr t0" by (simp add: time_average_new_def)
  show ?thesis using average_of_ring [OF t0 _ refl, of "[(3, 9)]" 5] t0 by (simp add: samples_in_window_def)
qed

end
