(* ===== verification/RLC_Common.thy ===== *)
theory RLC_Common
  imports Time_Stat RLC_Pdu
begin

text \<open>
  What the three RLC entities share: the transmit SDUs and their segments
  (\<open>nr_rlc_sdu.c\<close>), and the common part of an entity (\<open>nr_rlc_entity.h\<close>): buffer status,
  statistics, callbacks.

  An SDU is shared by all its segments, which write its sequence number, its counters and
  free it, so SDUs live in an explicit store from addresses to values; a segment holds the
  address of its SDU and has an address of its own, which the tail pointers of the segment
  lists (\<open>tx_end\<close>, \<open>wait_end\<close>) refer to. The linked lists themselves are lists. Reading a
  freed SDU is the fault \<^const>\<open>Use_after_free\<close>.

  The calls an entity makes to the callbacks it was given (\<open>deliver_sdu\<close>,
  \<open>sdu_successful_delivery\<close>, \<open>max_retx_reached\<close>) are recorded in order in the field
  \<open>calls\<close>: they are the observable output of an entity.
\<close>

section \<open>Transmit SDUs and segments\<close>

record nr_rlc_sdu =
  sdu_sn :: int
  sdu_upper_layer_id :: int
  sdu_data :: "byte list"
  sdu_size :: int
  sdu_retx_count :: int
  sdu_ref_count :: int
  sdu_free_count :: int
  sdu_time_of_arrival :: u64

record nr_rlc_sdu_segment =
  seg_ptr :: addr
  seg_sdu :: addr
  seg_size :: int
  seg_so :: int
  seg_is_first :: bool
  seg_is_last :: bool

text \<open>The store of live SDUs, and the next address \<open>malloc\<close> hands out.\<close>

record sdu_mem =
  sdus :: "addr \<rightharpoonup> nr_rlc_sdu"
  brk :: addr

definition sdu_read :: "sdu_mem \<Rightarrow> addr \<Rightarrow> nr_rlc_sdu res" where
  "sdu_read m a = (case sdus m a of None \<Rightarrow> Inl Use_after_free | Some s \<Rightarrow> Inr s)"

definition sdu_write :: "sdu_mem \<Rightarrow> addr \<Rightarrow> nr_rlc_sdu \<Rightarrow> sdu_mem" where
  "sdu_write m a s = m\<lparr>sdus := (sdus m)(a \<mapsto> s)\<rparr>"

definition nr_rlc_new_sdu ::
  "sdu_mem \<Rightarrow> byte list \<Rightarrow> int \<Rightarrow> nr_rlc_sdu_segment \<times> sdu_mem" where
  "nr_rlc_new_sdu m buf upper_layer_id =
     (let size = int (length buf); a = brk m
      in (\<lparr>seg_ptr = a + 1, seg_sdu = a, seg_size = size, seg_so = 0,
           seg_is_first = True, seg_is_last = True\<rparr>,
          \<lparr>sdus = (sdus m)(a \<mapsto>
             \<lparr>sdu_sn = -1, sdu_upper_layer_id = upper_layer_id, sdu_data = buf, sdu_size = size,
              sdu_retx_count = -1, sdu_ref_count = 1, sdu_free_count = 0,
              sdu_time_of_arrival = 0\<rparr>),
           brk = a + 2\<rparr>))"

text \<open>Returns whether the SDU has been freed too.\<close>

definition nr_rlc_free_sdu_segment ::
  "sdu_mem \<Rightarrow> nr_rlc_sdu_segment \<Rightarrow> (bool \<times> sdu_mem) res" where
  "nr_rlc_free_sdu_segment m seg =
     res_bind (sdu_read m (seg_sdu seg)) (\<lambda>s.
     let s' = s\<lparr>sdu_free_count := sdu_free_count s + 1\<rparr> in
     if sdu_free_count s' = sdu_ref_count s'
     then Inr (True, m\<lparr>sdus := (sdus m)(seg_sdu seg := None)\<rparr>)
     else Inr (False, sdu_write m (seg_sdu seg) s'))"

text \<open>
  \<open>(*end)->next = seg\<close>: the node at address \<open>p\<close> becomes the last but one of the list; if
  no node of the list has that address, the tail pointer dangles.
\<close>

fun link_after :: "nr_rlc_sdu_segment list \<Rightarrow> addr \<Rightarrow> nr_rlc_sdu_segment
    \<Rightarrow> nr_rlc_sdu_segment list res" where
  "link_after [] p seg = Inl Use_after_free"
| "link_after (x # xs) p seg =
     (if seg_ptr x = p then Inr [x, seg]
      else res_bind (link_after xs p seg) (\<lambda>ys. Inr (x # ys)))"

definition nr_rlc_sdu_segment_list_append ::
  "nr_rlc_sdu_segment list \<Rightarrow> addr option \<Rightarrow> nr_rlc_sdu_segment
   \<Rightarrow> (nr_rlc_sdu_segment list \<times> addr option) res" where
  "nr_rlc_sdu_segment_list_append l l_end seg =
     (if l = [] then Inr ([seg], Some (seg_ptr seg))
      else case l_end of
             None \<Rightarrow> Inl Null_deref
           | Some p \<Rightarrow> res_bind (link_after l p seg) (\<lambda>l'. Inr (l', Some (seg_ptr seg))))"

fun nr_rlc_free_sdu_segment_list :: "sdu_mem \<Rightarrow> nr_rlc_sdu_segment list \<Rightarrow> sdu_mem res" where
  "nr_rlc_free_sdu_segment_list m [] = Inr m"
| "nr_rlc_free_sdu_segment_list m (cur # l) =
     res_bind (nr_rlc_free_sdu_segment m cur) (\<lambda>(_, m'). nr_rlc_free_sdu_segment_list m' l)"

section \<open>The common part of an entity\<close>

datatype nr_rlc_mode = NR_RLC_AM | NR_RLC_UM | NR_RLC_TM

record nr_rlc_statistics =
  mode :: nr_rlc_mode
  txpdu_pkts :: u32
  txpdu_bytes :: u32
  txpdu_wt_ms :: u32
  txpdu_dd_pkts :: u32
  txpdu_dd_bytes :: u32
  txpdu_retx_pkts :: u32
  txpdu_retx_bytes :: u32
  txpdu_segmented :: u32
  txpdu_status_pkts :: u32
  txpdu_status_bytes :: u32
  txbuf_occ_bytes :: u32
  txbuf_occ_pkts :: u32
  rxpdu_pkts :: u32
  rxpdu_bytes :: u32
  rxpdu_dup_pkts :: u32
  rxpdu_dup_bytes :: u32
  rxpdu_dd_pkts :: u32
  rxpdu_dd_bytes :: u32
  rxpdu_ow_pkts :: u32
  rxpdu_ow_bytes :: u32
  rxpdu_status_pkts :: u32
  rxpdu_status_bytes :: u32
  rxbuf_occ_bytes :: u32
  rxbuf_occ_pkts :: u32
  txsdu_pkts :: u32
  txsdu_bytes :: u64
  txsdu_avg_time :: rat
  txsdu_wt_us :: u32
  rxsdu_pkts :: u32
  rxsdu_bytes :: u64
  rxsdu_dd_pkts :: u32
  rxsdu_dd_bytes :: u32

record nr_rlc_entity_buffer_status =
  bs_status_size :: int
  bs_tx_size :: int
  bs_retx_size :: int

datatype rlc_call =
    Deliver_sdu "byte list"
  | Sdu_successful_delivery int
  | Max_retx_reached

record nr_rlc_entity =
  calls :: "rlc_call list"
  bstatus :: nr_rlc_entity_buffer_status
  stats :: nr_rlc_statistics
  txsdu_avg_time_to_tx :: time_average
  avg_time_is_on :: bool
  mem :: sdu_mem

text \<open>
  The waiting-time average of the SDU that has just been passed to the MAC; \<open>now\<close> is the
  value \<open>time_average_now()\<close> returns.
\<close>

definition account_waiting_time :: "u64 \<Rightarrow> nr_rlc_sdu \<Rightarrow> nr_rlc_entity \<Rightarrow> nr_rlc_entity res" where
  "account_waiting_time now s c =
     (if avg_time_is_on c
      then res_bind (time_average_add (txsdu_avg_time_to_tx c) now (now - sdu_time_of_arrival s))
             (\<lambda>t. Inr (c\<lparr>txsdu_avg_time_to_tx := t\<rparr>))
      else Inr c)"

definition NR_SDU_MAX :: int where
  "NR_SDU_MAX = 16000"

text \<open>
  What the three constructors do to the common part: \<open>calloc\<close> zeroes it, the mode is set and
  the waiting-time average (100 ms, 1024 samples) is created. Setting the function pointers
  of the entity is the choice of its operations.
\<close>

definition zero_stats :: "nr_rlc_mode \<Rightarrow> nr_rlc_statistics" where
  "zero_stats md = \<lparr>mode = md, txpdu_pkts = 0, txpdu_bytes = 0, txpdu_wt_ms = 0, txpdu_dd_pkts = 0,
     txpdu_dd_bytes = 0, txpdu_retx_pkts = 0, txpdu_retx_bytes = 0, txpdu_segmented = 0,
     txpdu_status_pkts = 0, txpdu_status_bytes = 0, txbuf_occ_bytes = 0, txbuf_occ_pkts = 0,
     rxpdu_pkts = 0, rxpdu_bytes = 0, rxpdu_dup_pkts = 0, rxpdu_dup_bytes = 0, rxpdu_dd_pkts = 0,
     rxpdu_dd_bytes = 0, rxpdu_ow_pkts = 0, rxpdu_ow_bytes = 0, rxpdu_status_pkts = 0,
     rxpdu_status_bytes = 0, rxbuf_occ_bytes = 0, rxbuf_occ_pkts = 0, txsdu_pkts = 0,
     txsdu_bytes = 0, txsdu_avg_time = 0, txsdu_wt_us = 0, rxsdu_pkts = 0, rxsdu_bytes = 0,
     rxsdu_dd_pkts = 0, rxsdu_dd_bytes = 0\<rparr>"

definition new_common :: "nr_rlc_mode \<Rightarrow> nr_rlc_entity res" where
  "new_common md =
     res_bind (time_average_new (100 * 1000) 1024) (\<lambda>t.
     Inr \<lparr>calls = [], bstatus = \<lparr>bs_status_size = 0, bs_tx_size = 0, bs_retx_size = 0\<rparr>,
          stats = zero_stats md, txsdu_avg_time_to_tx = t, avg_time_is_on = False,
          mem = \<lparr>sdus = Map.empty, brk = 0\<rparr>\<rparr>)"

section \<open>Tail pointers\<close>

text \<open>The tail pointer of a list is the address of its last node, and addresses are distinct.\<close>

definition tail_ok :: "nr_rlc_sdu_segment list \<Rightarrow> addr option \<Rightarrow> bool" where
  "tail_ok l l_end \<longleftrightarrow> distinct (map seg_ptr l)
     \<and> l_end = (if l = [] then None else Some (seg_ptr (last l)))"

lemma tail_ok_Nil [simp]: "tail_ok [] l_end \<longleftrightarrow> l_end = None"
  by (simp add: tail_ok_def)

lemma tail_ok_pop:
  "tail_ok (x # l) l_end \<Longrightarrow> tail_ok l (if l = [] then None else l_end)"
  by (simp add: tail_ok_def)

lemma tail_ok_push:
  "tail_ok l l_end \<Longrightarrow> seg_ptr x \<notin> seg_ptr ` set l \<Longrightarrow>
   tail_ok (x # l) (if l_end = None then Some (seg_ptr x) else l_end)"
  by (auto simp: tail_ok_def)

lemma link_after_last:
  "distinct (map seg_ptr (l @ [x])) \<Longrightarrow> link_after (l @ [x]) (seg_ptr x) seg = Inr (l @ [x, seg])"
  by (induction l) auto

lemma list_append_ok:
  assumes "tail_ok l l_end" and "seg_ptr seg \<notin> seg_ptr ` set l"
  shows "nr_rlc_sdu_segment_list_append l l_end seg = Inr (l @ [seg], Some (seg_ptr seg))"
    and "tail_ok (l @ [seg]) (Some (seg_ptr seg))"
proof -
  show "nr_rlc_sdu_segment_list_append l l_end seg = Inr (l @ [seg], Some (seg_ptr seg))"
  proof (cases l rule: rev_cases)
    case Nil
    then show ?thesis by (simp add: nr_rlc_sdu_segment_list_append_def)
  next
    case (snoc k x)
    with assms(1) show ?thesis
      by (simp add: nr_rlc_sdu_segment_list_append_def tail_ok_def link_after_last del: map_append)
  qed
  show "tail_ok (l @ [seg]) (Some (seg_ptr seg))" using assms by (auto simp: tail_ok_def)
qed

section \<open>Reference counts\<close>

text \<open>
  \<open>refs_ok m segs\<close>: \<open>segs\<close> are exactly the live segments of the store \<open>m\<close>. Every live SDU
  has at least one segment, its counters differ by the number of its segments, every segment
  lies inside the data of its live SDU and is flagged as first and last accordingly, and no
  address has been handed out twice.
\<close>

definition refs :: "nr_rlc_sdu_segment list \<Rightarrow> addr \<Rightarrow> int" where
  "refs segs a = int (length (filter (\<lambda>g. seg_sdu g = a) segs))"

definition seg_in_sdu :: "nr_rlc_sdu \<Rightarrow> nr_rlc_sdu_segment \<Rightarrow> bool" where
  "seg_in_sdu s g \<longleftrightarrow> 0 \<le> seg_so g \<and> 0 < seg_size g \<and> seg_so g + seg_size g \<le> sdu_size s
     \<and> (seg_is_first g \<longleftrightarrow> seg_so g = 0) \<and> (seg_is_last g \<longleftrightarrow> seg_so g + seg_size g = sdu_size s)"

definition refs_ok :: "sdu_mem \<Rightarrow> nr_rlc_sdu_segment list \<Rightarrow> bool" where
  "refs_ok m segs \<longleftrightarrow>
     (\<forall>a. case sdus m a of
            None \<Rightarrow> refs segs a = 0
          | Some s \<Rightarrow> refs segs a = sdu_ref_count s - sdu_free_count s \<and> 0 < refs segs a
              \<and> sdu_size s = int (length (sdu_data s)) \<and> a < brk m
              \<and> (\<forall>g \<in> set segs. seg_sdu g = a \<longrightarrow> seg_in_sdu s g))
     \<and> (\<forall>g \<in> set segs. seg_ptr g < brk m)"

lemma refs_simps [simp]:
  "refs [] a = 0"
  "refs (g # l) a = (if seg_sdu g = a then 1 else 0) + refs l a"
  "refs (l @ k) a = refs l a + refs k a"
  by (simp_all add: refs_def)

lemma refs_nonneg [simp]: "0 \<le> refs l a"
  by (simp add: refs_def)

lemma refs_mset: "mset l = mset k \<Longrightarrow> refs l a = refs k a"
  unfolding refs_def by (metis mset_filter size_mset)

lemma refs_ok_mset: "mset l = mset k \<Longrightarrow> refs_ok m l = refs_ok m k"
proof -
  assume eq: "mset l = mset k"
  then have r: "refs l = refs k" by (intro ext refs_mset)
  have st: "set l = set k" using eq by (rule mset_eq_setD)
  show ?thesis unfolding refs_ok_def r st ..
qed

lemma refs_pos_iff: "0 < refs l a \<longleftrightarrow> a \<in> seg_sdu ` set l"
  by (induction l) (auto simp: add_pos_nonneg)

lemma refs_zero_iff: "refs l a = 0 \<longleftrightarrow> a \<notin> seg_sdu ` set l"
  using refs_pos_iff [of l a] refs_nonneg [of l a] by linarith

lemma refs_ok_empty: "refs_ok m [] \<longleftrightarrow> sdus m = Map.empty"
  by (auto simp: refs_ok_def fun_eq_iff split: option.splits)

lemma refs_okD:
  assumes "refs_ok m segs" "g \<in> set segs"
  shows "\<exists>s. sdus m (seg_sdu g) = Some s \<and> sdu_read m (seg_sdu g) = Inr s \<and> seg_in_sdu s g
           \<and> sdu_size s = int (length (sdu_data s))
           \<and> refs segs (seg_sdu g) = sdu_ref_count s - sdu_free_count s"
proof -
  have "0 < refs segs (seg_sdu g)" using assms(2) by (auto simp: refs_pos_iff)
  with assms show ?thesis
    by (auto simp: refs_ok_def sdu_read_def split: option.splits
        dest!: spec [where x = "seg_sdu g"])
qed

lemma refs_ok_new_sdu:
  assumes "refs_ok m segs" "buf \<noteq> []" "nr_rlc_new_sdu m buf uid = (g, m')"
  shows "refs_ok m' (g # segs)" "seg_ptr g \<notin> seg_ptr ` set segs" "seg_sdu g \<notin> seg_sdu ` set segs"
    "seg_size g = int (length buf)" "seg_is_first g" "seg_is_last g" "seg_so g = 0"
    "sdu_read m' (seg_sdu g) = Inr \<lparr>sdu_sn = -1, sdu_upper_layer_id = uid, sdu_data = buf,
       sdu_size = int (length buf), sdu_retx_count = -1, sdu_ref_count = 1, sdu_free_count = 0,
       sdu_time_of_arrival = 0\<rparr>"
proof -
  have g: "g = \<lparr>seg_ptr = brk m + 1, seg_sdu = brk m, seg_size = int (length buf), seg_so = 0,
           seg_is_first = True, seg_is_last = True\<rparr>"
    and m': "sdus m' = (sdus m)(brk m \<mapsto> \<lparr>sdu_sn = -1, sdu_upper_layer_id = uid, sdu_data = buf,
       sdu_size = int (length buf), sdu_retx_count = -1, sdu_ref_count = 1, sdu_free_count = 0,
       sdu_time_of_arrival = 0\<rparr>)" "brk m' = brk m + 2"
    using assms(3) by (auto simp: nr_rlc_new_sdu_def Let_def)
  have fresh: "sdus m (brk m) = None"
    using assms(1) by (auto simp: refs_ok_def split: option.splits dest!: spec [where x = "brk m"])
  then have r0: "refs segs (brk m) = 0"
    using assms(1) by (auto simp: refs_ok_def split: option.splits dest!: spec [where x = "brk m"])
  then have no: "\<forall>h \<in> set segs. seg_sdu h \<noteq> brk m"
    unfolding refs_zero_iff by force
  then show "seg_sdu g \<notin> seg_sdu ` set segs" by (auto simp: g)
  show "seg_ptr g \<notin> seg_ptr ` set segs"
    using assms(1) by (force simp: g refs_ok_def)
  show "refs_ok m' (g # segs)"
    unfolding refs_ok_def
  proof (intro conjI allI)
    fix a
    show "case sdus m' a of
            None \<Rightarrow> refs (g # segs) a = 0
          | Some s \<Rightarrow> refs (g # segs) a = sdu_ref_count s - sdu_free_count s
              \<and> 0 < refs (g # segs) a \<and> sdu_size s = int (length (sdu_data s)) \<and> a < brk m'
              \<and> (\<forall>h \<in> set (g # segs). seg_sdu h = a \<longrightarrow> seg_in_sdu s h)"
    proof (cases "a = brk m")
      case True
      with no r0 assms(2) show ?thesis by (auto simp: g m' seg_in_sdu_def)
    next
      case False
      then show ?thesis
        using assms(1) by (auto simp: g m' refs_ok_def split: option.splits dest!: spec [where x = a])
    qed
  qed (use assms(1) in \<open>force simp: g m' refs_ok_def\<close>)
qed (use assms(3) in \<open>auto simp: nr_rlc_new_sdu_def Let_def sdu_read_def\<close>)

lemma refs_ok_free:
  assumes "refs_ok m (g # segs)"
  shows "\<exists>m'. nr_rlc_free_sdu_segment m g = Inr (seg_sdu g \<notin> seg_sdu ` set segs, m') \<and> refs_ok m' segs
           \<and> brk m' = brk m \<and> (\<forall>a. a \<noteq> seg_sdu g \<longrightarrow> sdus m' a = sdus m a)
           \<and> sdus m' (seg_sdu g)
             = (if seg_sdu g \<in> seg_sdu ` set segs
                then map_option (\<lambda>s. s\<lparr>sdu_free_count := sdu_free_count s + 1\<rparr>) (sdus m (seg_sdu g)) else None)"
proof -
  let ?a = "seg_sdu g"
  obtain s where s: "sdus m ?a = Some s" "sdu_read m ?a = Inr s"
      "1 + refs segs ?a = sdu_ref_count s - sdu_free_count s" "sdu_size s = int (length (sdu_data s))"
    using refs_okD [OF assms, of g] by auto
  have last: "sdu_free_count s + 1 = sdu_ref_count s \<longleftrightarrow> ?a \<notin> seg_sdu ` set segs"
    unfolding refs_zero_iff [symmetric] using s(3) by auto
  let ?m' = "if ?a \<notin> seg_sdu ` set segs then m\<lparr>sdus := (sdus m)(?a := None)\<rparr>
             else sdu_write m ?a (s\<lparr>sdu_free_count := sdu_free_count s + 1\<rparr>)"
  have "nr_rlc_free_sdu_segment m g = Inr (?a \<notin> seg_sdu ` set segs, ?m')"
    using s last by (simp add: nr_rlc_free_sdu_segment_def Let_def)
  moreover have "refs_ok ?m' segs"
    unfolding refs_ok_def
  proof (intro conjI allI)
    fix a
    show "case sdus ?m' a of
            None \<Rightarrow> refs segs a = 0
          | Some s \<Rightarrow> refs segs a = sdu_ref_count s - sdu_free_count s \<and> 0 < refs segs a
              \<and> sdu_size s = int (length (sdu_data s)) \<and> a < brk ?m'
              \<and> (\<forall>g \<in> set segs. seg_sdu g = a \<longrightarrow> seg_in_sdu s g)"
    proof (cases "a = ?a")
      case True
      then show ?thesis
        using s assms refs_pos_iff [of segs ?a] refs_nonneg [of segs ?a]
        by (auto simp: sdu_write_def refs_ok_def seg_in_sdu_def dest!: spec [where x = ?a])
    next
      case False
      then show ?thesis
        using assms by (auto simp: sdu_write_def refs_ok_def split: option.splits dest!: spec [where x = a])
    qed
  qed (use assms in \<open>auto simp: refs_ok_def sdu_write_def\<close>)
  ultimately show ?thesis by (auto simp: sdu_write_def s)
qed

lemma refs_ok_free_list:
  "refs_ok m (l @ segs) \<Longrightarrow> \<exists>m'. nr_rlc_free_sdu_segment_list m l = Inr m' \<and> refs_ok m' segs"
proof (induction l arbitrary: m)
  case Nil
  then show ?case by simp
next
  case (Cons g l)
  then show ?case using refs_ok_free [of m g "l @ segs"] by auto
qed

text \<open>The bytes of the SDU a segment belongs to.\<close>

definition sdu_bytes :: "sdu_mem \<Rightarrow> nr_rlc_sdu_segment \<Rightarrow> byte list" where
  "sdu_bytes m g = (case sdus m (seg_sdu g) of None \<Rightarrow> [] | Some s \<Rightarrow> sdu_data s)"

section \<open>Lemmas on the common part\<close>

lemma account_waiting_time_ok:
  assumes "time_average_wf (txsdu_avg_time_to_tx c)"
  shows "\<exists>t. account_waiting_time now s c = Inr (c\<lparr>txsdu_avg_time_to_tx := t\<rparr>) \<and> time_average_wf t"
proof (cases "avg_time_is_on c")
  case True
  then show ?thesis
    using time_average_add_refines [OF assms, of now "now - sdu_time_of_arrival s"]
    by (auto simp: account_waiting_time_def)
next
  case False
  with assms show ?thesis
    by (intro exI [of _ "txsdu_avg_time_to_tx c"]) (simp add: account_waiting_time_def)
qed

lemma new_common_ok:
  "\<exists>c. new_common md = Inr c \<and> sdus (mem c) = Map.empty \<and> calls c = [] \<and> avg_time_is_on c = False
     \<and> bstatus c = \<lparr>bs_status_size = 0, bs_tx_size = 0, bs_retx_size = 0\<rparr>
     \<and> time_average_wf (txsdu_avg_time_to_tx c)"
proof -
  obtain t where t: "time_average_new (100 * 1000) 1024 = Inr t" by (simp add: time_average_new_def)
  then show ?thesis using time_average_new_wf [OF t] by (simp add: new_common_def)
qed

text \<open>Writing a field of an SDU that is neither a counter nor its data keeps the references.\<close>

lemma refs_ok_write:
  assumes "refs_ok m segs" "sdus m a = Some s" "sdu_ref_count s' = sdu_ref_count s"
    "sdu_free_count s' = sdu_free_count s" "sdu_data s' = sdu_data s" "sdu_size s' = sdu_size s"
  shows "refs_ok (sdu_write m a s') segs"
  unfolding refs_ok_def
proof (intro conjI allI)
  fix b
  show "case sdus (sdu_write m a s') b of
            None \<Rightarrow> refs segs b = 0
          | Some s \<Rightarrow> refs segs b = sdu_ref_count s - sdu_free_count s \<and> 0 < refs segs b
              \<and> sdu_size s = int (length (sdu_data s)) \<and> b < brk (sdu_write m a s')
              \<and> (\<forall>g \<in> set segs. seg_sdu g = b \<longrightarrow> seg_in_sdu s g)"
    using assms
    by (cases "b = a")
      (auto simp: refs_ok_def sdu_write_def seg_in_sdu_def split: option.splits dest!: spec [where x = b])
qed (use assms(1) in \<open>simp add: refs_ok_def sdu_write_def\<close>)

text \<open>
  Cutting a segment in two: its SDU has one more reference, and the second part is a new
  segment at a fresh address.
\<close>

lemma refs_ok_split:
  assumes ok: "refs_ok m (g # segs)" and s: "sdus m (seg_sdu g) = Some s" and k: "0 < k" "k < seg_size g"
    and m': "m' = (sdu_write m (seg_sdu g) (s\<lparr>sdu_ref_count := sdu_ref_count s + 1\<rparr>))\<lparr>brk := brk m + 1\<rparr>"
    and g': "g' = g\<lparr>seg_size := k, seg_is_last := False\<rparr>"
    and nx: "nx = g\<lparr>seg_ptr := brk m, seg_size := seg_size g - k, seg_so := seg_so g + k, seg_is_first := False\<rparr>"
  shows "refs_ok m' (g' # nx # segs)" and "seg_ptr nx \<notin> seg_ptr ` set (g # segs)"
proof -
  have seg: "seg_in_sdu s g" using refs_okD [OF ok, of g] s by auto
  show "refs_ok m' (g' # nx # segs)"
    unfolding refs_ok_def
  proof (intro conjI allI)
    fix a
    show "case sdus m' a of
            None \<Rightarrow> refs (g' # nx # segs) a = 0
          | Some s \<Rightarrow> refs (g' # nx # segs) a = sdu_ref_count s - sdu_free_count s \<and> 0 < refs (g' # nx # segs) a
              \<and> sdu_size s = int (length (sdu_data s)) \<and> a < brk m'
              \<and> (\<forall>h \<in> set (g' # nx # segs). seg_sdu h = a \<longrightarrow> seg_in_sdu s h)"
    proof (cases "a = seg_sdu g")
      case True
      have old: "refs (g # segs) a = sdu_ref_count s - sdu_free_count s" "sdu_size s = int (length (sdu_data s))"
          "a < brk m" "\<forall>h \<in> set segs. seg_sdu h = a \<longrightarrow> seg_in_sdu s h"
        using ok s True by (auto simp: refs_ok_def dest!: spec [where x = "seg_sdu g"])
      with True k seg show ?thesis
        using refs_nonneg [of segs a]
        by (simp add: m' g' nx sdu_write_def seg_in_sdu_def add_pos_nonneg del: refs_nonneg)
    next
      case False
      then show ?thesis
        using ok by (auto simp: m' g' nx sdu_write_def refs_ok_def split: option.splits dest!: spec [where x = a])
    qed
  qed (use ok in \<open>auto simp: refs_ok_def m' g' nx sdu_write_def less_Suc_eq\<close>)
  show "seg_ptr nx \<notin> seg_ptr ` set (g # segs)" using ok by (auto simp: nx refs_ok_def)
qed

text \<open>
  An SDU from the upper layer is appended to the transmit queue \<open>l\<close>, with or without a
  time stamp; \<open>other\<close> are the segments of other lists.
\<close>

definition stamped :: "bool \<Rightarrow> u64 \<Rightarrow> sdu_mem \<Rightarrow> nr_rlc_sdu_segment \<Rightarrow> nr_rlc_sdu \<Rightarrow> sdu_mem" where
  "stamped on now m g s = (if on then sdu_write m (seg_sdu g) (s\<lparr>sdu_time_of_arrival := now\<rparr>) else m)"

lemma new_sdu_queued:
  assumes refs: "refs_ok m (l @ other)" and tail: "tail_ok l l_end" and buf: "buf \<noteq> []"
    and new: "nr_rlc_new_sdu m buf uid = (g, m')"
  obtains s where "nr_rlc_sdu_segment_list_append l l_end g = Inr (l @ [g], Some (seg_ptr g))"
    "tail_ok (l @ [g]) (Some (seg_ptr g))" "sdu_read m' (seg_sdu g) = Inr s"
    "refs_ok (stamped on now m' g s) ((l @ [g]) @ other)"
    "seg_size g = int (length buf)" "seg_is_first g" "seg_is_last g" "seg_so g = 0"
    "seg_sdu g \<notin> seg_sdu ` set (l @ other)" "seg_ptr g \<notin> seg_ptr ` set (l @ other)"
    "\<forall>h \<in> set (l @ other). sdus (stamped on now m' g s) (seg_sdu h) = sdus m (seg_sdu h)"
    "sdu_bytes (stamped on now m' g s) g = buf"
    "sdus (stamped on now m' g s) (seg_sdu g) = Some (if on then s\<lparr>sdu_time_of_arrival := now\<rparr> else s)"
    "sdu_upper_layer_id s = uid" "sdu_retx_count s = -1" "sdu_size s = int (length buf)"
proof -
  note n = refs_ok_new_sdu [OF refs buf new]
  have fresh: "seg_ptr g \<notin> seg_ptr ` set l" using n(2) by auto
  obtain s where s: "sdus m' (seg_sdu g) = Some s" "sdu_data s = buf" "sdu_read m' (seg_sdu g) = Inr s"
      "sdu_upper_layer_id s = uid" "sdu_retx_count s = -1" "sdu_size s = int (length buf)"
    using n(8) by (auto simp: sdu_read_def split: option.splits)
  have r': "refs_ok m' ((l @ [g]) @ other)" using n(1) by (subst refs_ok_mset [of _ "g # l @ other"]) auto
  have "refs_ok (stamped on now m' g s) ((l @ [g]) @ other)"
    using r' refs_ok_write [OF r' s(1), of "s\<lparr>sdu_time_of_arrival := now\<rparr>"] by (simp add: stamped_def)
  moreover have "\<forall>h \<in> set (l @ other). sdus (stamped on now m' g s) (seg_sdu h) = sdus m (seg_sdu h)"
  proof
    fix h
    assume "h \<in> set (l @ other)"
    then have "seg_sdu h \<noteq> seg_sdu g" using n(3) by (metis imageI)
    moreover from this have "sdus m' (seg_sdu h) = sdus m (seg_sdu h)"
      using new by (auto simp: nr_rlc_new_sdu_def Let_def)
    ultimately show "sdus (stamped on now m' g s) (seg_sdu h) = sdus m (seg_sdu h)"
      by (simp add: stamped_def sdu_write_def)
  qed
  moreover have "sdu_bytes (stamped on now m' g s) g = buf"
    using s by (simp add: stamped_def sdu_bytes_def sdu_write_def)
  moreover have "sdus (stamped on now m' g s) (seg_sdu g) = Some (if on then s\<lparr>sdu_time_of_arrival := now\<rparr> else s)"
    using s by (simp add: stamped_def sdu_write_def)
  ultimately show ?thesis
    using that [OF list_append_ok [OF tail fresh] s(3)] n(2-7) s(4-6) by blast
qed

end
