(* ===== verification/RLC_Requests.thy ===== *)
theory RLC_Requests
  imports RLC_Common
begin

text \<open>
  The requests an RLC entity serves on its transmitting side, in any interleaving: SDUs from
  the upper layer and grants of the MAC. The interface \<open>sdu_queue\<close> states what a transparent
  queue promises, and that any sequence of requests then refines a bounded queue.
\<close>

section \<open>Sequences of requests\<close>

text \<open>
  The upper layer hands SDUs over and the MAC asks for PDUs in any order; \<open>run_requests\<close>
  runs such a sequence on an entity whose operations are \<open>put\<close> and \<open>get\<close> and collects the
  PDUs it produced. \<open>fifo_run\<close> is the specification: a first-in first-out queue of
  capacity \<open>cap\<close> bytes that refuses what does not fit and keeps an element that is larger
  than the grant at its head.
\<close>

datatype rlc_request =
    Put_sdu u64 "byte list" int
  | Get_pdu u64 "byte list"

fun run_requests ::
  "(u64 \<Rightarrow> 'e \<Rightarrow> byte list \<Rightarrow> int \<Rightarrow> 'e res)
   \<Rightarrow> (u64 \<Rightarrow> 'e \<Rightarrow> byte list \<Rightarrow> (int \<times> byte list \<times> 'e) res)
   \<Rightarrow> rlc_request list \<Rightarrow> 'e \<Rightarrow> (byte list list \<times> 'e) res" where
  "run_requests put get [] e = Inr ([], e)"
| "run_requests put get (Put_sdu now b sdu_id # ops) e =
     res_bind (put now e b sdu_id) (run_requests put get ops)"
| "run_requests put get (Get_pdu now buf # ops) e =
     res_bind (get now e buf) (\<lambda>(n, buf', e').
     res_bind (run_requests put get ops e') (\<lambda>(out, e'').
     Inr (if n = 0 then out else take (nat n) buf' # out, e'')))"

fun fifo_run :: "int \<Rightarrow> rlc_request list \<Rightarrow> byte list list \<Rightarrow> byte list list \<times> byte list list" where
  "fifo_run cap [] q = ([], q)"
| "fifo_run cap (Put_sdu now b sdu_id # ops) q =
     fifo_run cap ops (if (\<Sum>x\<leftarrow>q. int (length x)) + int (length b) \<le> cap then q @ [b] else q)"
| "fifo_run cap (Get_pdu now buf # ops) q =
     (case q of
        [] \<Rightarrow> fifo_run cap ops q
      | x # q' \<Rightarrow> if length x \<le> length buf
                  then let (out, q'') = fifo_run cap ops q' in (x # out, q'')
                  else fifo_run cap ops q)"

text \<open>An SDU of the upper layer: not empty, and no larger than the RLC accepts.\<close>

definition sdu_request_ok :: "rlc_request \<Rightarrow> bool" where
  "sdu_request_ok r = (case r of Put_sdu _ b _ \<Rightarrow> b \<noteq> [] \<and> int (length b) \<le> NR_SDU_MAX | _ \<Rightarrow> True)"

section \<open>The queue interface\<close>

text \<open>
  What the upper layer and the MAC rely on: \<open>put\<close> appends an SDU if it fits and refuses it
  otherwise, \<open>get\<close> takes the oldest SDU if the grant is large enough.
\<close>

locale sdu_queue =
  fixes inv :: "'e \<Rightarrow> bool"
    and queue :: "'e \<Rightarrow> byte list list"
    and capacity :: "'e \<Rightarrow> int"
    and put :: "u64 \<Rightarrow> 'e \<Rightarrow> byte list \<Rightarrow> int \<Rightarrow> 'e res"
    and get :: "u64 \<Rightarrow> 'e \<Rightarrow> byte list \<Rightarrow> (int \<times> byte list \<times> 'e) res"
  assumes put_ok: "inv e \<Longrightarrow> b \<noteq> [] \<Longrightarrow> int (length b) \<le> NR_SDU_MAX \<Longrightarrow>
      \<exists>e'. put now e b sdu_id = Inr e' \<and> inv e' \<and> capacity e' = capacity e
         \<and> queue e' = (if (\<Sum>x\<leftarrow>queue e. int (length x)) + int (length b) \<le> capacity e
                       then queue e @ [b] else queue e)"
    and get_none: "inv e \<Longrightarrow> (case queue e of [] \<Rightarrow> True | b # _ \<Rightarrow> length buf < length b) \<Longrightarrow>
      get now e buf = Inr (0, buf, e)"
    and get_head: "inv e \<Longrightarrow> queue e = b # q \<Longrightarrow> length b \<le> length buf \<Longrightarrow>
      \<exists>e'. get now e buf = Inr (int (length b), b @ drop (length b) buf, e')
         \<and> inv e' \<and> queue e' = q \<and> b \<noteq> [] \<and> capacity e' = capacity e"
begin

lemma run_refines:
  assumes "inv e" "\<forall>r \<in> set ops. sdu_request_ok r"
  shows "\<exists>out e'. run_requests put get ops e = Inr (out, e') \<and> inv e' \<and> capacity e' = capacity e
           \<and> fifo_run (capacity e) ops (queue e) = (out, queue e')"
  using assms
proof (induction ops arbitrary: e)
  case Nil
  then show ?case by simp
next
  case (Cons r ops)
  have ops: "\<forall>r \<in> set ops. sdu_request_ok r" using Cons.prems by simp
  show ?case
  proof (cases r)
    case (Put_sdu now b sdu_id)
    then obtain e1 where e1: "put now e b sdu_id = Inr e1" "inv e1" "capacity e1 = capacity e"
        "queue e1 = (if (\<Sum>x\<leftarrow>queue e. int (length x)) + int (length b) \<le> capacity e
                     then queue e @ [b] else queue e)"
      using put_ok [of e b now sdu_id] Cons.prems by (auto simp: sdu_request_ok_def)
    with Cons.IH [OF e1(2) ops] Put_sdu show ?thesis by simp
  next
    case (Get_pdu now buf)
    show ?thesis
    proof (cases "\<exists>b q. queue e = b # q \<and> length b \<le> length buf")
      case True
      then obtain b q where q: "queue e = b # q" "length b \<le> length buf" by blast
      obtain e1 where e1: "get now e buf = Inr (int (length b), b @ drop (length b) buf, e1)"
          "inv e1" "queue e1 = q" "b \<noteq> []" "capacity e1 = capacity e"
        using get_head [OF Cons.prems(1) q] by blast
      with Cons.IH [OF e1(2) ops] Get_pdu q show ?thesis by auto
    next
      case False
      then have "get now e buf = Inr (0, buf, e)"
        by (intro get_none [OF Cons.prems(1)]) (auto split: list.splits)
      with Cons.IH [OF Cons.prems(1) ops] Get_pdu False show ?thesis
        by (auto split: list.splits)
    qed
  qed
qed

end

end
