(* ===== verification/RLC_TM.thy ===== *)
theory RLC_TM
  imports RLC_Requests
begin

text \<open>
  The transparent-mode entity of \<open>nr_rlc_entity_tm.c\<close>: a bounded queue of SDUs that are
  passed to the MAC as they are. \<open>tm_inv\<close> is its invariant: byte counts, buffer status,
  tail pointer and reference counts all agree with the queue.
\<close>

section \<open>The entity\<close>

record nr_rlc_entity_tm =
  common :: nr_rlc_entity
  t_current :: u64
  t_log_buffer_full :: u64
  sdu_rejected :: int
  tx_list :: "nr_rlc_sdu_segment list"
  tx_end :: "addr option"
  tx_size :: int
  tx_maxsize :: int

definition new_nr_rlc_entity_tm :: "int \<Rightarrow> nr_rlc_entity_tm res" where
  "new_nr_rlc_entity_tm maxsize =
     res_bind (new_common NR_RLC_TM) (\<lambda>c.
     Inr \<lparr>common = c, t_current = 0, t_log_buffer_full = 0, sdu_rejected = 0, tx_list = [],
          tx_end = None, tx_size = 0, tx_maxsize = maxsize\<rparr>)"

definition nr_rlc_entity_tm_recv_pdu :: "nr_rlc_entity_tm \<Rightarrow> byte list \<Rightarrow> nr_rlc_entity_tm" where
  "nr_rlc_entity_tm_recv_pdu e buf =
     (let size = int (length buf);
          e1 = common_update (stats_update (\<lambda>s. s\<lparr>rxpdu_pkts := rxpdu_pkts s + 1,
                 rxpdu_bytes := rxpdu_bytes s + of_int size\<rparr>)) e;
          e2 = common_update (calls_update (\<lambda>c. c @ [Deliver_sdu buf])) e1
      in common_update (stats_update (\<lambda>s. s\<lparr>txsdu_pkts := txsdu_pkts s + 1,
                 txsdu_bytes := txsdu_bytes s + of_int size\<rparr>)) e2)"

text \<open>
  The result is the size of the PDU (0 if none) and the buffer of the MAC after the call;
  \<open>now\<close> is the clock value for the waiting-time statistic.
\<close>

definition tm_generate_tx_pdu ::
  "u64 \<Rightarrow> nr_rlc_entity_tm \<Rightarrow> byte list \<Rightarrow> (int \<times> byte list \<times> nr_rlc_entity_tm) res" where
  "tm_generate_tx_pdu now e buf =
     (let size = int (length buf) in
      case tx_list e of
        [] \<Rightarrow> Inr (0, buf, e)
      | sdu # rest \<Rightarrow>
          if seg_size sdu > size then Inr (0, buf, e)
          else
            let e = e\<lparr>tx_list := rest, tx_end := if rest = [] then None else tx_end e\<rparr>;
                ret = seg_size sdu in
            res_bind (sdu_read (mem (common e)) (seg_sdu sdu)) (\<lambda>s.
            res_bind (c_slice (sdu_data s) 0 (seg_size sdu)) (\<lambda>bytes.
            res_bind (c_blit buf 0 bytes) (\<lambda>buf.
            let e = e\<lparr>tx_size := tx_size e - seg_size sdu\<rparr>;
                e = common_update (stats_update (\<lambda>s. s\<lparr>txpdu_pkts := txpdu_pkts s + 1,
                      txpdu_bytes := txpdu_bytes s + of_int size\<rparr>)) e in
            res_bind (account_waiting_time now s (common e)) (\<lambda>c.
            let c = bstatus_update (\<lambda>b. b\<lparr>bs_tx_size := bs_tx_size b - seg_size sdu\<rparr>) c in
            res_bind (nr_rlc_free_sdu_segment (mem c) sdu) (\<lambda>(_, m).
            Inr (ret, buf, e\<lparr>common := c\<lparr>mem := m\<rparr>\<rparr>)))))))"

definition nr_rlc_entity_tm_generate_pdu ::
  "u64 \<Rightarrow> nr_rlc_entity_tm \<Rightarrow> byte list \<Rightarrow> (int \<times> byte list \<times> nr_rlc_entity_tm) res" where
  "nr_rlc_entity_tm_generate_pdu now e buf = tm_generate_tx_pdu now e buf"

definition nr_rlc_entity_tm_buffer_status ::
  "nr_rlc_entity_tm \<Rightarrow> int \<Rightarrow> nr_rlc_entity_buffer_status" where
  "nr_rlc_entity_tm_buffer_status e max_size =
     \<lparr>bs_status_size = 0, bs_tx_size = bs_tx_size (bstatus (common e)), bs_retx_size = 0\<rparr>"

definition nr_rlc_entity_tm_recv_sdu ::
  "u64 \<Rightarrow> nr_rlc_entity_tm \<Rightarrow> byte list \<Rightarrow> int \<Rightarrow> nr_rlc_entity_tm res" where
  "nr_rlc_entity_tm_recv_sdu now e buf sdu_id =
     (let size = int (length buf);
          e = common_update (stats_update (\<lambda>s. s\<lparr>rxsdu_pkts := rxsdu_pkts s + 1,
                rxsdu_bytes := rxsdu_bytes s + of_int size\<rparr>)) e
      in if size > NR_SDU_MAX then Inl Exit_fatal
      else
        let e = (if sdu_rejected e \<noteq> 0 \<and> t_current e > t_log_buffer_full e + 1280
                 then e\<lparr>sdu_rejected := 0, t_log_buffer_full := t_current e\<rparr> else e)
        in if tx_size e + size > tx_maxsize e
        then Inr (common_update (stats_update (\<lambda>s. s\<lparr>rxsdu_dd_pkts := rxsdu_dd_pkts s + 1,
                    rxsdu_dd_bytes := rxsdu_dd_bytes s + of_int size\<rparr>))
                  (e\<lparr>sdu_rejected := sdu_rejected e + 1\<rparr>))
        else
          let e = e\<lparr>tx_size := tx_size e + size\<rparr>;
              (sdu, m) = nr_rlc_new_sdu (mem (common e)) buf sdu_id in
          res_bind (nr_rlc_sdu_segment_list_append (tx_list e) (tx_end e) sdu) (\<lambda>(l, l_end).
          let c = bstatus_update (\<lambda>b. b\<lparr>bs_tx_size := bs_tx_size b + seg_size sdu\<rparr>)
                    ((common e)\<lparr>mem := m\<rparr>);
              e = e\<lparr>tx_list := l, tx_end := l_end, common := c\<rparr> in
          if avg_time_is_on c
          then res_bind (sdu_read m (seg_sdu sdu)) (\<lambda>s.
               Inr (e\<lparr>common := c\<lparr>mem := sdu_write m (seg_sdu sdu)
                                            (s\<lparr>sdu_time_of_arrival := now\<rparr>)\<rparr>\<rparr>))
          else Inr e))"

definition nr_rlc_entity_tm_set_time :: "nr_rlc_entity_tm \<Rightarrow> u64 \<Rightarrow> nr_rlc_entity_tm" where
  "nr_rlc_entity_tm_set_time e now = e\<lparr>t_current := now\<rparr>"

definition nr_rlc_entity_tm_discard_sdu :: "nr_rlc_entity_tm \<Rightarrow> int \<Rightarrow> nr_rlc_entity_tm" where
  "nr_rlc_entity_tm_discard_sdu e sdu_id = e"

definition tm_clear_entity :: "nr_rlc_entity_tm \<Rightarrow> nr_rlc_entity_tm res" where
  "tm_clear_entity e =
     (let e = e\<lparr>t_current := 0, t_log_buffer_full := 0, sdu_rejected := 0\<rparr> in
      res_bind (nr_rlc_free_sdu_segment_list (mem (common e)) (tx_list e)) (\<lambda>m.
      Inr (e\<lparr>tx_list := [], tx_end := None, tx_size := 0,
             common := bstatus_update (\<lambda>b. b\<lparr>bs_tx_size := 0\<rparr>) ((common e)\<lparr>mem := m\<rparr>)\<rparr>)))"

definition nr_rlc_entity_tm_reestablishment :: "nr_rlc_entity_tm \<Rightarrow> nr_rlc_entity_tm res" where
  "nr_rlc_entity_tm_reestablishment e = tm_clear_entity e"

text \<open>Deleting frees the entity too; what remains is the store of SDUs.\<close>

definition nr_rlc_entity_tm_delete :: "nr_rlc_entity_tm \<Rightarrow> sdu_mem res" where
  "nr_rlc_entity_tm_delete e = res_bind (tm_clear_entity e) (\<lambda>e. Inr (mem (common e)))"

definition nr_rlc_entity_tm_available_tx_space :: "nr_rlc_entity_tm \<Rightarrow> int" where
  "nr_rlc_entity_tm_available_tx_space e = tx_maxsize e - tx_size e"

definition nr_rlc_entity_tm_tx_list_occupancy :: "nr_rlc_entity_tm \<Rightarrow> int" where
  "nr_rlc_entity_tm_tx_list_occupancy e = tx_size e"

section \<open>Invariant\<close>

text \<open>The SDUs waiting in the queue, oldest first: the abstract state of the entity.\<close>

definition tm_queue :: "nr_rlc_entity_tm \<Rightarrow> byte list list" where
  "tm_queue e = map (sdu_bytes (mem (common e))) (tx_list e)"

definition tm_inv :: "nr_rlc_entity_tm \<Rightarrow> bool" where
  "tm_inv e \<longleftrightarrow> refs_ok (mem (common e)) (tx_list e) \<and> tail_ok (tx_list e) (tx_end e)
     \<and> tx_size e = (\<Sum>g\<leftarrow>tx_list e. seg_size g)
     \<and> bs_tx_size (bstatus (common e)) = tx_size e \<and> tx_size e \<le> tx_maxsize e
     \<and> (\<forall>g \<in> set (tx_list e). seg_is_first g \<and> seg_is_last g) \<and> distinct (map seg_sdu (tx_list e))
     \<and> time_average_wf (txsdu_avg_time_to_tx (common e))"

lemma new_tm_inv:
  "0 \<le> n \<Longrightarrow> \<exists>e. new_nr_rlc_entity_tm n = Inr e \<and> tm_inv e \<and> tm_queue e = [] \<and> tx_maxsize e = n"
  using new_common_ok [of NR_RLC_TM]
  by (auto simp: new_nr_rlc_entity_tm_def tm_inv_def tm_queue_def refs_ok_empty)

lemma tm_head:
  assumes "tm_inv e" "g \<in> set (tx_list e)"
  shows "\<exists>s. sdus (mem (common e)) (seg_sdu g) = Some s \<and> sdu_read (mem (common e)) (seg_sdu g) = Inr s
           \<and> sdu_data s = sdu_bytes (mem (common e)) g \<and> seg_size g = int (length (sdu_data s))
           \<and> 0 < seg_size g"
  using refs_okD [of "mem (common e)" "tx_list e" g] assms
  by (auto simp: tm_inv_def sdu_bytes_def seg_in_sdu_def)

lemma tm_tx_size: "tm_inv e \<Longrightarrow> tx_size e = (\<Sum>b\<leftarrow>tm_queue e. int (length b))"
proof -
  assume i: "tm_inv e"
  have "map seg_size (tx_list e) = map (\<lambda>b. int (length b)) (tm_queue e)"
    using tm_head [OF i] by (fastforce simp: tm_queue_def)
  with i show ?thesis by (simp add: tm_inv_def)
qed

lemma tm_generate_nothing:
  assumes "tm_inv e" "case tm_queue e of [] \<Rightarrow> True | b # _ \<Rightarrow> length buf < length b"
  shows "nr_rlc_entity_tm_generate_pdu now e buf = Inr (0, buf, e)"
  using assms tm_head [OF assms(1), of "hd (tx_list e)"]
  by (cases "tx_list e") (auto simp: nr_rlc_entity_tm_generate_pdu_def tm_generate_tx_pdu_def tm_queue_def)

lemma tm_generate_head:
  assumes i: "tm_inv e" and q: "tm_queue e = b # q" "length b \<le> length buf"
  shows "\<exists>e'. nr_rlc_entity_tm_generate_pdu now e buf
               = Inr (int (length b), b @ drop (length b) buf, e')
           \<and> tm_inv e' \<and> tm_queue e' = q \<and> b \<noteq> [] \<and> tx_maxsize e' = tx_maxsize e
           \<and> calls (common e') = calls (common e)"
proof -
  obtain g l where l: "tx_list e = g # l" "b = sdu_bytes (mem (common e)) g"
      "q = map (sdu_bytes (mem (common e))) l"
    using q(1) by (auto simp: tm_queue_def)
  obtain s where s: "sdus (mem (common e)) (seg_sdu g) = Some s" "sdu_read (mem (common e)) (seg_sdu g) = Inr s"
      "sdu_data s = b" "seg_size g = int (length b)" "0 < seg_size g"
    using tm_head [OF i, of g] l by auto
  have d: "seg_sdu g \<notin> seg_sdu ` set l" using i by (auto simp: tm_inv_def l(1))
  obtain m' where m': "nr_rlc_free_sdu_segment (mem (common e)) g = Inr (True, m')" "refs_ok m' l"
      "\<And>a. a \<noteq> seg_sdu g \<Longrightarrow> sdus m' a = sdus (mem (common e)) a"
    using refs_ok_free [of "mem (common e)" g l] i d by (auto simp: tm_inv_def l(1))
  have keep: "map (sdu_bytes m') l = q"
    using m'(3) d unfolding l(3) by (auto simp: sdu_bytes_def image_iff)
  let ?c = "stats_update (\<lambda>s. s\<lparr>txpdu_pkts := txpdu_pkts s + 1,
              txpdu_bytes := txpdu_bytes s + of_int (int (length buf))\<rparr>) (common e)"
  obtain t where t: "account_waiting_time now s ?c = Inr (?c\<lparr>txsdu_avg_time_to_tx := t\<rparr>)" "time_average_wf t"
    using account_waiting_time_ok [of ?c now s] i by (auto simp: tm_inv_def)
  show ?thesis
    using i q(2) s m'(1,2) t keep tail_ok_pop [of g l "tx_end e"] 
    by (simp add: nr_rlc_entity_tm_generate_pdu_def tm_generate_tx_pdu_def l(1) Let_def c_slice_def c_blit_def
        tm_inv_def tm_queue_def)
qed

lemma tm_recv_sdu_rejects:
  assumes "tm_inv e" "int (length buf) \<le> NR_SDU_MAX" "tx_size e + int (length buf) > tx_maxsize e"
  shows "\<exists>e'. nr_rlc_entity_tm_recv_sdu now e buf sdu_id = Inr e' \<and> tm_inv e'
           \<and> tm_queue e' = tm_queue e \<and> tx_maxsize e' = tx_maxsize e
           \<and> calls (common e') = calls (common e)
           \<and> rxsdu_dd_pkts (stats (common e')) = rxsdu_dd_pkts (stats (common e)) + 1"
  using assms by (auto simp: nr_rlc_entity_tm_recv_sdu_def Let_def tm_inv_def tm_queue_def)

lemma tm_recv_sdu_accepts:
  assumes i: "tm_inv e" and b: "buf \<noteq> []" "int (length buf) \<le> NR_SDU_MAX"
    "tx_size e + int (length buf) \<le> tx_maxsize e"
  shows "\<exists>e'. nr_rlc_entity_tm_recv_sdu now e buf sdu_id = Inr e' \<and> tm_inv e'
           \<and> tm_queue e' = tm_queue e @ [buf] \<and> tx_maxsize e' = tx_maxsize e
           \<and> calls (common e') = calls (common e)"
proof -
  let ?m = "mem (common e)" and ?on = "avg_time_is_on (common e)"
  obtain g m' where new: "nr_rlc_new_sdu ?m buf sdu_id = (g, m')" by (cases "nr_rlc_new_sdu ?m buf sdu_id")
  have r: "refs_ok ?m (tx_list e @ [])" and tl: "tail_ok (tx_list e) (tx_end e)" using i by (auto simp: tm_inv_def)
  obtain s where q: "nr_rlc_sdu_segment_list_append (tx_list e) (tx_end e) g = Inr (tx_list e @ [g], Some (seg_ptr g))"
    "tail_ok (tx_list e @ [g]) (Some (seg_ptr g))" "sdu_read m' (seg_sdu g) = Inr s"
    "refs_ok (stamped ?on now m' g s) ((tx_list e @ [g]) @ [])" "seg_size g = int (length buf)" "seg_is_first g" "seg_is_last g"
    "seg_sdu g \<notin> seg_sdu ` set (tx_list e @ [])"
    "\<forall>h \<in> set (tx_list e @ []). sdus (stamped ?on now m' g s) (seg_sdu h) = sdus ?m (seg_sdu h)"
    "sdu_bytes (stamped ?on now m' g s) g = buf"
    by (rule new_sdu_queued [OF r tl b(1) new])
  show ?thesis
    using i b(2,3) q
    by (cases ?on) (simp_all add: nr_rlc_entity_tm_recv_sdu_def Let_def new tm_inv_def tm_queue_def stamped_def sdu_bytes_def)
qed

lemma tm_clear_ok:
  assumes "tm_inv e" "0 \<le> tx_maxsize e"
  shows "\<exists>e'. nr_rlc_entity_tm_reestablishment e = Inr e' \<and> tm_inv e' \<and> tm_queue e' = []
           \<and> sdus (mem (common e')) = Map.empty \<and> tx_maxsize e' = tx_maxsize e"
  using assms refs_ok_free_list [of "mem (common e)" "tx_list e" "[]"]
  by (auto simp: nr_rlc_entity_tm_reestablishment_def tm_clear_entity_def tm_inv_def tm_queue_def
      refs_ok_empty)

interpretation tmq: sdu_queue tm_inv tm_queue tx_maxsize
  nr_rlc_entity_tm_recv_sdu nr_rlc_entity_tm_generate_pdu
proof
  fix e and b :: "byte list" and now sdu_id
  assume "tm_inv e" "b \<noteq> []" "int (length b) \<le> NR_SDU_MAX"
  then show "\<exists>e'. nr_rlc_entity_tm_recv_sdu now e b sdu_id = Inr e' \<and> tm_inv e'
      \<and> tx_maxsize e' = tx_maxsize e
      \<and> tm_queue e' = (if (\<Sum>x\<leftarrow>tm_queue e. int (length x)) + int (length b) \<le> tx_maxsize e
                       then tm_queue e @ [b] else tm_queue e)"
    using tm_recv_sdu_accepts [of e b now sdu_id] tm_recv_sdu_rejects [of e b now sdu_id]
    by (fastforce simp: tm_tx_size)
qed (use tm_generate_nothing tm_generate_head in blast)+

lemma tm_recv_pdus_calls:
  "calls (common (foldl nr_rlc_entity_tm_recv_pdu r pdus)) = calls (common r) @ map Deliver_sdu pdus"
  by (induction pdus arbitrary: r) (simp_all add: nr_rlc_entity_tm_recv_pdu_def Let_def)

section \<open>Properties\<close>

text \<open>
  (C25) Transparent mode is a bounded first-in first-out channel. For any interleaving of SDUs from
  the upper layer and PDU requests of the MAC, an entity that satisfies its invariant never
  faults, keeps the invariant, and produces exactly the PDUs the bounded queue
  specification produces; a peer entity that receives these PDUs delivers exactly them,
  in order, to its upper layer.
\<close>

theorem tm_fifo_channel:
  assumes "tm_inv e" "\<forall>r \<in> set ops. sdu_request_ok r"
  shows "\<exists>out e'. run_requests nr_rlc_entity_tm_recv_sdu nr_rlc_entity_tm_generate_pdu ops e = Inr (out, e')
           \<and> tm_inv e' \<and> fifo_run (tx_maxsize e) ops (tm_queue e) = (out, tm_queue e')
           \<and> calls (common (foldl nr_rlc_entity_tm_recv_pdu peer out))
             = calls (common peer) @ map Deliver_sdu out"
  using tmq.run_refines [OF assms] by (auto simp: tm_recv_pdus_calls)

theorem tm_fifo_channel_witness:
  "\<exists>e e'. new_nr_rlc_entity_tm 4 = Inr e
     \<and> run_requests nr_rlc_entity_tm_recv_sdu nr_rlc_entity_tm_generate_pdu
         [Put_sdu 0 [1, 2] 7, Put_sdu 1 [3] 8, Put_sdu 1 [9, 9] 9, Get_pdu 2 [0], Get_pdu 3 [0, 0, 0]] e
       = Inr ([[1, 2]], e') \<and> tm_queue e' = [[3]]"
proof -
  obtain e where e: "new_nr_rlc_entity_tm 4 = Inr e" "tm_inv e" "tm_queue e = []" "tx_maxsize e = 4"
    using new_tm_inv [of 4] by auto
  show ?thesis
    using e tm_fifo_channel [OF e(2), of "[Put_sdu 0 [1, 2] 7, Put_sdu 1 [3] 8, Put_sdu 1 [9, 9] 9,
      Get_pdu 2 [0], Get_pdu 3 [0, 0, 0]]" e]
    by (fastforce simp: sdu_request_ok_def NR_SDU_MAX_def)
qed

text \<open>
  (C26) Re-establishment or deletion of a transparent-mode entity frees every SDU it holds: no fault,
  an empty queue, and no live SDU is left in memory.
\<close>

theorem tm_clear_frees_all:
  assumes "tm_inv e" "0 \<le> tx_maxsize e"
  shows "\<exists>e'. nr_rlc_entity_tm_reestablishment e = Inr e' \<and> tm_inv e' \<and> tm_queue e' = []
           \<and> nr_rlc_entity_tm_buffer_status e' n = \<lparr>bs_status_size = 0, bs_tx_size = 0, bs_retx_size = 0\<rparr>
           \<and> (\<exists>m. nr_rlc_entity_tm_delete e = Inr m \<and> sdus m = Map.empty)"
  using tm_clear_ok [OF assms]
  by (auto simp: nr_rlc_entity_tm_delete_def nr_rlc_entity_tm_buffer_status_def
      nr_rlc_entity_tm_reestablishment_def tm_inv_def tm_queue_def)

theorem tm_clear_frees_all_witness:
  "\<exists>e m. new_nr_rlc_entity_tm 4 = Inr e \<and> nr_rlc_entity_tm_delete e = Inr m \<and> sdus m = Map.empty"
proof -
  obtain e where e: "new_nr_rlc_entity_tm 4 = Inr e" "tm_inv e" "tx_maxsize e = 4"
    using new_tm_inv [of 4] by auto
  then show ?thesis using tm_clear_frees_all [OF e(2)] by auto
qed

end
