(* ===== verification/SN_Window.thy ===== *)
theory SN_Window
  imports RAN_Prelude
begin

text \<open>
  Sequence-number arithmetic of the window protocols (38.322 7.1, 38.323): numbers are taken
  modulo \<open>M\<close> and compared by their distance from a base. \<open>sn_key M base a\<close> is that
  distance. The \<open>modulus_rx\<close>, \<open>modulus_tx\<close> functions of the sources compute it.
\<close>

definition sn_key :: "int \<Rightarrow> int \<Rightarrow> int \<Rightarrow> int" where
  "sn_key M base a = (a - base) mod M"

lemma sn_key_bounds [simp]: "0 < M \<Longrightarrow> 0 \<le> sn_key M base a" "0 < M \<Longrightarrow> sn_key M base a < M"
  by (simp_all add: sn_key_def)

lemma sn_key_base [simp]: "sn_key M base base = 0"
  by (simp add: sn_key_def)

lemma sn_key_offset: "sn_key M (base - d) base = d mod M"
  by (simp add: sn_key_def)

lemma sn_key_inverse:
  assumes "0 \<le> a" "a < M"
  shows "(base + sn_key M base a) mod M = a"
proof -
  have "(base + sn_key M base a) mod M = (base + (a - base)) mod M"
    unfolding sn_key_def by (rule mod_add_right_eq)
  also have "\<dots> = a mod M" by (rule arg_cong [where f = "\<lambda>x. x mod M"]) simp
  also have "\<dots> = a" using assms by (rule mod_pos_pos_trivial)
  finally show ?thesis .
qed

lemma sn_key_inj: "inj_on (sn_key M base) {0..<M}"
proof (rule inj_on_inverseI)
  fix a
  assume "a \<in> {0..<M}"
  then show "(base + sn_key M base a) mod M = a" by (intro sn_key_inverse) auto
qed

lemma sn_key_eq_iff:
  "0 \<le> a \<Longrightarrow> a < M \<Longrightarrow> 0 \<le> b \<Longrightarrow> b < M \<Longrightarrow> sn_key M base a = sn_key M base b \<longleftrightarrow> a = b"
  using inj_on_eq_iff [OF sn_key_inj, of a M b base] by simp

lemma sn_key_add: "sn_key M base ((a + k) mod M) = (sn_key M base a + k) mod M"
  unfolding sn_key_def mod_diff_left_eq mod_add_left_eq by (rule arg_cong [where f = "\<lambda>x. x mod M"]) simp

lemma sn_key_shift: "sn_key M (base + d) a = (sn_key M base a - d) mod M"
  unfolding sn_key_def mod_diff_left_eq by (rule arg_cong [where f = "\<lambda>x. x mod M"]) simp

lemma sn_key_mod_base: "sn_key M (base mod M) a = sn_key M base a"
  unfolding sn_key_def by (rule mod_diff_right_eq)

lemma sn_key_cong: "b mod M = b' mod M \<Longrightarrow> sn_key M b a = sn_key M b' a"
  by (metis sn_key_mod_base)

lemma sn_key_base_mod [simp]: "sn_key M base (base mod M) = 0"
  unfolding sn_key_def mod_diff_left_eq by simp

lemma sn_key_suc:
  "0 < M \<Longrightarrow> sn_key M base a + 1 < M \<Longrightarrow> sn_key M base ((a + 1) mod M) = sn_key M base a + 1"
  unfolding sn_key_add by (intro mod_pos_pos_trivial) (auto simp: add_nonneg_nonneg)

text \<open>Distance after the base has moved forward by \<open>d\<close>: nearer by \<open>d\<close>, or wrapped around.\<close>

lemma sn_key_shift_cases:
  assumes "0 < M" "0 \<le> d" "d \<le> M"
  shows "sn_key M (base + d) a = (if d \<le> sn_key M base a then sn_key M base a - d
                                  else sn_key M base a - d + M)"
proof (cases "d \<le> sn_key M base a")
  case True
  have "sn_key M base a - d < M" using assms sn_key_bounds(2) [of M base a] by linarith
  with True show ?thesis unfolding sn_key_shift by simp
next
  case False
  have "(sn_key M base a - d) mod M = (sn_key M base a - d + M) mod M" by simp
  also have "\<dots> = sn_key M base a - d + M"
    using assms False sn_key_bounds(1) [of M base a] by (intro mod_pos_pos_trivial) linarith+
  finally show ?thesis unfolding sn_key_shift using False by simp
qed

text \<open>
  The C idiom \<open>r = a - base; if (r < 0) r += M; r % M\<close> computes the distance, for a base
  that is at most \<open>M\<close> below and less than \<open>M\<close> above the number.
\<close>

lemma c_modulus_eq_key:
  assumes "0 < M" "- M \<le> a - base"
  shows "(if a - base < 0 then a - base + M else a - base) smod M = sn_key M base a"
  using assms by (auto simp: sn_key_def)

section \<open>Skipping to the next number that lacks a property\<close>

lemma while_skip:
  fixes M sn :: int
  assumes "0 < M" "0 \<le> sn" "sn < M" "\<not> P ((sn + int n) mod M)"
  shows "\<exists>k \<le> n. while_res (\<lambda>s. Inr (P s)) (\<lambda>s. Inr ((s + 1) smod M)) sn = Inr ((sn + int k) mod M)
           \<and> \<not> P ((sn + int k) mod M) \<and> (\<forall>j < k. P ((sn + int j) mod M))"
  using assms
proof (induction n arbitrary: sn)
  case 0
  then show ?case by (subst while_res_unfold) simp
next
  case (Suc n)
  show ?case
  proof (cases "P sn")
    case False
    with Suc.prems show ?thesis by (intro exI [of _ 0]) (subst while_res_unfold, simp)
  next
    case True
    let ?s = "(sn + 1) mod M"
    have shift: "(?s + int j) mod M = (sn + int (Suc j)) mod M" for j
      unfolding mod_add_left_eq by (rule arg_cong [where f = "\<lambda>x. x mod M"]) simp
    have "\<not> P ((?s + int n) mod M)" unfolding shift by (rule Suc.prems(4))
    from Suc.IH [OF Suc.prems(1) _ _ this] Suc.prems(1) obtain k where k: "k \<le> n"
        "while_res (\<lambda>s. Inr (P s)) (\<lambda>s. Inr ((s + 1) smod M)) ?s = Inr ((sn + int (Suc k)) mod M)"
        "\<not> P ((sn + int (Suc k)) mod M)" "\<forall>j < k. P ((sn + int (Suc j)) mod M)"
      unfolding shift by (metis pos_mod_bound pos_mod_sign)
    have before: "\<forall>j < Suc k. P ((sn + int j) mod M)"
      using k(4) True Suc.prems by (auto simp: less_Suc_eq_0_disj)
    have "while_res (\<lambda>s. Inr (P s)) (\<lambda>s. Inr ((s + 1) smod M)) sn = Inr ((sn + int (Suc k)) mod M)"
      by (subst while_res_unfold) (use k(2) True Suc.prems in \<open>simp del: of_nat_Suc\<close>)
    with k(1,3) before show ?thesis by (intro exI [of _ "Suc k"]) (simp del: of_nat_Suc)
  qed
qed

lemma while_skip_diverges:
  fixes M sn :: int
  assumes "0 < M" "\<And>s. 0 \<le> s \<Longrightarrow> s < M \<Longrightarrow> P s" "0 \<le> sn" "sn < M"
  shows "while_res (\<lambda>s. Inr (P s)) (\<lambda>s. Inr ((s + 1) smod M)) sn = Inl Infinite_loop"
proof (rule while_res_diverges [where P = "\<lambda>s. 0 \<le> s \<and> s < M"])
  fix t
  assume "0 \<le> t \<and> t < M"
  then have "(t + 1) smod M = (t + 1) mod M" by (intro smod_eq_mod) linarith+
  with assms(1) show "\<exists>t'. Inr ((t + 1) smod M) = (Inr t' :: int res) \<and> 0 \<le> t' \<and> t' < M" by simp
qed (use assms in auto)

end
