(* ===== verification/RLC_Reassembly.thy ===== *)
theory RLC_Reassembly
  imports RLC_Common
begin

text \<open>
  The reassembly loops that \<open>nr_rlc_entity_um.c\<close> and \<open>nr_rlc_entity_am.c\<close> run over the
  received segments of one SDU: is it complete (\<open>sdu_full\<close>), does it have a gap
  (\<open>sdu_has_missing_bytes\<close>), and copying it together (\<open>reassemble_and_deliver\<close>). The
  lemmas show that the copy never leaves the arrays, that an SDU is found complete exactly
  when every byte has been received, in whatever order and with whatever overlaps, and that
  the bytes delivered are then the bytes sent.
\<close>

section \<open>The loops\<close>

fun full_scan :: "int \<Rightarrow> nr_rlc_pdu list \<Rightarrow> bool" where
  "full_scan last_byte [] = False"
| "full_scan last_byte (p # l) =
     (if pdu_so p > last_byte + 1 then False
      else if pdu_is_last p then True
      else let new_last_byte = pdu_so p + pdu_size p - 1
           in full_scan (if new_last_byte > last_byte then new_last_byte else last_byte) l)"

fun missing_scan :: "int \<Rightarrow> nr_rlc_pdu list \<Rightarrow> bool" where
  "missing_scan last_byte [] = False"
| "missing_scan last_byte (p # l) =
     (if pdu_so p > last_byte + 1 then True
      else let new_last_byte = pdu_so p + pdu_size p - 1
           in missing_scan (if new_last_byte > last_byte then new_last_byte else last_byte) l)"

text \<open>
  The local array \<open>sdu\<close> has \<open>NR_SDU_MAX\<close> bytes, of which the first \<open>so\<close> have been
  written: \<open>sdu\<close> is that prefix and \<open>so\<close> its length.
\<close>

definition sdu_copy :: "byte list \<Rightarrow> byte list \<Rightarrow> byte list res" where
  "sdu_copy sdu chunk =
     (if int (length sdu) + int (length chunk) \<le> NR_SDU_MAX then Inr (sdu @ chunk)
      else Inl Out_of_bounds)"

fun reassemble_loop :: "byte list \<Rightarrow> bool \<Rightarrow> nr_rlc_pdu list \<Rightarrow> (byte list \<times> bool) res" where
  "reassemble_loop sdu bad_sdu [] = Inr (sdu, bad_sdu)"
| "reassemble_loop sdu bad_sdu (p # l) =
     (let so = int (length sdu);
          bad1 = (if pdu_so p > so \<and> \<not> bad_sdu then True else bad_sdu);
          len = pdu_size p - (so - pdu_so p);
          bad2 = (if so + len > NR_SDU_MAX \<and> \<not> bad1 then True else bad1)
      in if \<not> bad2 \<and> len > 0
         then case pdu_data p of
                None \<Rightarrow> Inl Null_deref
              | Some d \<Rightarrow> res_bind (c_slice d (so - pdu_so p) len) (\<lambda>chunk.
                          res_bind (sdu_copy sdu chunk) (\<lambda>sdu'. reassemble_loop sdu' bad2 l))
         else reassemble_loop sdu bad2 l)"

text \<open>
  The insertion loop of \<open>nr_rlc_rx_manager_add_pdu\<close>: the segments of one SDU are kept in the
  order of their offsets.
\<close>

fun insert_by_so :: "nr_rlc_pdu \<Rightarrow> nr_rlc_pdu list \<Rightarrow> nr_rlc_pdu list" where
  "insert_by_so pdu [] = [pdu]"
| "insert_by_so pdu (cur # l) =
     (if pdu_so cur > pdu_so pdu then pdu # cur # l else cur # insert_by_so pdu l)"

section \<open>Safety\<close>

text \<open>A segment whose bytes are still held.\<close>

definition pdu_held :: "nr_rlc_pdu \<Rightarrow> bool" where
  "pdu_held p \<longleftrightarrow> 0 \<le> pdu_so p \<and> 0 < pdu_size p
     \<and> (\<exists>d. pdu_data p = Some d \<and> pdu_size p = int (length d))"

lemma reassemble_safe:
  assumes "\<forall>p \<in> set l. pdu_held p" "int (length sdu) \<le> NR_SDU_MAX"
  shows "\<exists>sdu' bad'. reassemble_loop sdu bad l = Inr (sdu', bad') \<and> int (length sdu') \<le> NR_SDU_MAX"
  using assms
proof (induction l arbitrary: sdu bad)
  case Nil
  then show ?case by simp
next
  case (Cons p l)
  let ?so = "int (length sdu)"
  let ?len = "pdu_size p - (?so - pdu_so p)"
  obtain d where d: "pdu_data p = Some d" "pdu_size p = int (length d)" "0 \<le> pdu_so p"
    using Cons.prems by (auto simp: pdu_held_def)
  show ?case
  proof (cases "\<not> bad \<and> pdu_so p \<le> ?so \<and> ?so + ?len \<le> NR_SDU_MAX \<and> ?len > 0")
    case True
    let ?c = "take (nat ?len) (drop (nat (?so - pdu_so p)) d)"
    have "int (length ?c) = ?len" using True d by auto
    with True d have "\<exists>sdu' bad'. reassemble_loop (sdu @ ?c) False l = Inr (sdu', bad') \<and> int (length sdu') \<le> NR_SDU_MAX"
      by (intro Cons.IH) (use Cons.prems in auto)
    with True d \<open>int (length ?c) = ?len\<close> show ?thesis
      by (simp add: Let_def c_slice_def sdu_copy_def)
  next
    case False
    then have "\<exists>b. reassemble_loop sdu bad (p # l) = reassemble_loop sdu b l"
      by (auto simp: Let_def)
    with Cons show ?thesis by auto
  qed
qed

section \<open>The segments of one SDU\<close>

text \<open>
  Either all bytes are still held, or the SDU has been delivered: then its first segment has
  offset 0 and its data is gone (segments that came late may still hold theirs).
\<close>

definition seg_block :: "nr_rlc_pdu list \<Rightarrow> bool" where
  "seg_block b \<longleftrightarrow> (\<forall>p \<in> set b. pdu_held p)
     \<or> (b \<noteq> [] \<and> pdu_data (hd b) = None \<and> pdu_so (hd b) = 0)"

lemma seg_block_Nil [simp]: "seg_block []"
  by (simp add: seg_block_def)

lemma set_insert_by_so [simp]: "set (insert_by_so p l) = insert p (set l)"
  by (induction l) auto

lemma mset_insert_by_so [simp]: "mset (insert_by_so p l) = add_mset p (mset l)"
  by (induction l) auto

lemma insert_by_so_neq_Nil [simp]: "insert_by_so p l \<noteq> []"
  by (cases l) auto

lemma sorted_insert_by_so:
  "sorted_wrt (\<lambda>p q. pdu_so p \<le> pdu_so q) l \<Longrightarrow> sorted_wrt (\<lambda>p q. pdu_so p \<le> pdu_so q) (insert_by_so p l)"
  by (induction l) auto

lemma hd_insert_by_so:
  "l \<noteq> [] \<Longrightarrow> pdu_so (hd l) = 0 \<Longrightarrow> 0 \<le> pdu_so p \<Longrightarrow> hd (insert_by_so p l) = hd l"
  by (cases l) auto

lemma seg_block_insert:
  "seg_block b \<Longrightarrow> pdu_held p \<Longrightarrow> seg_block (insert_by_so p b)"
  by (auto simp: seg_block_def pdu_held_def hd_insert_by_so)

text \<open>In an ordered list the segments of a sequence number are contiguous.\<close>

lemma ordered_block:
  assumes "sorted_wrt (pdu_ordered key) l"
  shows "takeWhile (\<lambda>p. pdu_sn p = sn) (dropWhile (\<lambda>p. pdu_sn p \<noteq> sn) l) = filter (\<lambda>p. pdu_sn p = sn) l"
    and "dropWhile (\<lambda>p. pdu_sn p \<noteq> sn) l = [] \<longleftrightarrow> filter (\<lambda>p. pdu_sn p = sn) l = []"
    and "takeWhile (\<lambda>p. pdu_sn p \<noteq> sn) l @ map f (filter (\<lambda>p. pdu_sn p = sn) l)
           @ dropWhile (\<lambda>p. pdu_sn p = sn) (dropWhile (\<lambda>p. pdu_sn p \<noteq> sn) l)
         = map (\<lambda>p. if pdu_sn p = sn then f p else p) l"
proof -
  have tail: "\<forall>q \<in> set k. pdu_sn q \<noteq> sn"
    if "sorted_wrt (pdu_ordered key) (c # k)" "key sn < key (pdu_sn c)" for c k
    using that by (fastforce simp: pdu_ordered_def)
  have block: "takeWhile (\<lambda>p. pdu_sn p = sn) k = filter (\<lambda>p. pdu_sn p = sn) k
      \<and> map f (takeWhile (\<lambda>p. pdu_sn p = sn) k) @ dropWhile (\<lambda>p. pdu_sn p = sn) k
        = map (\<lambda>p. if pdu_sn p = sn then f p else p) k"
    if "sorted_wrt (pdu_ordered key) k" "\<forall>q \<in> set k. pdu_sn q = sn \<or> key sn < key (pdu_sn q)" for k
    using that
  proof (induction k)
    case (Cons c k)
    then show ?case using tail [of c k] by (auto simp: map_idI filter_empty_conv)
  qed simp
  have start: "\<forall>q \<in> set k. pdu_sn q = sn \<or> key sn < key (pdu_sn q)"
    if "sorted_wrt (pdu_ordered key) (c # k)" "pdu_sn c = sn" for c k
    using that by (auto simp: pdu_ordered_def)
  have all: "takeWhile (\<lambda>p. pdu_sn p = sn) (dropWhile (\<lambda>p. pdu_sn p \<noteq> sn) l) = filter (\<lambda>p. pdu_sn p = sn) l
    \<and> takeWhile (\<lambda>p. pdu_sn p \<noteq> sn) l @ map f (filter (\<lambda>p. pdu_sn p = sn) l)
           @ dropWhile (\<lambda>p. pdu_sn p = sn) (dropWhile (\<lambda>p. pdu_sn p \<noteq> sn) l)
         = map (\<lambda>p. if pdu_sn p = sn then f p else p) l"
    using assms
  proof (induction l)
    case (Cons c k)
    show ?case
    proof (cases "pdu_sn c = sn")
      case True
      with Cons.prems block [of k] start [of c k] show ?thesis by auto
    next
      case False
      with Cons show ?thesis by auto
    qed
  qed simp
  then show "takeWhile (\<lambda>p. pdu_sn p = sn) (dropWhile (\<lambda>p. pdu_sn p \<noteq> sn) l) = filter (\<lambda>p. pdu_sn p = sn) l"
    and "takeWhile (\<lambda>p. pdu_sn p \<noteq> sn) l @ map f (filter (\<lambda>p. pdu_sn p = sn) l)
           @ dropWhile (\<lambda>p. pdu_sn p = sn) (dropWhile (\<lambda>p. pdu_sn p \<noteq> sn) l)
         = map (\<lambda>p. if pdu_sn p = sn then f p else p) l" by auto
  show "dropWhile (\<lambda>p. pdu_sn p \<noteq> sn) l = [] \<longleftrightarrow> filter (\<lambda>p. pdu_sn p = sn) l = []"
    by (auto simp: filter_empty_conv)
qed

lemma filter_pdu_list_add:
  assumes "sorted_wrt (pdu_ordered key) l" "inj_on key (insert (pdu_sn p) (pdu_sn ` set l))"
  shows "filter (\<lambda>q. pdu_sn q = sn) (nr_rlc_pdu_list_add (\<lambda>a b. key a - key b) l p)
           = (if sn = pdu_sn p then insert_by_so p (filter (\<lambda>q. pdu_sn q = sn) l)
              else filter (\<lambda>q. pdu_sn q = sn) l)"
  using assms
proof (induction l)
  case Nil
  then show ?case by simp
next
  case (Cons c l)
  have inj: "inj_on key (insert (pdu_sn p) (pdu_sn ` set l))"
    using Cons.prems(2) by (rule inj_on_subset) auto
  have none: "filter (\<lambda>q. pdu_sn q = pdu_sn p) l = []" if "key (pdu_sn p) < key (pdu_sn c)"
    using that Cons.prems(1) by (fastforce simp: filter_empty_conv pdu_ordered_def)
  show ?case using none Cons.prems Cons.IH [OF _ inj] by (auto simp: filter_empty_conv)
qed

section \<open>Correctness\<close>

text \<open>The segment carries a slice of the SDU \<open>D\<close>, and is flagged as last if it ends it.\<close>

definition seg_of :: "byte list \<Rightarrow> nr_rlc_pdu \<Rightarrow> bool" where
  "seg_of D p \<longleftrightarrow> 0 \<le> pdu_so p \<and> 0 < pdu_size p \<and> pdu_so p + pdu_size p \<le> int (length D)
     \<and> pdu_data p = Some (take (nat (pdu_size p)) (drop (nat (pdu_so p)) D))
     \<and> (pdu_is_last p \<longleftrightarrow> pdu_so p + pdu_size p = int (length D))"

lemma seg_of_held: "seg_of D p \<Longrightarrow> pdu_held p"
  by (auto simp: seg_of_def pdu_held_def)

lemma reassemble_rest:
  "\<forall>p \<in> set l. seg_of D p \<Longrightarrow> int (length D) \<le> NR_SDU_MAX \<Longrightarrow> reassemble_loop D False l = Inr (D, False)"
  by (induction l) (auto simp: Let_def seg_of_def)

lemma take_slice_join:
  "a \<le> b \<Longrightarrow> a \<le> k \<Longrightarrow> b = k + n \<Longrightarrow> b \<le> length D \<Longrightarrow>
   take k D @ take n (drop (k - a) (take (b - a) (drop a D))) = take b D"
  by (simp add: drop_take take_add)

lemma reassemble_seg:
  assumes "seg_of D p" "pdu_so p \<le> so" "0 \<le> so" "so \<le> int (length D)" "int (length D) \<le> NR_SDU_MAX"
  shows "reassemble_loop (take (nat so) D) False (p # l)
           = reassemble_loop (take (nat (max so (pdu_so p + pdu_size p))) D) False l"
proof (cases "pdu_so p + pdu_size p > so")
  case True
  let ?len = "pdu_size p - (so - pdu_so p)"
  let ?d = "take (nat (pdu_size p)) (drop (nat (pdu_so p)) D)"
  let ?chunk = "take (nat ?len) (drop (nat (so - pdu_so p)) ?d)"
  have nats: "nat (pdu_so p + pdu_size p) - nat (pdu_so p) = nat (pdu_size p)"
      "nat so - nat (pdu_so p) = nat (so - pdu_so p)" "length (take (nat so) D) = nat so"
    using assms by (auto simp: seg_of_def)
  have "take (nat so) D @ take (nat ?len)
          (drop (nat so - nat (pdu_so p)) (take (nat (pdu_so p + pdu_size p) - nat (pdu_so p)) (drop (nat (pdu_so p)) D)))
        = take (nat (pdu_so p + pdu_size p)) D"
    using assms True by (intro take_slice_join) (auto simp: seg_of_def)
  then have join: "take (nat so) D @ ?chunk = take (nat (pdu_so p + pdu_size p)) D" unfolding nats .
  have len: "int (length ?d) = pdu_size p" "int (length ?chunk) = ?len" using assms True by (auto simp: seg_of_def)
  have slice: "c_slice ?d (so - pdu_so p) ?len = Inr ?chunk"
    unfolding c_slice_def len(1) using assms True by simp
  have fits: "so + ?len \<le> NR_SDU_MAX" using assms(1,5) by (simp add: seg_of_def)
  then have copy: "sdu_copy (take (nat so) D) ?chunk = Inr (take (nat (pdu_so p + pdu_size p)) D)"
    unfolding sdu_copy_def len(2) nats(3) join using assms(3) by simp
  have d: "pdu_data p = Some ?d" using assms(1) by (simp add: seg_of_def)
  show ?thesis
    unfolding reassemble_loop.simps nats(3) d using assms(2,3) True fits
    by (simp add: Let_def slice copy max_def del: take_take length_take)
next
  case False
  with assms show ?thesis by (auto simp: Let_def seg_of_def max_def)
qed

lemma full_scan_reassembles:
  assumes "\<forall>p \<in> set l. seg_of D p" "full_scan (so - 1) l" "0 \<le> so" "so \<le> int (length D)"
    "int (length D) \<le> NR_SDU_MAX"
  shows "reassemble_loop (take (nat so) D) False l = Inr (D, False)"
  using assms
proof (induction l arbitrary: so)
  case Nil
  then show ?case by simp
next
  case (Cons p l)
  have p: "seg_of D p" "pdu_so p \<le> so" using Cons.prems by (auto split: if_splits)
  let ?so' = "max so (pdu_so p + pdu_size p)"
  have step: "reassemble_loop (take (nat so) D) False (p # l) = reassemble_loop (take (nat ?so') D) False l"
    using p Cons.prems by (intro reassemble_seg) auto
  show ?case
  proof (cases "pdu_is_last p")
    case True
    with p Cons.prems have "nat ?so' = length D" by (auto simp: seg_of_def max_def)
    with step Cons.prems show ?thesis by (simp add: reassemble_rest)
  next
    case False
    have "full_scan (?so' - 1) l" using False p Cons.prems by (auto simp: Let_def max_def split: if_splits)
    with Cons.IH [of ?so'] Cons.prems step p show ?thesis by (auto simp: seg_of_def)
  qed
qed

definition covered :: "nr_rlc_pdu list \<Rightarrow> int \<Rightarrow> bool" where
  "covered l i \<longleftrightarrow> (\<exists>p \<in> set l. pdu_so p \<le> i \<and> i < pdu_so p + pdu_size p)"

lemma full_scan_covered:
  assumes "\<forall>p \<in> set l. seg_of D p" "full_scan (so - 1) l" "so \<le> i" "i < int (length D)"
  shows "covered l i"
  using assms
proof (induction l arbitrary: so)
  case Nil
  then show ?case by simp
next
  case (Cons p l)
  let ?so' = "max so (pdu_so p + pdu_size p)"
  show ?case
  proof (cases "i < pdu_so p + pdu_size p")
    case True
    with Cons.prems show ?thesis by (auto simp: covered_def split: if_splits)
  next
    case False
    with Cons.prems have "\<not> pdu_is_last p" by (auto simp: seg_of_def)
    then have "full_scan (?so' - 1) l" using Cons.prems by (auto simp: Let_def max_def split: if_splits)
    with Cons.IH [of ?so'] Cons.prems False show ?thesis by (auto simp: covered_def)
  qed
qed

lemma covered_full_scan:
  assumes "\<forall>p \<in> set l. seg_of D p" "sorted_wrt (\<lambda>p q. pdu_so p \<le> pdu_so q) l"
    "0 \<le> so" "so < int (length D)" "\<And>i. so \<le> i \<Longrightarrow> i < int (length D) \<Longrightarrow> covered l i"
  shows "full_scan (so - 1) l"
  using assms
proof (induction l arbitrary: so)
  case Nil
  then show ?case by (force simp: covered_def)
next
  case (Cons p l)
  let ?so' = "max so (pdu_so p + pdu_size p)"
  have p: "seg_of D p" using Cons.prems by simp
  have first: "pdu_so p \<le> so"
    using Cons.prems(5) [of so] Cons.prems(2,4) by (auto simp: covered_def)
  show ?case
  proof (cases "pdu_is_last p")
    case True
    with first show ?thesis by simp
  next
    case False
    with p Cons.prems(4) have "?so' < int (length D)" by (auto simp: seg_of_def)
    moreover have "covered l i" if "?so' \<le> i" "i < int (length D)" for i
      using Cons.prems(5) [of i] that by (auto simp: covered_def)
    ultimately have "full_scan (?so' - 1) l" using Cons.prems by (intro Cons.IH) auto
    with False first show ?thesis by (auto simp: Let_def max_def split: if_splits)
  qed
qed

section \<open>Properties\<close>

text \<open>
  (C27) Reassembly is correct and complete. Let the received segments of an SDU \<open>D\<close>, in
  the order of their offsets, be arbitrary slices of \<open>D\<close>: they may overlap, be duplicated
  and come from different segmentations. The completeness check succeeds exactly when every
  byte of \<open>D\<close> is covered by some segment, and then the reassembly loop delivers \<open>D\<close>.
\<close>

theorem reassembly_correct:
  assumes "\<forall>p \<in> set l. seg_of D p" "sorted_wrt (\<lambda>p q. pdu_so p \<le> pdu_so q) l"
    "D \<noteq> []" "int (length D) \<le> NR_SDU_MAX"
  shows "(full_scan (-1) l \<longleftrightarrow> (\<forall>i \<in> {0..<int (length D)}. covered l i))
     \<and> (full_scan (-1) l \<longrightarrow> reassemble_loop [] False l = Inr (D, False))"
  using assms full_scan_covered [of l D 0] covered_full_scan [of l D 0] full_scan_reassembles [of l D 0]
  by auto

theorem reassembly_correct_witness:
  "reassemble_loop [] False
     [nr_rlc_new_pdu 5 0 True False [1, 2], nr_rlc_new_pdu 5 1 False False [2],
      nr_rlc_new_pdu 5 1 False True [2, 3]] = Inr ([1, 2, 3], False)"
  using reassembly_correct [of "[nr_rlc_new_pdu 5 0 True False [1, 2], nr_rlc_new_pdu 5 1 False False [2],
      nr_rlc_new_pdu 5 1 False True [2, 3]]" "[1, 2, 3]"]
  by (simp add: nr_rlc_new_pdu_def seg_of_def NR_SDU_MAX_def)

end
