(* ===== verification/RLC_UM.thy ===== *)
theory RLC_UM
  imports RLC_Reassembly
begin

text \<open>
  The unacknowledged-mode entity of \<open>nr_rlc_entity_um.c\<close>: its record and one definition per
  function. An entity that carries a whole SDU in a PDU sends no sequence number; the
  segments of a segmented SDU carry the sequence number of the SDU, and the receiver
  reassembles them inside a window of half the sequence-number space.
\<close>

section \<open>The entity\<close>

record nr_rlc_entity_um =
  common :: nr_rlc_entity
  t_reassembly :: int
  sn_field_length :: int
  sn_modulus :: int
  window_size :: int
  rx_next_highest :: int
  rx_next_reassembly :: int
  rx_timer_trigger :: int
  tx_next :: int
  t_current :: u64
  t_log_buffer_full :: u64
  sdu_rejected :: int
  t_reassembly_start :: u64
  rx_list :: "nr_rlc_pdu list"
  rx_size :: int
  rx_maxsize :: int
  tx_list :: "nr_rlc_sdu_segment list"
  tx_end :: "addr option"
  tx_size :: int
  tx_maxsize :: int

definition new_nr_rlc_entity_um :: "int \<Rightarrow> int \<Rightarrow> int \<Rightarrow> int \<Rightarrow> nr_rlc_entity_um res" where
  "new_nr_rlc_entity_um rx_max tx_max t_reass sn_len =
     (if \<not> (sn_len = 6 \<or> sn_len = 12) then Inl Assert_fatal
      else res_bind (new_common NR_RLC_UM) (\<lambda>c.
        Inr \<lparr>common = c, t_reassembly = t_reass, sn_field_length = sn_len,
             sn_modulus = push_bit (nat sn_len) 1, window_size = push_bit (nat sn_len) 1 sdiv 2,
             rx_next_highest = 0, rx_next_reassembly = 0, rx_timer_trigger = 0, tx_next = 0,
             t_current = 0, t_log_buffer_full = 0, sdu_rejected = 0, t_reassembly_start = 0,
             rx_list = [], rx_size = 0, rx_maxsize = rx_max, tx_list = [], tx_end = None,
             tx_size = 0, tx_maxsize = tx_max\<rparr>))"

definition nr_rlc_entity_um_reconfigure ::
  "nr_rlc_entity_um \<Rightarrow> int \<Rightarrow> int option \<Rightarrow> nr_rlc_entity_um" where
  "nr_rlc_entity_um_reconfigure e t_reass sn_len =
     (let e = e\<lparr>t_reassembly := t_reass\<rparr>
      in case sn_len of None \<Rightarrow> e | Some n \<Rightarrow> e\<lparr>sn_field_length := n\<rparr>)"

definition um_compute_pdu_header_size :: "nr_rlc_entity_um \<Rightarrow> nr_rlc_sdu_segment \<Rightarrow> int" where
  "um_compute_pdu_header_size e sdu =
     (let h = 1;
          h = (if \<not> (seg_is_first sdu \<and> seg_is_last sdu) \<and> sn_field_length e = 12 then h + 1 else h)
      in if \<not> seg_is_first sdu then h + 2 else h)"

section \<open>Reception of PDUs\<close>

definition um_modulus_rx :: "nr_rlc_entity_um \<Rightarrow> int \<Rightarrow> int" where
  "um_modulus_rx e a =
     (let r = a - (rx_next_highest e - window_size e);
          r = (if r < 0 then r + sn_modulus e else r)
      in r smod sn_modulus e)"

definition um_sn_compare_rx :: "nr_rlc_entity_um \<Rightarrow> int \<Rightarrow> int \<Rightarrow> int" where
  "um_sn_compare_rx e a b = um_modulus_rx e a - um_modulus_rx e b"

text \<open>The nodes a loop from the first segment of \<open>sn\<close> to the end of its segments visits.\<close>

definition from_sn :: "int \<Rightarrow> nr_rlc_pdu list \<Rightarrow> nr_rlc_pdu list" where
  "from_sn sn l = dropWhile (\<lambda>p. pdu_sn p \<noteq> sn) l"

definition sn_segments :: "int \<Rightarrow> nr_rlc_pdu list \<Rightarrow> nr_rlc_pdu list" where
  "sn_segments sn l = takeWhile (\<lambda>p. pdu_sn p = sn) (from_sn sn l)"

definition um_sdu_full :: "nr_rlc_entity_um \<Rightarrow> int \<Rightarrow> bool" where
  "um_sdu_full e sn =
     (case from_sn sn (rx_list e) of
        [] \<Rightarrow> False
      | p # _ \<Rightarrow> if pdu_data p = None then False else full_scan (-1) (sn_segments sn (rx_list e)))"

definition um_sdu_delivered :: "nr_rlc_entity_um \<Rightarrow> int \<Rightarrow> bool" where
  "um_sdu_delivered e sn =
     (case from_sn sn (rx_list e) of [] \<Rightarrow> False | p # _ \<Rightarrow> pdu_data p = None)"

definition um_sdu_has_missing_bytes :: "nr_rlc_entity_um \<Rightarrow> int \<Rightarrow> bool" where
  "um_sdu_has_missing_bytes e sn =
     (case from_sn sn (rx_list e) of
        [] \<Rightarrow> False
      | p # _ \<Rightarrow> if pdu_data p = None then False else missing_scan (-1) (sn_segments sn (rx_list e)))"

text \<open>
  The first loop dereferences \<open>pdu\<close> without a test for \<open>NULL\<close>. The second one frees the
  data of every segment of \<open>sn\<close>, which stays in the list with size 0.
\<close>

definition um_reassemble_and_deliver :: "nr_rlc_entity_um \<Rightarrow> int \<Rightarrow> nr_rlc_entity_um res" where
  "um_reassemble_and_deliver e sn =
     (let l = rx_list e;
          before = takeWhile (\<lambda>p. pdu_sn p \<noteq> sn) l;
          segs = sn_segments sn l;
          after = dropWhile (\<lambda>p. pdu_sn p = sn) (from_sn sn l)
      in if from_sn sn l = [] then Inl Null_deref
      else res_bind (reassemble_loop [] False segs) (\<lambda>(sdu, bad_sdu).
        let e = e\<lparr>rx_list := before @ map (\<lambda>p. p\<lparr>pdu_data := None, pdu_size := 0\<rparr>) segs @ after,
                  rx_size := rx_size e - (\<Sum>p\<leftarrow>segs. pdu_size p)\<rparr>
        in if bad_sdu then Inr e
        else
          let e = common_update (calls_update (\<lambda>c. c @ [Deliver_sdu sdu])) e
          in Inr (common_update (stats_update (\<lambda>s. s\<lparr>txsdu_pkts := txsdu_pkts s + 1,
                    txsdu_bytes := txsdu_bytes s + of_int (int (length sdu))\<rparr>)) e)))"

text \<open>\<open>while (sdu_delivered(entity, sn)) sn = (sn + 1) % entity->sn_modulus;\<close>\<close>

definition um_skip_delivered :: "nr_rlc_entity_um \<Rightarrow> int \<Rightarrow> int res" where
  "um_skip_delivered e sn =
     while_res (\<lambda>s. Inr (um_sdu_delivered e s)) (\<lambda>s. Inr ((s + 1) smod sn_modulus e)) sn"

fun um_discard_out_of_window :: "nr_rlc_entity_um \<Rightarrow> nr_rlc_pdu list \<Rightarrow> nr_rlc_entity_um" where
  "um_discard_out_of_window e [] = e\<lparr>rx_list := []\<rparr>"
| "um_discard_out_of_window e (p # l) =
     (if um_sn_compare_rx e (pdu_sn p) (rx_next_highest e) \<ge> 0
      then um_discard_out_of_window
             (common_update (stats_update (\<lambda>s. s\<lparr>rxpdu_dd_pkts := rxpdu_dd_pkts s + 1,
                rxpdu_dd_bytes := rxpdu_dd_bytes s + of_int (pdu_size p),
                rxpdu_ow_pkts := rxpdu_ow_pkts s + 1,
                rxpdu_ow_bytes := rxpdu_ow_bytes s + of_int (pdu_size p)\<rparr>))
              (e\<lparr>rx_size := rx_size e - pdu_size p\<rparr>)) l
      else e\<lparr>rx_list := p # l\<rparr>)"

text \<open>The two branches of \<open>reception_actions\<close> on a complete SDU, and its two timer blocks.\<close>

definition um_sdu_actions :: "nr_rlc_entity_um \<Rightarrow> int \<Rightarrow> nr_rlc_entity_um res" where
  "um_sdu_actions e x =
     (if um_sdu_full e x
      then res_bind (um_reassemble_and_deliver e x) (\<lambda>e.
           if x = rx_next_reassembly e
           then res_bind (um_skip_delivered e (rx_next_reassembly e)) (\<lambda>sn.
                Inr (e\<lparr>rx_next_reassembly := sn\<rparr>))
           else Inr e)
      else if um_sn_compare_rx e x (rx_next_highest e) \<ge> 0
      then let e = e\<lparr>rx_next_highest := (x + 1) smod sn_modulus e\<rparr>;
               e = um_discard_out_of_window e (rx_list e)
           in if um_sn_compare_rx e (rx_next_reassembly e) (rx_next_highest e) \<ge> 0
              then res_bind (um_skip_delivered e
                     ((rx_next_highest e - window_size e + sn_modulus e) smod sn_modulus e)) (\<lambda>sn.
                   Inr (e\<lparr>rx_next_reassembly := sn\<rparr>))
              else Inr e
      else Inr e)"

definition um_timer_stop :: "nr_rlc_entity_um \<Rightarrow> nr_rlc_entity_um" where
  "um_timer_stop e =
     (if t_reassembly_start e \<noteq> 0
         \<and> (um_sn_compare_rx e (rx_timer_trigger e) (rx_next_reassembly e) \<le> 0
            \<or> um_sn_compare_rx e (rx_timer_trigger e) (rx_next_highest e) > 0
            \<or> (rx_next_highest e = (rx_next_reassembly e + 1) smod sn_modulus e
               \<and> \<not> um_sdu_has_missing_bytes e (rx_next_reassembly e)))
      then e\<lparr>t_reassembly_start := 0\<rparr> else e)"

definition um_timer_start :: "nr_rlc_entity_um \<Rightarrow> nr_rlc_entity_um" where
  "um_timer_start e =
     (if t_reassembly_start e = 0
         \<and> (um_sn_compare_rx e (rx_next_highest e) ((rx_next_reassembly e + 1) smod sn_modulus e) > 0
            \<or> (rx_next_highest e = (rx_next_reassembly e + 1) smod sn_modulus e
               \<and> um_sdu_has_missing_bytes e (rx_next_reassembly e)))
      then e\<lparr>t_reassembly_start := t_current e, rx_timer_trigger := rx_next_highest e\<rparr>
      else e)"

definition um_reception_actions :: "nr_rlc_entity_um \<Rightarrow> nr_rlc_pdu \<Rightarrow> nr_rlc_entity_um res" where
  "um_reception_actions e pdu =
     res_bind (um_sdu_actions e (pdu_sn pdu)) (\<lambda>e. Inr (um_timer_start (um_timer_stop e)))"

definition um_discard_pdu :: "nr_rlc_entity_um \<Rightarrow> int \<Rightarrow> nr_rlc_entity_um" where
  "um_discard_pdu e n =
     common_update (stats_update (\<lambda>s. s\<lparr>rxpdu_dd_pkts := rxpdu_dd_pkts s + 1,
       rxpdu_dd_bytes := rxpdu_dd_bytes s + of_int n\<rparr>)) e"

text \<open>The part of \<open>recv_pdu\<close> after the header: the data, the window check, the list.\<close>

definition um_recv_segment ::
  "nr_rlc_entity_um \<Rightarrow> byte list \<Rightarrow> nr_rlc_pdu_decoder \<Rightarrow> int \<Rightarrow> int \<Rightarrow> bool \<Rightarrow> bool \<Rightarrow> nr_rlc_entity_um res" where
  "um_recv_segment e buf d sn so is_first is_last =
     (let size = int (length buf); data_size = size - d_byte d in
      if data_size \<le> 0 then Inr (um_discard_pdu e size)
      else if rx_size e + data_size > rx_maxsize e then Inr (um_discard_pdu e size)
      else if um_sn_compare_rx e sn (rx_next_reassembly e) < 0 then Inr (um_discard_pdu e size)
      else
        let e = e\<lparr>rx_size := rx_size e + data_size\<rparr> in
        res_bind (c_slice buf (size - data_size) data_size) (\<lambda>bytes.
        let pdu = nr_rlc_new_pdu sn so is_first is_last bytes;
            e = e\<lparr>rx_list := nr_rlc_pdu_list_add (um_sn_compare_rx e) (rx_list e) pdu\<rparr> in
        um_reception_actions e pdu))"

definition nr_rlc_entity_um_recv_pdu :: "nr_rlc_entity_um \<Rightarrow> byte list \<Rightarrow> nr_rlc_entity_um res" where
  "nr_rlc_entity_um_recv_pdu e buf =
     (let size = int (length buf);
          e = common_update (stats_update (\<lambda>s. s\<lparr>rxpdu_pkts := rxpdu_pkts s + 1,
                rxpdu_bytes := rxpdu_bytes s + of_int size\<rparr>)) e;
          discard = Inr (um_discard_pdu e size) in
      res_bind (nr_rlc_pdu_decoder_get_bits (nr_rlc_pdu_decoder_init buf) 2) (\<lambda>(si, d).
      if d_error d then discard
      else
        let is_first = (si AND 2 = 0); is_last = (si AND 1 = 0) in
        if is_first \<and> is_last
        then if size < 2 then discard
             else res_bind (c_slice buf 1 (size - 1)) (\<lambda>sdu.
                  let e = common_update (calls_update (\<lambda>c. c @ [Deliver_sdu sdu])) e in
                  Inr (common_update (stats_update (\<lambda>s. s\<lparr>txsdu_pkts := txsdu_pkts s + 1,
                         txsdu_bytes := txsdu_bytes s + of_int (size - 1)\<rparr>)) e))
        else
          res_bind (if sn_field_length e = 12 then nr_rlc_pdu_decoder_get_bits d 2 else Inr (0, d)) (\<lambda>(_, d).
          if d_error d then discard
          else
            res_bind (nr_rlc_pdu_decoder_get_bits d (sn_field_length e)) (\<lambda>(sn, d).
            if d_error d then discard
            else if \<not> is_first
            then res_bind (nr_rlc_pdu_decoder_get_bits d 16) (\<lambda>(so, d).
                 if d_error d then discard
                 else if so = 0 then discard
                 else um_recv_segment e buf d sn so is_first is_last)
            else um_recv_segment e buf d sn 0 is_first is_last))))"

section \<open>Transmission\<close>

definition um_serialize_sdu ::
  "nr_rlc_entity_um \<Rightarrow> nr_rlc_sdu_segment \<Rightarrow> byte list \<Rightarrow> (int \<times> byte list) res" where
  "um_serialize_sdu e sdu buf =
     res_bind (nr_rlc_pdu_encoder_put_bits (nr_rlc_pdu_encoder_init buf)
                 (1 - of_bool (seg_is_first sdu)) 1) (\<lambda>c.
     res_bind (nr_rlc_pdu_encoder_put_bits c (1 - of_bool (seg_is_last sdu)) 1) (\<lambda>c.
     res_bind (sdu_read (mem (common e)) (seg_sdu sdu)) (\<lambda>s.
     res_bind
       (if seg_is_first sdu \<and> seg_is_last sdu then nr_rlc_pdu_encoder_put_bits c 0 6
        else res_bind (if sn_field_length e = 12 then nr_rlc_pdu_encoder_put_bits c 0 2 else Inr c) (\<lambda>c.
             nr_rlc_pdu_encoder_put_bits c (sdu_sn s) (sn_field_length e))) (\<lambda>c.
     res_bind (if \<not> seg_is_first sdu then nr_rlc_pdu_encoder_put_bits c (seg_so sdu) 16 else Inr c) (\<lambda>c.
     res_bind (c_slice (sdu_data s) (seg_so sdu) (seg_size sdu)) (\<lambda>bytes.
     res_bind (c_blit (e_buffer c) (e_byte c) bytes) (\<lambda>buf.
     Inr (e_byte c + seg_size sdu, buf))))))))"

text \<open>
  Returns the second segment (\<^const>\<open>None\<close> if the room for the PDU is too small), the first one, and
  the entity; the reference count has been increased in either case.
\<close>

definition um_resegment :: "nr_rlc_sdu_segment \<Rightarrow> nr_rlc_entity_um \<Rightarrow> int
    \<Rightarrow> (nr_rlc_sdu_segment option \<times> nr_rlc_sdu_segment \<times> nr_rlc_entity_um) res" where
  "um_resegment sdu e room =
     res_bind (sdu_read (mem (common e)) (seg_sdu sdu)) (\<lambda>s.
     let m = sdu_write (mem (common e)) (seg_sdu sdu) (s\<lparr>sdu_ref_count := sdu_ref_count s + 1\<rparr>);
         e = common_update (mem_update (\<lambda>_. m)) e;
         pdu_header_size = um_compute_pdu_header_size e (sdu\<lparr>seg_is_last := False\<rparr>)
     in if pdu_header_size + 1 > room then Inr (None, sdu, e)
        else
          let next = sdu\<lparr>seg_ptr := brk m\<rparr>;
              e = common_update (mem_update (\<lambda>m. m\<lparr>brk := brk m + 1\<rparr>)) e;
              over_size = pdu_header_size + seg_size sdu - room;
              sdu = sdu\<lparr>seg_size := seg_size sdu - over_size, seg_is_last := False\<rparr>;
              next = next\<lparr>seg_size := over_size, seg_so := seg_so sdu + seg_size sdu,
                          seg_is_first := False\<rparr>
          in Inr (Some next, sdu, common_update (stats_update (\<lambda>s. s\<lparr>txpdu_segmented :=
                    txpdu_segmented s + 1\<rparr>)) e))"

text \<open>The last part of \<open>generate_tx_pdu\<close>, once the segment to send is known.\<close>

definition um_send_segment ::
  "u64 \<Rightarrow> nr_rlc_entity_um \<Rightarrow> nr_rlc_sdu_segment \<Rightarrow> byte list \<Rightarrow> (int \<times> byte list \<times> nr_rlc_entity_um) res" where
  "um_send_segment now e sdu buf =
     (let size = int (length buf);
          e = (if \<not> seg_is_first sdu \<and> seg_is_last sdu
               then e\<lparr>tx_next := (tx_next e + 1) smod sn_modulus e\<rparr> else e) in
      res_bind (um_serialize_sdu e sdu buf) (\<lambda>(ret, buf).
      let e = e\<lparr>tx_size := tx_size e - seg_size sdu\<rparr>;
          e = common_update (stats_update (\<lambda>s. s\<lparr>txpdu_pkts := txpdu_pkts s + 1,
                txpdu_bytes := txpdu_bytes s + of_int size\<rparr>)) e in
      res_bind (sdu_read (mem (common e)) (seg_sdu sdu)) (\<lambda>s.
      res_bind (account_waiting_time now s (common e)) (\<lambda>c.
      res_bind (nr_rlc_free_sdu_segment (mem c) sdu) (\<lambda>(_, m).
      Inr (ret, buf, e\<lparr>common := c\<lparr>mem := m\<rparr>\<rparr>))))))"

definition um_generate_tx_pdu ::
  "u64 \<Rightarrow> nr_rlc_entity_um \<Rightarrow> byte list \<Rightarrow> (int \<times> byte list \<times> nr_rlc_entity_um) res" where
  "um_generate_tx_pdu now e buf =
     (let size = int (length buf) in
      case tx_list e of
        [] \<Rightarrow> Inr (0, buf, e)
      | sdu # rest \<Rightarrow>
          let pdu_header_size = um_compute_pdu_header_size e sdu in
          if pdu_header_size + 1 > size then Inr (0, buf, e)
          else
            let e = e\<lparr>tx_list := rest, tx_end := if rest = [] then None else tx_end e\<rparr> in
            res_bind (sdu_read (mem (common e)) (seg_sdu sdu)) (\<lambda>s.
            let m = sdu_write (mem (common e)) (seg_sdu sdu) (s\<lparr>sdu_sn := tx_next e\<rparr>);
                pdu_size = pdu_header_size + seg_size sdu;
                e = common_update (mem_update (\<lambda>_. m)) e;
                e = common_update (bstatus_update (\<lambda>b. b\<lparr>bs_tx_size := bs_tx_size b - pdu_size\<rparr>)) e in
            if pdu_size > size
            then res_bind (um_resegment sdu e size) (\<lambda>(next_sdu, sdu, e).
                 case next_sdu of
                   None \<Rightarrow> Inr (0, buf, e)
                 | Some next \<Rightarrow>
                     let e = e\<lparr>tx_list := next # tx_list e,
                               tx_end := if tx_end e = None then Some (seg_ptr next) else tx_end e\<rparr>;
                         e = common_update (stats_update (\<lambda>s. s\<lparr>txpdu_segmented := txpdu_segmented s + 1\<rparr>)) e;
                         e = common_update (bstatus_update (\<lambda>b. b\<lparr>bs_tx_size := bs_tx_size b
                               + (um_compute_pdu_header_size e next + seg_size next)\<rparr>)) e
                     in um_send_segment now e sdu buf)
            else um_send_segment now e sdu buf))"

definition nr_rlc_entity_um_buffer_status ::
  "nr_rlc_entity_um \<Rightarrow> int \<Rightarrow> nr_rlc_entity_buffer_status" where
  "nr_rlc_entity_um_buffer_status e max_size =
     \<lparr>bs_status_size = 0, bs_tx_size = bs_tx_size (bstatus (common e)), bs_retx_size = 0\<rparr>"

definition nr_rlc_entity_um_generate_pdu ::
  "u64 \<Rightarrow> nr_rlc_entity_um \<Rightarrow> byte list \<Rightarrow> (int \<times> byte list \<times> nr_rlc_entity_um) res" where
  "nr_rlc_entity_um_generate_pdu now e buf = um_generate_tx_pdu now e buf"

text \<open>The statistics at the start of \<open>recv_sdu\<close>, and the log of rejected SDUs.\<close>

definition um_count_sdu :: "nr_rlc_entity_um \<Rightarrow> int \<Rightarrow> nr_rlc_entity_um" where
  "um_count_sdu e n =
     common_update (stats_update (\<lambda>s. s\<lparr>rxsdu_pkts := rxsdu_pkts s + 1,
       rxsdu_bytes := rxsdu_bytes s + of_int n\<rparr>)) e"

definition um_log_rejected :: "nr_rlc_entity_um \<Rightarrow> nr_rlc_entity_um" where
  "um_log_rejected e =
     (if sdu_rejected e \<noteq> 0 \<and> t_current e > t_log_buffer_full e + 1280
      then e\<lparr>sdu_rejected := 0, t_log_buffer_full := t_current e\<rparr> else e)"

definition um_reject_sdu :: "nr_rlc_entity_um \<Rightarrow> int \<Rightarrow> nr_rlc_entity_um" where
  "um_reject_sdu e n =
     common_update (stats_update (\<lambda>s. s\<lparr>rxsdu_dd_pkts := rxsdu_dd_pkts s + 1,
       rxsdu_dd_bytes := rxsdu_dd_bytes s + of_int n\<rparr>)) (e\<lparr>sdu_rejected := sdu_rejected e + 1\<rparr>)"

definition nr_rlc_entity_um_recv_sdu ::
  "u64 \<Rightarrow> nr_rlc_entity_um \<Rightarrow> byte list \<Rightarrow> int \<Rightarrow> nr_rlc_entity_um res" where
  "nr_rlc_entity_um_recv_sdu now e buf sdu_id =
     (let size = int (length buf); e = um_count_sdu e size
      in if size > NR_SDU_MAX then Inl Exit_fatal
      else
        let e = um_log_rejected e
        in if tx_size e + size > tx_maxsize e then Inr (um_reject_sdu e size)
        else
          let e = e\<lparr>tx_size := tx_size e + size\<rparr>;
              (sdu, m) = nr_rlc_new_sdu (mem (common e)) buf sdu_id in
          res_bind (nr_rlc_sdu_segment_list_append (tx_list e) (tx_end e) sdu) (\<lambda>(l, l_end).
          let c = bstatus_update (\<lambda>b. b\<lparr>bs_tx_size := bs_tx_size b
                    + (um_compute_pdu_header_size e sdu + seg_size sdu)\<rparr>) ((common e)\<lparr>mem := m\<rparr>);
              e = e\<lparr>tx_list := l, tx_end := l_end, common := c\<rparr> in
          if avg_time_is_on c
          then res_bind (sdu_read m (seg_sdu sdu)) (\<lambda>s.
               Inr (e\<lparr>common := c\<lparr>mem := sdu_write m (seg_sdu sdu)
                                            (s\<lparr>sdu_time_of_arrival := now\<rparr>)\<rparr>\<rparr>))
          else Inr e))"

section \<open>Timers\<close>

fun um_discard_before :: "nr_rlc_entity_um \<Rightarrow> nr_rlc_pdu list \<Rightarrow> nr_rlc_entity_um" where
  "um_discard_before e [] = e\<lparr>rx_list := []\<rparr>"
| "um_discard_before e (p # l) =
     (if um_sn_compare_rx e (pdu_sn p) (rx_next_reassembly e) < 0
      then um_discard_before
             (common_update (stats_update (\<lambda>s. s\<lparr>rxpdu_dd_pkts := rxpdu_dd_pkts s + 1,
                rxpdu_dd_bytes := rxpdu_dd_bytes s + of_int (pdu_size p)\<rparr>)) e) l
      else e\<lparr>rx_list := p # l\<rparr>)"

definition um_check_t_reassembly :: "nr_rlc_entity_um \<Rightarrow> nr_rlc_entity_um res" where
  "um_check_t_reassembly e =
     (if t_reassembly_start e = 0 \<or> t_current e \<le> t_reassembly_start e + of_int (t_reassembly e)
      then Inr e
      else
        let e = e\<lparr>t_reassembly_start := 0\<rparr> in
        res_bind (um_skip_delivered e (rx_timer_trigger e)) (\<lambda>sn.
        let e = e\<lparr>rx_next_reassembly := sn\<rparr>;
            e = um_discard_before e (rx_list e) in
        Inr (if um_sn_compare_rx e (rx_next_highest e) ((rx_next_reassembly e + 1) smod sn_modulus e) > 0
                \<or> (rx_next_highest e = rx_next_reassembly e + 1
                   \<and> um_sdu_has_missing_bytes e (rx_next_reassembly e))
             then e\<lparr>t_reassembly_start := t_current e, rx_timer_trigger := rx_next_highest e\<rparr>
             else e)))"

definition nr_rlc_entity_um_set_time :: "nr_rlc_entity_um \<Rightarrow> u64 \<Rightarrow> nr_rlc_entity_um res" where
  "nr_rlc_entity_um_set_time e now = um_check_t_reassembly (e\<lparr>t_current := now\<rparr>)"

section \<open>Discard, re-establishment, deletion\<close>

text \<open>
  The search loop: the nodes before the first one with the identifier and the list from it
  on; reading the SDU of every node it visits.
\<close>

fun um_find_sdu :: "sdu_mem \<Rightarrow> int \<Rightarrow> nr_rlc_sdu_segment list
    \<Rightarrow> (nr_rlc_sdu_segment list \<times> nr_rlc_sdu_segment list) res" where
  "um_find_sdu m sdu_id [] = Inr ([], [])"
| "um_find_sdu m sdu_id (cur # l) =
     res_bind (sdu_read m (seg_sdu cur)) (\<lambda>s.
     if sdu_upper_layer_id s = sdu_id then Inr ([], cur # l)
     else res_bind (um_find_sdu m sdu_id l) (\<lambda>(pre, r). Inr (cur # pre, r)))"

definition nr_rlc_entity_um_discard_sdu :: "nr_rlc_entity_um \<Rightarrow> int \<Rightarrow> nr_rlc_entity_um res" where
  "nr_rlc_entity_um_discard_sdu e sdu_id =
     res_bind (um_find_sdu (mem (common e)) sdu_id (tx_list e)) (\<lambda>(pre, r).
     case r of
       [] \<Rightarrow> Inr e
     | cur # rest \<Rightarrow>
         if \<not> seg_is_first cur \<or> \<not> seg_is_last cur then Inr e
         else
           let e = e\<lparr>tx_list := pre @ rest,
                     tx_end := if tx_end e = Some (seg_ptr cur)
                               then (if pre \<noteq> [] then Some (seg_ptr (last pre)) else None)
                               else tx_end e\<rparr>;
               e = common_update (bstatus_update (\<lambda>b. b\<lparr>bs_tx_size := bs_tx_size b
                     - (um_compute_pdu_header_size e cur + seg_size cur)\<rparr>)) e in
           res_bind (nr_rlc_free_sdu_segment (mem (common e)) cur) (\<lambda>(_, m).
           Inr (common_update (mem_update (\<lambda>_. m)) e)))"

definition um_clear_entity :: "nr_rlc_entity_um \<Rightarrow> nr_rlc_entity_um res" where
  "um_clear_entity e =
     (let e = e\<lparr>rx_next_highest := 0, rx_next_reassembly := 0, rx_timer_trigger := 0, tx_next := 0,
                t_current := 0, t_log_buffer_full := 0, sdu_rejected := 0, t_reassembly_start := 0,
                rx_list := [], rx_size := 0\<rparr> in
      res_bind (nr_rlc_free_sdu_segment_list (mem (common e)) (tx_list e)) (\<lambda>m.
      Inr (e\<lparr>tx_list := [], tx_end := None, tx_size := 0,
             common := bstatus_update (\<lambda>b. b\<lparr>bs_tx_size := 0\<rparr>) ((common e)\<lparr>mem := m\<rparr>)\<rparr>)))"

definition nr_rlc_entity_um_reestablishment :: "nr_rlc_entity_um \<Rightarrow> nr_rlc_entity_um res" where
  "nr_rlc_entity_um_reestablishment e = um_clear_entity e"

definition nr_rlc_entity_um_delete :: "nr_rlc_entity_um \<Rightarrow> sdu_mem res" where
  "nr_rlc_entity_um_delete e = res_bind (um_clear_entity e) (\<lambda>e. Inr (mem (common e)))"

definition nr_rlc_entity_um_available_tx_space :: "nr_rlc_entity_um \<Rightarrow> int" where
  "nr_rlc_entity_um_available_tx_space e = tx_maxsize e - tx_size e"

definition nr_rlc_entity_um_tx_list_occupancy :: "nr_rlc_entity_um \<Rightarrow> int" where
  "nr_rlc_entity_um_tx_list_occupancy e = tx_size e"

end
