(* ===== verification/RLC_UM_Rx.thy ===== *)
theory RLC_UM_Rx
  imports RLC_UM SN_Window
begin

text \<open>
  The receiving side of the unacknowledged-mode entity: the invariant of the reassembly
  window and the proof that every operation keeps it, whatever bytes arrive.
\<close>

section \<open>Invariant\<close>

definition um_cfg :: "nr_rlc_entity_um \<Rightarrow> bool" where
  "um_cfg e \<longleftrightarrow> (sn_field_length e = 6 \<and> sn_modulus e = 64 \<and> window_size e = 32
     \<or> sn_field_length e = 12 \<and> sn_modulus e = 4096 \<and> window_size e = 2048)"

text \<open>Sequence numbers count from the lower edge of the reassembly window.\<close>

abbreviation um_key :: "nr_rlc_entity_um \<Rightarrow> int \<Rightarrow> int" where
  "um_key e \<equiv> sn_key (sn_modulus e) (rx_next_highest e - window_size e)"

abbreviation um_block :: "nr_rlc_entity_um \<Rightarrow> int \<Rightarrow> nr_rlc_pdu list" where
  "um_block e sn \<equiv> filter (\<lambda>p. pdu_sn p = sn) (rx_list e)"

text \<open>A held segment, or one whose data has been delivered.\<close>

definition um_pdu_ok :: "nr_rlc_pdu \<Rightarrow> bool" where
  "um_pdu_ok p \<longleftrightarrow> pdu_held p \<or> (pdu_data p = None \<and> pdu_size p = 0)"

text \<open>
  The list is ordered, its sequence numbers are valid, every sequence number has a proper
  block of segments, and the state variables are sequence numbers with
  \<open>rx_next_reassembly \<le> rx_next_highest\<close>; the numbers below \<open>n\<close> (counted from the lower edge
  of the window) are the ones the list may hold.
\<close>

definition um_rx_list_ok :: "int \<Rightarrow> nr_rlc_entity_um \<Rightarrow> bool" where
  "um_rx_list_ok n e \<longleftrightarrow> um_cfg e
     \<and> sorted_wrt (pdu_ordered (um_key e)) (rx_list e)
     \<and> (\<forall>p \<in> set (rx_list e). 0 \<le> pdu_sn p \<and> pdu_sn p < sn_modulus e \<and> um_key e (pdu_sn p) < n \<and> um_pdu_ok p)
     \<and> (\<forall>sn. seg_block (um_block e sn))
     \<and> 0 \<le> rx_next_highest e \<and> rx_next_highest e < sn_modulus e
     \<and> 0 \<le> rx_next_reassembly e \<and> rx_next_reassembly e < sn_modulus e
     \<and> um_key e (rx_next_reassembly e) \<le> window_size e
     \<and> 0 \<le> rx_timer_trigger e \<and> rx_timer_trigger e < sn_modulus e"

definition um_rx_inv :: "nr_rlc_entity_um \<Rightarrow> bool" where
  "um_rx_inv e \<longleftrightarrow> um_rx_list_ok (window_size e) e
     \<and> (t_reassembly_start e \<noteq> 0 \<longrightarrow>
          um_key e (rx_next_reassembly e) < um_key e (rx_timer_trigger e)
          \<and> um_key e (rx_timer_trigger e) \<le> window_size e)"

text \<open>Bytes that \<open>rx_size\<close> counts although no segment of the list holds them.\<close>

definition um_rx_leak :: "nr_rlc_entity_um \<Rightarrow> int" where
  "um_rx_leak e = rx_size e - (\<Sum>p\<leftarrow>rx_list e. pdu_size p)"

lemma um_cfg_pos [simp]:
  "um_cfg e \<Longrightarrow> 0 < sn_modulus e" "um_cfg e \<Longrightarrow> 0 < window_size e"
  "um_cfg e \<Longrightarrow> window_size e + window_size e = sn_modulus e"
  "um_cfg e \<Longrightarrow> window_size e + 1 < sn_modulus e"
  by (auto simp: um_cfg_def)

lemma um_modulus_rx_eq:
  "um_cfg e \<Longrightarrow> 0 \<le> a \<Longrightarrow> 0 \<le> rx_next_highest e \<Longrightarrow> rx_next_highest e < sn_modulus e \<Longrightarrow>
   um_modulus_rx e a = um_key e a"
  unfolding um_modulus_rx_def Let_def
  by (rule c_modulus_eq_key) (auto simp: um_cfg_def)

lemma um_sn_compare_rx_eq:
  assumes "um_cfg e" "0 \<le> a" "0 \<le> b" "0 \<le> rx_next_highest e" "rx_next_highest e < sn_modulus e"
  shows "um_sn_compare_rx e a b = um_key e a - um_key e b"
  using assms by (simp add: um_sn_compare_rx_def um_modulus_rx_eq)

lemma um_key_highest [simp]:
  "um_cfg e \<Longrightarrow> um_key e (rx_next_highest e) = window_size e"
  by (auto simp: sn_key_offset um_cfg_def)

text \<open>The predicates of the code, on the block of a sequence number.\<close>

lemma um_from_sn:
  assumes "sorted_wrt (pdu_ordered key) (rx_list e)"
  shows "sn_segments sn (rx_list e) = um_block e sn"
    and "from_sn sn (rx_list e) = [] \<longleftrightarrow> um_block e sn = []"
    and "um_block e sn \<noteq> [] \<Longrightarrow> \<exists>r. from_sn sn (rx_list e) = hd (um_block e sn) # r"
proof -
  show "sn_segments sn (rx_list e) = um_block e sn"
    and "from_sn sn (rx_list e) = [] \<longleftrightarrow> um_block e sn = []"
    using ordered_block(1,2) [OF assms] by (auto simp: sn_segments_def from_sn_def)
  show "\<exists>r. from_sn sn (rx_list e) = hd (um_block e sn) # r" if "um_block e sn \<noteq> []"
    using that unfolding from_sn_def by (rule dropWhile_hd_filter)
qed

lemma um_sdu_full_iff:
  "sorted_wrt (pdu_ordered key) (rx_list e) \<Longrightarrow>
   um_sdu_full e sn \<longleftrightarrow> um_block e sn \<noteq> [] \<and> pdu_data (hd (um_block e sn)) \<noteq> None \<and> full_scan (-1) (um_block e sn)"
  using um_from_sn [of key e sn] by (auto simp: um_sdu_full_def split: list.splits)

lemma um_sdu_delivered_iff:
  "sorted_wrt (pdu_ordered key) (rx_list e) \<Longrightarrow>
   um_sdu_delivered e sn \<longleftrightarrow> um_block e sn \<noteq> [] \<and> pdu_data (hd (um_block e sn)) = None"
  using um_from_sn [of key e sn] by (auto simp: um_sdu_delivered_def split: list.splits)

section \<open>Insertion\<close>

lemma pdu_list_add_cong:
  "(\<And>q. q \<in> set l \<Longrightarrow> cmp (pdu_sn q) (pdu_sn p) = cmp' (pdu_sn q) (pdu_sn p)) \<Longrightarrow>
   nr_rlc_pdu_list_add cmp l p = nr_rlc_pdu_list_add cmp' l p"
  by (induction l) auto

lemma um_insert:
  assumes ok: "um_rx_list_ok (window_size e) e" and p: "pdu_held p" "0 \<le> pdu_sn p" "pdu_sn p < sn_modulus e"
  defines "e' \<equiv> e\<lparr>rx_list := nr_rlc_pdu_list_add (um_sn_compare_rx e) (rx_list e) p\<rparr>"
  shows "um_rx_list_ok (max (window_size e) (um_key e (pdu_sn p) + 1)) e'"
    and "um_block e' sn = (if sn = pdu_sn p then insert_by_so p (um_block e sn) else um_block e sn)"
    and "(\<Sum>q\<leftarrow>rx_list e'. pdu_size q) = pdu_size p + (\<Sum>q\<leftarrow>rx_list e. pdu_size q)"
proof -
  let ?k = "um_key e"
  have add: "nr_rlc_pdu_list_add (um_sn_compare_rx e) (rx_list e) p
      = nr_rlc_pdu_list_add (\<lambda>a b. ?k a - ?k b) (rx_list e) p"
    using ok p(2) by (intro pdu_list_add_cong um_sn_compare_rx_eq) (auto simp: um_rx_list_ok_def)
  have inj: "inj_on ?k (insert (pdu_sn p) (pdu_sn ` set (rx_list e)))"
    using ok p by (intro inj_on_subset [OF sn_key_inj]) (auto simp: um_rx_list_ok_def)
  have sorted: "sorted_wrt (pdu_ordered ?k) (rx_list e)" using ok by (simp add: um_rx_list_ok_def)
  show blk: "um_block e' sn = (if sn = pdu_sn p then insert_by_so p (um_block e sn) else um_block e sn)" for sn
    using filter_pdu_list_add [OF sorted inj] by (simp add: e'_def add)
  have "seg_block (um_block e' sn)" for sn
    unfolding blk using ok p(1) by (auto simp: um_rx_list_ok_def intro: seg_block_insert)
  then show "um_rx_list_ok (max (window_size e) (um_key e (pdu_sn p) + 1)) e'"
    using ok p sorted_pdu_list_add [OF sorted inj] unfolding um_rx_list_ok_def
    by (auto simp: e'_def add um_pdu_ok_def um_cfg_def less_max_iff_disj)
  have "mset (map pdu_size (rx_list e')) = mset (pdu_size p # map pdu_size (rx_list e))"
    by (simp add: e'_def mset_pdu_list_add)
  then show "(\<Sum>q\<leftarrow>rx_list e'. pdu_size q) = pdu_size p + (\<Sum>q\<leftarrow>rx_list e. pdu_size q)"
    by (metis sum_mset_sum_list sum_list.Cons)
qed

section \<open>Reassembly\<close>

abbreviation um_clear :: "int \<Rightarrow> nr_rlc_pdu \<Rightarrow> nr_rlc_pdu" where
  "um_clear x p \<equiv> (if pdu_sn p = x then p\<lparr>pdu_data := None, pdu_size := 0\<rparr> else p)"

lemma filter_um_clear:
  "filter (\<lambda>p. pdu_sn p = sn) (map (um_clear x) l) = map (um_clear x) (filter (\<lambda>p. pdu_sn p = sn) l)"
  by (induction l) auto

lemma ordered_um_clear [simp]: "pdu_ordered key (um_clear x p) (um_clear x q) = pdu_ordered key p q"
  by (simp add: pdu_ordered_def)

lemma sum_um_clear:
  "(\<Sum>p\<leftarrow>map (um_clear x) l. pdu_size p) = (\<Sum>p\<leftarrow>l. pdu_size p) - (\<Sum>p\<leftarrow>filter (\<lambda>p. pdu_sn p = x) l. pdu_size p)"
  by (induction l) auto

lemma um_reassemble_eq:
  assumes "sorted_wrt (pdu_ordered key) (rx_list e)" "um_sdu_full e x" "seg_block (um_block e x)"
  obtains sdu bad c where "reassemble_loop [] False (um_block e x) = Inr (sdu, bad)"
    "um_reassemble_and_deliver e x = Inr (e\<lparr>common := c, rx_list := map (um_clear x) (rx_list e),
       rx_size := rx_size e - (\<Sum>p\<leftarrow>um_block e x. pdu_size p)\<rparr>)"
    "calls c = (if bad then calls (common e) else calls (common e) @ [Deliver_sdu sdu])"
    "\<exists>st. c = (common e)\<lparr>calls := calls c, stats := st\<rparr>"
proof -
  have full: "um_block e x \<noteq> []" "pdu_data (hd (um_block e x)) \<noteq> None"
    using assms(1,2) by (auto simp: um_sdu_full_iff)
  then have "\<forall>p \<in> set (um_block e x). pdu_held p" using assms(3) by (auto simp: seg_block_def)
  then obtain sdu bad where re: "reassemble_loop [] False (um_block e x) = Inr (sdu, bad)"
    using reassemble_safe [of "um_block e x" "[]" False] by (auto simp: NR_SDU_MAX_def)
  note l = ordered_block(3) [OF assms(1), of x "\<lambda>p. p\<lparr>pdu_data := None, pdu_size := 0\<rparr>"]
  let ?c = "if bad then common e else
      stats_update (\<lambda>s. s\<lparr>txsdu_pkts := txsdu_pkts s + 1,
        txsdu_bytes := txsdu_bytes s + of_int (int (length sdu))\<rparr>) (calls_update (\<lambda>c. c @ [Deliver_sdu sdu]) (common e))"
  have "um_reassemble_and_deliver e x = Inr (e\<lparr>common := ?c, rx_list := map (um_clear x) (rx_list e),
      rx_size := rx_size e - (\<Sum>p\<leftarrow>um_block e x. pdu_size p)\<rparr>)"
    using re full(1) l um_from_sn(1,2) [OF assms(1), of x]
    by (simp add: um_reassemble_and_deliver_def Let_def from_sn_def)
  moreover have "calls ?c = (if bad then calls (common e) else calls (common e) @ [Deliver_sdu sdu])" by simp
  moreover have "\<exists>st. ?c = (common e)\<lparr>calls := calls ?c, stats := st\<rparr>"
    by (rule exI [of _ "stats ?c"]) simp
  ultimately show ?thesis by (rule that [OF re])
qed

lemma full_scan_first: "full_scan (-1) b \<Longrightarrow> \<forall>p \<in> set b. pdu_held p \<Longrightarrow> b \<noteq> [] \<and> pdu_so (hd b) = 0"
  by (cases b) (auto simp: pdu_held_def split: if_splits)

lemma um_reassemble_ok:
  assumes ok: "um_rx_list_ok n e" and full: "um_sdu_full e x"
    and e': "e' = e\<lparr>common := c, rx_list := map (um_clear x) (rx_list e),
                     rx_size := rx_size e - (\<Sum>p\<leftarrow>um_block e x. pdu_size p)\<rparr>"
  shows "um_rx_list_ok n e'" "um_sdu_delivered e' x" "um_rx_leak e' = um_rx_leak e"
proof -
  have sorted: "sorted_wrt (pdu_ordered (um_key e)) (rx_list e)" and blk: "\<And>sn. seg_block (um_block e sn)"
    using ok by (auto simp: um_rx_list_ok_def)
  have scan: "um_block e x \<noteq> []" "full_scan (-1) (um_block e x)" "pdu_data (hd (um_block e x)) \<noteq> None"
    using full um_sdu_full_iff [OF sorted] by auto
  then have held: "\<forall>p \<in> set (um_block e x). pdu_held p" using blk [of x] by (auto simp: seg_block_def)
  have first: "pdu_so (hd (um_block e x)) = 0" using full_scan_first [OF scan(2) held] by simp
  have hdx: "pdu_sn (hd (um_block e x)) = x" using hd_in_set [OF scan(1)] by simp
  have blk': "um_block e' sn = map (um_clear x) (um_block e sn)" for sn
    by (simp add: e' filter_um_clear)
  have hdmap: "hd (um_block e' x) = um_clear x (hd (um_block e x))" "um_block e' x \<noteq> []"
    unfolding blk' using scan(1) by (auto simp: hd_map)
  have sorted': "sorted_wrt (pdu_ordered (um_key e')) (rx_list e')"
    using sorted by (simp add: e' sorted_wrt_map del: if_split)
  have "seg_block (um_block e' sn)" for sn
  proof (cases "sn = x")
    case True
    then show ?thesis using hdmap first hdx by (auto simp: seg_block_def)
  next
    case False
    then have "map (um_clear x) (um_block e sn) = um_block e sn" by (intro map_idI) auto
    then show ?thesis unfolding blk' using blk [of sn] by simp
  qed
  then show "um_rx_list_ok n e'"
    using ok sorted' by (auto simp: um_rx_list_ok_def e' um_pdu_ok_def um_cfg_def)
  show "um_sdu_delivered e' x"
    unfolding um_sdu_delivered_iff [OF sorted'] using hdmap hdx by auto
  show "um_rx_leak e' = um_rx_leak e"
    unfolding um_rx_leak_def e' by (simp add: sum_um_clear del: map_map list.map_comp)
qed

section \<open>Skipping delivered SDUs\<close>

lemma um_not_delivered:
  assumes "um_rx_list_ok n e" "n \<le> um_key e sn"
  shows "\<not> um_sdu_delivered e sn"
proof -
  have "um_block e sn = []" using assms by (fastforce simp: um_rx_list_ok_def filter_empty_conv)
  then show ?thesis using assms(1) by (auto simp: um_rx_list_ok_def um_sdu_delivered_iff)
qed

lemma um_skip_ok:
  assumes ok: "um_rx_list_ok (window_size e) e" and sn: "0 \<le> sn" "sn < sn_modulus e" "um_key e sn \<le> window_size e"
  obtains sn' where "um_skip_delivered e sn = Inr sn'" "0 \<le> sn'" "sn' < sn_modulus e"
    "um_key e sn \<le> um_key e sn'" "um_key e sn' \<le> window_size e" "\<not> um_sdu_delivered e sn'"
proof -
  let ?M = "sn_modulus e"
  let ?n = "nat (window_size e - um_key e sn)"
  have M: "0 < ?M" and W: "window_size e < ?M" using ok by (auto simp: um_rx_list_ok_def um_cfg_def)
  have key: "um_key e ((sn + int k) mod ?M) = um_key e sn + int k" if "k \<le> ?n" for k
    unfolding sn_key_add using that sn(3) M W by (intro mod_pos_pos_trivial) (auto simp: add_nonneg_nonneg)
  have "\<not> um_sdu_delivered e ((sn + int ?n) mod ?M)"
    using um_not_delivered [OF ok] key [of ?n] sn(3) by simp
  from while_skip [where P = "um_sdu_delivered e", OF M sn(1,2) this] obtain k where k: "k \<le> ?n"
      "um_skip_delivered e sn = Inr ((sn + int k) mod ?M)" "\<not> um_sdu_delivered e ((sn + int k) mod ?M)"
    by (auto simp: um_skip_delivered_def)
  show ?thesis using that [OF k(2) _ _ _ _ k(3)] key [OF k(1)] k(1) M sn(3) by simp
qed

section \<open>Moving the window\<close>

lemma um_discard_eq:
  "\<exists>st. um_discard_out_of_window e l
     = e\<lparr>common := (common e)\<lparr>stats := st\<rparr>,
         rx_size := rx_size e - (\<Sum>p\<leftarrow>takeWhile (\<lambda>p. um_sn_compare_rx e (pdu_sn p) (rx_next_highest e) \<ge> 0) l. pdu_size p),
         rx_list := dropWhile (\<lambda>p. um_sn_compare_rx e (pdu_sn p) (rx_next_highest e) \<ge> 0) l\<rparr>"
proof (induction l arbitrary: e)
  case Nil
  show ?case by (rule exI [of _ "stats (common e)"]) simp
next
  case (Cons p l)
  show ?case
  proof (cases "um_sn_compare_rx e (pdu_sn p) (rx_next_highest e) \<ge> 0")
    case True
    let ?e = "common_update (stats_update (\<lambda>s. s\<lparr>rxpdu_dd_pkts := rxpdu_dd_pkts s + 1,
                rxpdu_dd_bytes := rxpdu_dd_bytes s + of_int (pdu_size p),
                rxpdu_ow_pkts := rxpdu_ow_pkts s + 1,
                rxpdu_ow_bytes := rxpdu_ow_bytes s + of_int (pdu_size p)\<rparr>))
              (e\<lparr>rx_size := rx_size e - pdu_size p\<rparr>)"
    have cmp: "um_sn_compare_rx ?e = um_sn_compare_rx e"
      by (intro ext) (simp add: um_sn_compare_rx_def um_modulus_rx_def Let_def)
    from Cons [of ?e] obtain st where "um_discard_out_of_window ?e l = ?e\<lparr>common := (common ?e)\<lparr>stats := st\<rparr>,
         rx_size := rx_size ?e - (\<Sum>p\<leftarrow>takeWhile (\<lambda>p. um_sn_compare_rx e (pdu_sn p) (rx_next_highest e) \<ge> 0) l. pdu_size p),
         rx_list := dropWhile (\<lambda>p. um_sn_compare_rx e (pdu_sn p) (rx_next_highest e) \<ge> 0) l\<rparr>"
      unfolding cmp by auto
    with True show ?thesis by (intro exI [of _ st]) simp
  next
    case False
    then show ?thesis by (intro exI [of _ "stats (common e)"]) simp
  qed
qed

text \<open>
  The window moves up to a number \<open>x\<close> above it: the segments below the new lower edge are a
  prefix of the list and are dropped, and the order of the others is kept.
\<close>

lemma um_move_window:
  assumes ok: "um_rx_list_ok n e" and x: "0 \<le> x" "x < sn_modulus e" "window_size e \<le> um_key e x"
    and n: "n \<le> um_key e x + 1"
    and e2: "e2 = um_discard_out_of_window (e\<lparr>rx_next_highest := (x + 1) smod sn_modulus e\<rparr>) (rx_list e)"
  obtains st where "e2 = e\<lparr>rx_next_highest := (x + 1) mod sn_modulus e, common := (common e)\<lparr>stats := st\<rparr>,
       rx_size := rx_size e2, rx_list := filter (\<lambda>p. um_key e2 (pdu_sn p) < window_size e) (rx_list e)\<rparr>"
    "um_rx_leak e2 = um_rx_leak e" "sorted_wrt (pdu_ordered (um_key e2)) (rx_list e2)"
    "\<And>a. um_key e2 a = (if um_key e x + 1 - window_size e \<le> um_key e a
        then um_key e a - (um_key e x + 1 - window_size e) else um_key e a - (um_key e x + 1 - window_size e) + sn_modulus e)"
proof -
  let ?M = "sn_modulus e" and ?W = "window_size e" and ?kx = "um_key e x"
  let ?d = "?kx + 1 - ?W"
  let ?e1 = "e\<lparr>rx_next_highest := (x + 1) mod ?M\<rparr>"
  have cfg: "um_cfg e" and sorted: "sorted_wrt (pdu_ordered (um_key e)) (rx_list e)"
      and sns: "\<forall>p \<in> set (rx_list e). 0 \<le> pdu_sn p \<and> pdu_sn p < ?M \<and> um_key e (pdu_sn p) < n"
    using ok by (auto simp: um_rx_list_ok_def)
  have M: "0 < ?M" "?W + ?W = ?M" "0 < ?W" using cfg by auto
  have smod: "(x + 1) smod ?M = (x + 1) mod ?M" using x(1) M(1) by (intro smod_eq_mod) auto
  have "((x + 1) mod ?M - ?W) mod ?M = (rx_next_highest e - ?W + ?d) mod ?M"
  proof -
    have "x = (rx_next_highest e - ?W + ?kx) mod ?M" using sn_key_inverse [OF x(1,2)] by simp
    from arg_cong [OF this, where f = "\<lambda>y. (y + (1 - ?W)) mod ?M"]
    have "(x + 1 - ?W) mod ?M = ((rx_next_highest e - ?W + ?kx) mod ?M + (1 - ?W)) mod ?M"
      by (simp only: add_diff_eq)
    also have "\<dots> = (rx_next_highest e - ?W + ?d) mod ?M"
      unfolding mod_add_left_eq by (rule arg_cong [where f = "\<lambda>x. x mod ?M"]) simp
    finally show ?thesis unfolding mod_diff_left_eq .
  qed
  from sn_key_cong [OF this] have move: "um_key ?e1 a = sn_key ?M (rx_next_highest e - ?W + ?d) a" for a
    by simp
  have "0 \<le> ?d" "?d \<le> ?M" using x(3) M sn_key_bounds(2) [OF M(1), of "rx_next_highest e - ?W" x] by linarith+
  note shift = move [unfolded sn_key_shift_cases [OF M(1) this]]
  have cmp: "um_sn_compare_rx ?e1 (pdu_sn p) (rx_next_highest ?e1) \<ge> 0 \<longleftrightarrow> um_key e (pdu_sn p) < ?d"
    if "p \<in> set (rx_list e)" for p
  proof -
    have "um_cfg ?e1" using cfg by (simp add: um_cfg_def)
    then have "um_sn_compare_rx ?e1 (pdu_sn p) (rx_next_highest ?e1) = um_key ?e1 (pdu_sn p) - ?W"
      using sns that M(1) um_key_highest [of ?e1] by (subst um_sn_compare_rx_eq) auto
    moreover have "um_key e (pdu_sn p) < ?kx + 1" "0 \<le> um_key e (pdu_sn p)" using sns that n M(1) by auto
    moreover have "?kx < ?M" using M(1) by simp
    ultimately show ?thesis unfolding shift using M by (auto simp del: sn_key_bounds)
  qed
  have pre: "sorted_wrt (\<lambda>p q. um_key e (pdu_sn q) < ?d \<longrightarrow> um_key e (pdu_sn p) < ?d) (rx_list e)"
    using sorted by (rule sorted_wrt_mono_rel [rotated]) (auto simp: pdu_ordered_def)
  let ?out = "\<lambda>p. um_key e (pdu_sn p) < ?d"
  let ?cmp = "\<lambda>p. um_sn_compare_rx ?e1 (pdu_sn p) (rx_next_highest ?e1) \<ge> 0"
  have "dropWhile ?cmp (rx_list e) = dropWhile ?out (rx_list e)"
       "takeWhile ?cmp (rx_list e) = takeWhile ?out (rx_list e)"
    using cmp by (auto intro!: dropWhile_cong takeWhile_cong simp del: nr_rlc_entity_um.simps)
  note while = this [unfolded dropWhile_eq_filter [OF pre] takeWhile_eq_filter [OF pre]]
  obtain st where disc: "um_discard_out_of_window ?e1 (rx_list e) = ?e1\<lparr>common := (common e)\<lparr>stats := st\<rparr>,
      rx_size := rx_size e - (\<Sum>p\<leftarrow>filter ?out (rx_list e). pdu_size p),
      rx_list := filter (\<lambda>p. \<not> ?out p) (rx_list e)\<rparr>"
    using um_discard_eq [of ?e1 "rx_list e"] unfolding while by auto
  have keep: "filter (\<lambda>p. \<not> ?out p) (rx_list e) = filter (\<lambda>p. um_key ?e1 (pdu_sn p) < ?W) (rx_list e)"
  proof (rule filter_cong [OF refl])
    fix p assume "p \<in> set (rx_list e)"
    then have "um_key e (pdu_sn p) < ?kx + 1" "0 \<le> um_key e (pdu_sn p)" using sns n M(1) by auto
    moreover have "?kx < ?M" using M(1) by simp
    ultimately show "(\<not> ?out p) = (um_key ?e1 (pdu_sn p) < ?W)" unfolding shift using M by (auto simp del: sn_key_bounds)
  qed
  have key2: "um_key e2 = um_key ?e1" by (simp add: e2 smod disc)
  have "sorted_wrt (pdu_ordered (um_key ?e1)) (filter (\<lambda>p. \<not> ?out p) (rx_list e))"
    using sorted_wrt_filter [OF sorted]
    by (rule sorted_wrt_mono_rel [rotated]) (unfold pdu_ordered_def shift, auto)
  then have sorted2: "sorted_wrt (pdu_ordered (um_key e2)) (rx_list e2)" by (simp add: key2) (simp add: e2 smod disc)
  show ?thesis
  proof (rule that [OF _ _ sorted2])
    show "e2 = e\<lparr>rx_next_highest := (x + 1) mod ?M, common := (common e)\<lparr>stats := st\<rparr>,
       rx_size := rx_size e2, rx_list := filter (\<lambda>p. um_key e2 (pdu_sn p) < ?W) (rx_list e)\<rparr>"
      unfolding key2 keep [symmetric] by (simp add: e2 smod disc)
    show "um_rx_leak e2 = um_rx_leak e"
      using sum_list_filter_split [of pdu_size ?out "rx_list e"] by (simp add: um_rx_leak_def e2 smod disc)
  qed (unfold key2, rule shift)
qed

lemma um_move_window_ok:
  assumes ok: "um_rx_list_ok n e" and x: "0 \<le> x" "x < sn_modulus e" "window_size e \<le> um_key e x"
    and n: "n \<le> um_key e x + 1"
    and e2: "e2 = um_discard_out_of_window (e\<lparr>rx_next_highest := (x + 1) smod sn_modulus e\<rparr>) (rx_list e)"
    and sn: "0 \<le> sn" "sn < sn_modulus e" "um_key e2 sn \<le> window_size e"
  shows "um_rx_list_ok (window_size e) (e2\<lparr>rx_next_reassembly := sn\<rparr>)"
proof -
  obtain st where move: "e2 = e\<lparr>rx_next_highest := (x + 1) mod sn_modulus e, common := (common e)\<lparr>stats := st\<rparr>,
       rx_size := rx_size e2, rx_list := filter (\<lambda>p. um_key e2 (pdu_sn p) < window_size e) (rx_list e)\<rparr>"
    "sorted_wrt (pdu_ordered (um_key e2)) (rx_list e2)"
    by (rule um_move_window [OF ok x n e2])
  have list: "rx_list e2 = filter (\<lambda>p. um_key e2 (pdu_sn p) < window_size e) (rx_list e)"
    by (subst move(1)) simp
  have flds: "sn_modulus e2 = sn_modulus e" "window_size e2 = window_size e"
      "rx_next_highest e2 = (x + 1) mod sn_modulus e" "sn_field_length e2 = sn_field_length e"
      "rx_timer_trigger e2 = rx_timer_trigger e"
    by (subst move(1), simp)+
  have "seg_block (um_block e2 s)" for s
  proof -
    have "um_block e2 s = (if um_key e2 s < window_size e then um_block e s else [])"
      unfolding list filter_filter by (auto intro!: filter_cong simp: filter_empty_conv)
    then show ?thesis using ok by (auto simp: um_rx_list_ok_def)
  qed
  moreover have "\<forall>p \<in> set (rx_list e2). 0 \<le> pdu_sn p \<and> pdu_sn p < sn_modulus e
      \<and> um_key e2 (pdu_sn p) < window_size e \<and> um_pdu_ok p"
    unfolding list using ok by (auto simp: um_rx_list_ok_def)
  moreover have "um_cfg e2" "0 < sn_modulus e" "0 \<le> rx_timer_trigger e" "rx_timer_trigger e < sn_modulus e"
    using ok by (auto simp: um_rx_list_ok_def um_cfg_def flds)
  moreover have "um_cfg (e2\<lparr>rx_next_reassembly := sn\<rparr>)" using \<open>um_cfg e2\<close> by (simp add: um_cfg_def)
  ultimately show ?thesis
    using move(2) sn unfolding um_rx_list_ok_def by (simp add: flds)
qed

section \<open>Reception actions\<close>

lemma um_set_reassembly:
  assumes "um_rx_list_ok n e" "0 \<le> sn" "sn < sn_modulus e" "um_key e sn \<le> window_size e"
  shows "um_rx_list_ok n (e\<lparr>rx_next_reassembly := sn\<rparr>)"
  using assms by (simp add: um_rx_list_ok_def um_cfg_def)

text \<open>What a receive operation does not touch, and what it may append to the trace of calls.\<close>

definition um_rx_frame :: "nr_rlc_entity_um \<Rightarrow> nr_rlc_entity_um \<Rightarrow> bool" where
  "um_rx_frame e e' \<longleftrightarrow> tx_list e' = tx_list e \<and> tx_end e' = tx_end e \<and> tx_size e' = tx_size e
     \<and> tx_next e' = tx_next e \<and> tx_maxsize e' = tx_maxsize e \<and> rx_maxsize e' = rx_maxsize e
     \<and> sn_field_length e' = sn_field_length e \<and> sn_modulus e' = sn_modulus e \<and> window_size e' = window_size e
     \<and> mem (common e') = mem (common e) \<and> bstatus (common e') = bstatus (common e)
     \<and> txsdu_avg_time_to_tx (common e') = txsdu_avg_time_to_tx (common e)
     \<and> avg_time_is_on (common e') = avg_time_is_on (common e)
     \<and> (\<exists>sdus. calls (common e') = calls (common e) @ map Deliver_sdu sdus \<and> length sdus \<le> 1)"

lemma um_rx_frame_refl [simp]: "um_rx_frame e e"
  by (auto simp: um_rx_frame_def intro: exI [of _ "[]"])

lemma um_deliver_frame:
  assumes "calls c = (if bad then calls (common e) else calls (common e) @ [Deliver_sdu sdu])"
    "\<exists>st. c = (common e)\<lparr>calls := calls c, stats := st\<rparr>"
  shows "um_rx_frame e (e\<lparr>common := c, rx_list := l, rx_size := k, rx_next_reassembly := sn\<rparr>)"
    and "um_rx_frame e (e\<lparr>common := c, rx_list := l, rx_size := k\<rparr>)"
proof -
  obtain st where c: "c = (common e)\<lparr>calls := calls c, stats := st\<rparr>" using assms(2) by blast
  have "mem c = mem (common e)" "bstatus c = bstatus (common e)" "avg_time_is_on c = avg_time_is_on (common e)"
      "txsdu_avg_time_to_tx c = txsdu_avg_time_to_tx (common e)"
    by (subst c, simp)+
  moreover have "\<exists>sdus. calls c = calls (common e) @ map Deliver_sdu sdus \<and> length sdus \<le> 1"
    using assms(1) by (cases bad) (auto intro: exI [of _ "[]"] exI [of _ "[sdu]"])
  ultimately show "um_rx_frame e (e\<lparr>common := c, rx_list := l, rx_size := k, rx_next_reassembly := sn\<rparr>)"
    and "um_rx_frame e (e\<lparr>common := c, rx_list := l, rx_size := k\<rparr>)"
    by (auto simp: um_rx_frame_def)
qed

lemma um_sdu_actions_full:
  assumes ok: "um_rx_list_ok (window_size e) e" and full: "um_sdu_full e x"
  obtains e' where "um_sdu_actions e x = Inr e'" "um_rx_list_ok (window_size e') e'"
    "um_rx_leak e' = um_rx_leak e" "um_rx_frame e e'"
proof -
  have sorted: "sorted_wrt (pdu_ordered (um_key e)) (rx_list e)" and blk: "seg_block (um_block e x)"
    using ok by (auto simp: um_rx_list_ok_def)
  obtain sdu bad c where re: "um_reassemble_and_deliver e x = Inr (e\<lparr>common := c, rx_list := map (um_clear x) (rx_list e),
       rx_size := rx_size e - (\<Sum>p\<leftarrow>um_block e x. pdu_size p)\<rparr>)" (is "_ = Inr ?e1")
    and c: "calls c = (if bad then calls (common e) else calls (common e) @ [Deliver_sdu sdu])"
    "\<exists>st. c = (common e)\<lparr>calls := calls c, stats := st\<rparr>"
    by (rule um_reassemble_eq [OF sorted full blk])
  note ok1 = um_reassemble_ok [OF ok full refl, of c]
  show ?thesis
  proof (cases "x = rx_next_reassembly e")
    case False
    then show ?thesis
      using that [of ?e1] full re ok1(1,3) um_deliver_frame(2) [OF c] by (simp add: um_sdu_actions_def)
  next
    case True
    have "0 \<le> rx_next_reassembly ?e1" "rx_next_reassembly ?e1 < sn_modulus ?e1"
        "um_key ?e1 (rx_next_reassembly ?e1) \<le> window_size ?e1"
      using ok1(1) unfolding um_rx_list_ok_def by blast+
    then obtain sn where sn: "um_skip_delivered ?e1 (rx_next_reassembly ?e1) = Inr sn" "0 \<le> sn" "sn < sn_modulus ?e1"
        "um_key ?e1 sn \<le> window_size ?e1"
      using um_skip_ok [of ?e1 "rx_next_reassembly ?e1"] ok1(1) by auto
    have "um_rx_list_ok (window_size e) (?e1\<lparr>rx_next_reassembly := sn\<rparr>)"
      using um_set_reassembly [OF ok1(1) sn(2-4)] .
    then show ?thesis
      using that [of "?e1\<lparr>rx_next_reassembly := sn\<rparr>"] full re sn(1) True ok1(3) um_deliver_frame(1) [OF c]
      by (simp add: um_sdu_actions_def um_rx_leak_def)
  qed
qed

lemma um_sdu_actions_ok:
  assumes ok: "um_rx_list_ok (max (window_size e) (um_key e x + 1)) e" and x: "0 \<le> x" "x < sn_modulus e"
    and above: "window_size e \<le> um_key e x \<Longrightarrow> \<not> um_sdu_full e x"
  obtains e' where "um_sdu_actions e x = Inr e'" "um_rx_list_ok (window_size e') e'"
    "um_rx_leak e' = um_rx_leak e" "um_rx_frame e e'"
proof (cases "window_size e \<le> um_key e x")
  case False
  then have max: "max (window_size e) (um_key e x + 1) = window_size e" by simp
  have cmp: "\<not> um_sn_compare_rx e x (rx_next_highest e) \<ge> 0"
    using False ok x by (auto simp: um_rx_list_ok_def um_sn_compare_rx_eq)
  show ?thesis
  proof (cases "um_sdu_full e x")
    case True
    then show ?thesis using um_sdu_actions_full [OF ok [unfolded max]] that by metis
  next
    case nf: False
    show ?thesis using that [of e] nf cmp ok max by (simp add: um_sdu_actions_def)
  qed
next
  case True
  have nf: "\<not> um_sdu_full e x" using above True .
  have cfg: "um_cfg e" using ok by (simp add: um_rx_list_ok_def)
  have cmp: "um_sn_compare_rx e x (rx_next_highest e) \<ge> 0"
    using True ok x by (auto simp: um_rx_list_ok_def um_sn_compare_rx_eq)
  let ?n = "max (window_size e) (um_key e x + 1)"
  have n: "?n \<le> um_key e x + 1" using True by simp
  define e2 where e2: "e2 = um_discard_out_of_window (e\<lparr>rx_next_highest := (x + 1) smod sn_modulus e\<rparr>) (rx_list e)"
  obtain st where move: "e2 = e\<lparr>rx_next_highest := (x + 1) mod sn_modulus e, common := (common e)\<lparr>stats := st\<rparr>,
       rx_size := rx_size e2, rx_list := filter (\<lambda>p. um_key e2 (pdu_sn p) < window_size e) (rx_list e)\<rparr>"
    "um_rx_leak e2 = um_rx_leak e"
    by (rule um_move_window [OF ok x True n e2])
  note okm = um_move_window_ok [OF ok x True n e2]
  have frame: "um_rx_frame e (e2\<lparr>rx_next_reassembly := sn\<rparr>)" for sn
    by (subst move(1)) (auto simp: um_rx_frame_def intro: exI [of _ "[]"])
  have flds: "sn_modulus e2 = sn_modulus e" "window_size e2 = window_size e" "rx_next_reassembly e2 = rx_next_reassembly e"
      "rx_next_highest e2 = (x + 1) mod sn_modulus e"
    by (subst move(1), simp)+
  have cfg2: "um_cfg e2" using cfg by (subst move(1)) (simp add: um_cfg_def)
  have rnr: "0 \<le> rx_next_reassembly e" "rx_next_reassembly e < sn_modulus e" using ok by (auto simp: um_rx_list_ok_def)
  have cmp2: "um_sn_compare_rx e2 (rx_next_reassembly e2) (rx_next_highest e2)
      = um_key e2 (rx_next_reassembly e) - window_size e"
    using um_key_highest [OF cfg2] rnr cfg by (subst um_sn_compare_rx_eq [OF cfg2]) (simp_all add: flds)
  have act: "um_sdu_actions e x = (if um_key e2 (rx_next_reassembly e) \<ge> window_size e
      then res_bind (um_skip_delivered e2 ((rx_next_highest e2 - window_size e2 + sn_modulus e2) smod sn_modulus e2))
             (\<lambda>sn. Inr (e2\<lparr>rx_next_reassembly := sn\<rparr>)) else Inr e2)"
    using nf cmp cmp2 by (simp add: um_sdu_actions_def Let_def e2 [symmetric])
  show ?thesis
  proof (cases "um_key e2 (rx_next_reassembly e) \<ge> window_size e")
    case False
    then have "um_rx_list_ok (window_size e) (e2\<lparr>rx_next_reassembly := rx_next_reassembly e\<rparr>)"
      using okm [OF rnr] by simp
    moreover have "e2\<lparr>rx_next_reassembly := rx_next_reassembly e\<rparr> = e2" by (simp add: flds(3) [symmetric])
    ultimately show ?thesis
      using that [of e2] act False move(2) frame [of "rx_next_reassembly e"] by (metis flds(2))
  next
    case out: True
    let ?b = "(rx_next_highest e2 - window_size e2 + sn_modulus e2) smod sn_modulus e2"
    have M: "0 < sn_modulus e" and W: "window_size e < sn_modulus e" using cfg by (auto simp: um_cfg_def)
    have "0 \<le> rx_next_highest e2 - window_size e2 + sn_modulus e2"
      unfolding flds using W pos_mod_sign [OF M, of "x + 1"] by linarith
    then have b: "?b = (rx_next_highest e2 - window_size e2) mod sn_modulus e2" using M by (simp add: flds)
    have b0: "um_key e2 ?b = 0" "0 \<le> ?b" "?b < sn_modulus e2"
      unfolding b using M by (simp_all only: sn_key_base_mod flds pos_mod_sign pos_mod_bound)
    have okb: "um_rx_list_ok (window_size e2) (e2\<lparr>rx_next_reassembly := ?b\<rparr>)"
      using okm [of ?b] b0 um_cfg_pos(2) [OF cfg] by (simp add: flds)
    define e3 where "e3 = e2\<lparr>rx_next_reassembly := ?b\<rparr>"
    have "um_skip_delivered e3 = um_skip_delivered e2"
      by (simp add: e3_def um_skip_delivered_def [abs_def] um_sdu_delivered_def)
    moreover obtain sn where sn: "um_skip_delivered e3 ?b = Inr sn" "0 \<le> sn" "sn < sn_modulus e3" "um_key e3 sn \<le> window_size e3"
    proof (rule um_skip_ok)
      show "um_rx_list_ok (window_size e3) e3" "0 \<le> ?b" "?b < sn_modulus e3"
        using okb b0 by (simp_all add: e3_def)
      show "um_key e3 ?b \<le> window_size e3" using b0(1) um_cfg_pos(2) [OF cfg2] by (simp add: e3_def)
    qed
    ultimately have "um_sdu_actions e x = Inr (e2\<lparr>rx_next_reassembly := sn\<rparr>)" using act out by simp
    moreover have "um_rx_list_ok (window_size e) (e2\<lparr>rx_next_reassembly := sn\<rparr>)"
      using okm [of sn] sn(2-4) by (simp add: e3_def flds)
    ultimately show ?thesis
      using that [of "e2\<lparr>rx_next_reassembly := sn\<rparr>"] move(2) frame [of sn] by (simp add: flds um_rx_leak_def)
  qed
qed

section \<open>The reassembly timer\<close>

lemma um_start_timer:
  assumes "um_rx_list_ok (window_size e) e" "um_key e (rx_next_reassembly e) < window_size e"
  shows "um_rx_inv (e\<lparr>t_reassembly_start := t, rx_timer_trigger := rx_next_highest e\<rparr>)"
  using assms by (simp add: um_rx_inv_def um_rx_list_ok_def um_cfg_def)

lemma um_next_reassembly:
  assumes "um_rx_list_ok n e"
  shows "(rx_next_reassembly e + 1) smod sn_modulus e = (rx_next_reassembly e + 1) mod sn_modulus e"
    "um_key e ((rx_next_reassembly e + 1) mod sn_modulus e) = um_key e (rx_next_reassembly e) + 1"
    "um_sn_compare_rx e (rx_next_highest e) ((rx_next_reassembly e + 1) mod sn_modulus e)
       = window_size e - (um_key e (rx_next_reassembly e) + 1)"
    "rx_next_highest e = (rx_next_reassembly e + 1) mod sn_modulus e \<Longrightarrow>
       um_key e (rx_next_reassembly e) + 1 = window_size e"
proof -
  have cfg: "um_cfg e" and r: "0 \<le> rx_next_reassembly e" "um_key e (rx_next_reassembly e) \<le> window_size e"
    and h: "0 \<le> rx_next_highest e" "rx_next_highest e < sn_modulus e"
    using assms by (auto simp: um_rx_list_ok_def)
  have M: "0 < sn_modulus e" "window_size e + 1 < sn_modulus e" using cfg by auto
  show "(rx_next_reassembly e + 1) smod sn_modulus e = (rx_next_reassembly e + 1) mod sn_modulus e"
    using r M by simp
  show suc: "um_key e ((rx_next_reassembly e + 1) mod sn_modulus e) = um_key e (rx_next_reassembly e) + 1"
    using r M by (intro sn_key_suc) linarith+
  show "um_sn_compare_rx e (rx_next_highest e) ((rx_next_reassembly e + 1) mod sn_modulus e)
       = window_size e - (um_key e (rx_next_reassembly e) + 1)"
    using um_sn_compare_rx_eq [OF cfg h(1) _ h] suc um_key_highest [OF cfg] M(1) by simp
  show "um_key e (rx_next_reassembly e) + 1 = window_size e"
    if "rx_next_highest e = (rx_next_reassembly e + 1) mod sn_modulus e"
    using suc um_key_highest [OF cfg] that by simp
qed

lemma um_timer_stop_inv:
  assumes ok: "um_rx_list_ok (window_size e) e"
  shows "um_rx_inv (um_timer_stop e)"
proof -
  have "um_sn_compare_rx e (rx_timer_trigger e) (rx_next_reassembly e)
        = um_key e (rx_timer_trigger e) - um_key e (rx_next_reassembly e)"
    "um_sn_compare_rx e (rx_timer_trigger e) (rx_next_highest e) = um_key e (rx_timer_trigger e) - window_size e"
    using ok by (simp_all add: um_rx_list_ok_def um_sn_compare_rx_eq)
  moreover have "um_rx_list_ok (window_size e) (e\<lparr>t_reassembly_start := 0\<rparr>)"
    using ok by (simp add: um_rx_list_ok_def um_cfg_def)
  ultimately show ?thesis using ok by (auto simp: um_timer_stop_def um_rx_inv_def)
qed

lemma um_timer_start_inv: "um_rx_inv e \<Longrightarrow> um_rx_inv (um_timer_start e)"
proof -
  assume inv: "um_rx_inv e"
  then have ok: "um_rx_list_ok (window_size e) e" by (simp add: um_rx_inv_def)
  note next_sn = um_next_reassembly [OF ok]
  show "um_rx_inv (um_timer_start e)"
  proof (cases "um_key e (rx_next_reassembly e) < window_size e")
    case True
    with inv um_start_timer [OF ok] show ?thesis by (simp add: um_timer_start_def)
  next
    case False
    with inv next_sn show ?thesis by (auto simp: um_timer_start_def)
  qed
qed

lemma um_timers_frame:
  "um_rx_frame e (um_timer_start (um_timer_stop f)) = um_rx_frame e f"
  "um_rx_leak (um_timer_start (um_timer_stop f)) = um_rx_leak f"
proof -
  have stop: "um_timer_stop f = f \<or> um_timer_stop f = f\<lparr>t_reassembly_start := 0\<rparr>"
    by (simp add: um_timer_stop_def)
  have start: "um_timer_start g = g \<or> um_timer_start g = g\<lparr>t_reassembly_start := t_current g, rx_timer_trigger := rx_next_highest g\<rparr>" for g
    by (simp add: um_timer_start_def)
  have frame: "um_rx_frame e (f\<lparr>t_reassembly_start := s\<rparr>) = um_rx_frame e f"
    "um_rx_frame e (f\<lparr>t_reassembly_start := s, rx_timer_trigger := t\<rparr>) = um_rx_frame e f" for s t
    by (simp_all add: um_rx_frame_def)
  show "um_rx_frame e (um_timer_start (um_timer_stop f)) = um_rx_frame e f"
    using stop start [of "um_timer_stop f"] frame by (elim disjE) simp_all
  show "um_rx_leak (um_timer_start (um_timer_stop f)) = um_rx_leak f"
    using stop start [of "um_timer_stop f"] by (elim disjE) (simp_all add: um_rx_leak_def)
qed

lemma um_reception_actions_ok:
  assumes "um_rx_list_ok (max (window_size e) (um_key e (pdu_sn p) + 1)) e" "0 \<le> pdu_sn p" "pdu_sn p < sn_modulus e"
    and "window_size e \<le> um_key e (pdu_sn p) \<Longrightarrow> \<not> um_sdu_full e (pdu_sn p)"
  obtains e' where "um_reception_actions e p = Inr e'" "um_rx_inv e'" "um_rx_leak e' = um_rx_leak e" "um_rx_frame e e'"
proof -
  obtain e1 where e1: "um_sdu_actions e (pdu_sn p) = Inr e1" "um_rx_list_ok (window_size e1) e1"
    "um_rx_leak e1 = um_rx_leak e" "um_rx_frame e e1"
    using um_sdu_actions_ok [OF assms] by metis
  have "um_rx_frame e (um_timer_start (um_timer_stop e1))"
    using e1(4) by (simp add: um_timers_frame)
  then show ?thesis
    using that [of "um_timer_start (um_timer_stop e1)"] e1 um_timers_frame(2) [of e1]
      um_timer_start_inv [OF um_timer_stop_inv [OF e1(2)]]
    by (simp add: um_reception_actions_def)
qed

section \<open>Receiving a PDU\<close>

lemma um_recv_segment_ok:
  assumes inv: "um_rx_inv e" and sn: "0 \<le> sn" "sn < sn_modulus e" and so: "0 \<le> so" "so = 0 \<Longrightarrow> \<not> is_last"
    and d: "0 \<le> d_byte d"
  obtains e' where "um_recv_segment e buf d sn so is_first is_last = Inr e'" "um_rx_inv e'"
    "um_rx_leak e' = um_rx_leak e" "um_rx_frame e e'"
proof -
  let ?n = "int (length buf) - d_byte d"
  have ok: "um_rx_list_ok (window_size e) e" using inv by (simp add: um_rx_inv_def)
  have disc: "um_rx_inv (um_discard_pdu e k)" "um_rx_leak (um_discard_pdu e k) = um_rx_leak e"
      "um_rx_frame e (um_discard_pdu e k)" for k
    using inv by (simp_all add: um_discard_pdu_def um_rx_inv_def um_rx_list_ok_def um_cfg_def um_rx_leak_def
        um_rx_frame_def exI [of _ "[]"])
  show ?thesis
  proof (cases "?n \<le> 0 \<or> rx_size e + ?n > rx_maxsize e \<or> um_sn_compare_rx e sn (rx_next_reassembly e) < 0")
    case True
    then have "um_recv_segment e buf d sn so is_first is_last = Inr (um_discard_pdu e (int (length buf)))"
      by (auto simp: um_recv_segment_def Let_def)
    with disc show ?thesis by (rule that [rotated])
  next
    case False
    define bytes where "bytes = take (nat ?n) (drop (nat (d_byte d)) buf)"
    have bytes: "c_slice buf (int (length buf) - ?n) ?n = Inr bytes" "int (length bytes) = ?n"
      using d False by (auto simp: c_slice_def bytes_def)
    define p where "p = nr_rlc_new_pdu sn so is_first is_last bytes"
    have p: "pdu_held p" "pdu_sn p = sn" "pdu_so p = so" "pdu_is_last p = is_last" "pdu_size p = ?n"
      using so bytes(2) False by (auto simp: p_def nr_rlc_new_pdu_def pdu_held_def)
    let ?e0 = "e\<lparr>rx_size := rx_size e + ?n\<rparr>"
    let ?e1 = "?e0\<lparr>rx_list := nr_rlc_pdu_list_add (um_sn_compare_rx ?e0) (rx_list ?e0) p\<rparr>"
    have ok0: "um_rx_list_ok (window_size ?e0) ?e0" using ok by (simp add: um_rx_list_ok_def um_cfg_def)
    note ins = um_insert [OF ok0, of p, unfolded p(2), OF p(1)]
    have "um_recv_segment e buf d sn so is_first is_last = um_reception_actions ?e1 p"
      using False bytes(1) by (simp add: um_recv_segment_def Let_def p_def)
    moreover have ok1: "um_rx_list_ok (max (window_size ?e1) (um_key ?e1 (pdu_sn p) + 1)) ?e1"
      using ins(1) sn by (simp add: p(2))
    moreover have "\<not> um_sdu_full ?e1 (pdu_sn p)" if "window_size ?e1 \<le> um_key ?e1 (pdu_sn p)"
    proof -
      have "um_block e sn = []"
        using ok that by (fastforce simp: um_rx_list_ok_def filter_empty_conv p(2))
      then have "um_block ?e1 sn = [p]" using ins(2) [of sn] sn by simp
      moreover have "\<not> full_scan (-1) [p]" using so p by (auto simp: Let_def)
      ultimately show ?thesis using ok1 um_sdu_full_iff [of "um_key ?e1" ?e1 sn] by (simp add: um_rx_list_ok_def p(2))
    qed
    moreover have "um_rx_leak ?e1 = um_rx_leak e" using ins(3) sn p(5) by (simp add: um_rx_leak_def)
    moreover have "um_rx_frame ?e1 f \<longleftrightarrow> um_rx_frame e f" for f by (simp add: um_rx_frame_def)
    ultimately show ?thesis
      using um_reception_actions_ok [of ?e1 p] sn that by (simp add: p(2)) metis
  qed
qed

text \<open>Every PDU, whatever its bytes, is processed without a fault and keeps the invariant.\<close>

lemma um_recv_pdu_ok:
  assumes inv: "um_rx_inv e"
  obtains e' where "nr_rlc_entity_um_recv_pdu e buf = Inr e'" "um_rx_inv e'"
    "um_rx_leak e' = um_rx_leak e" "um_rx_frame e e'"
proof -
  let ?n = "int (length buf)"
  define e1 where "e1 = common_update (stats_update (\<lambda>s. s\<lparr>rxpdu_pkts := rxpdu_pkts s + 1,
                rxpdu_bytes := rxpdu_bytes s + of_int ?n\<rparr>)) e"
  have inv1: "um_rx_inv e1" "um_rx_leak e1 = um_rx_leak e" "um_rx_frame e1 = um_rx_frame e"
    using inv by (auto simp: e1_def um_rx_inv_def um_rx_list_ok_def um_cfg_def um_rx_leak_def um_rx_frame_def)
  have cfg: "um_cfg e1" using inv1(1) by (simp add: um_rx_inv_def um_rx_list_ok_def)
  have len: "sn_field_length e1 \<le> 31" "0 \<le> sn_field_length e1" "2 ^ nat (sn_field_length e1) = sn_modulus e1"
    using cfg by (auto simp: um_cfg_def)
  define good where "good r \<longleftrightarrow> (\<exists>e'. r = Inr e' \<and> um_rx_inv e' \<and> um_rx_leak e' = um_rx_leak e \<and> um_rx_frame e e')"
    for r :: "nr_rlc_entity_um res"
  have disc: "good (Inr (um_discard_pdu e1 ?n))"
    using inv1(1,2) by (auto simp: good_def um_discard_pdu_def um_rx_inv_def um_rx_list_ok_def um_cfg_def
        um_rx_leak_def e1_def um_rx_frame_def intro: exI [of _ "[]"])
  have seg: "good (um_recv_segment e1 buf d sn so f l)"
    if "0 \<le> sn" "sn < sn_modulus e1" "0 \<le> so" "so = 0 \<Longrightarrow> \<not> l" "0 \<le> d_byte d" for d sn so f l
    using um_recv_segment_ok [OF inv1(1) that] inv1(2,3) unfolding good_def by metis
  have whole: "good (res_bind (c_slice buf 1 (?n - 1)) (\<lambda>sdu.
                  let e = common_update (calls_update (\<lambda>c. c @ [Deliver_sdu sdu])) e1 in
                  Inr (common_update (stats_update (\<lambda>s. s\<lparr>txsdu_pkts := txsdu_pkts s + 1,
                         txsdu_bytes := txsdu_bytes s + of_int (?n - 1)\<rparr>)) e)))" if "\<not> ?n < 2"
    using inv1(1,2) that by (auto simp: good_def c_slice_def um_rx_inv_def um_rx_list_ok_def um_cfg_def
        um_rx_leak_def e1_def um_rx_frame_def intro: exI [of _ "[_]"])
  have rest: "good (res_bind (nr_rlc_pdu_decoder_get_bits (dec_at buf q) (sn_field_length e1)) (\<lambda>(sn, d).
            if d_error d then Inr (um_discard_pdu e1 ?n)
            else if \<not> f
            then res_bind (nr_rlc_pdu_decoder_get_bits d 16) (\<lambda>(so, d).
                 if d_error d then Inr (um_discard_pdu e1 ?n)
                 else if so = 0 then Inr (um_discard_pdu e1 ?n)
                 else um_recv_segment e1 buf d sn so f l)
            else um_recv_segment e1 buf d sn 0 f l))" if "\<not> (f \<and> l)" "q \<le> 8 * length buf" for f l q
  proof (rule get_bits_cases [OF that(2) len(1)])
    fix v
    assume v: "nr_rlc_pdu_decoder_get_bits (dec_at buf q) (sn_field_length e1)
        = Inr (v, dec_at buf (q + nat (sn_field_length e1)))" "q + nat (sn_field_length e1) \<le> 8 * length buf"
      "0 \<le> v" "v < 2 ^ nat (sn_field_length e1)"
    show ?thesis
    proof (cases f)
      case True
      then show ?thesis using v seg len(3) that(1) by simp
    next
      case False
      show ?thesis
        by (rule get_bits_cases [OF v(2), of 16]) (use False v seg len(3) disc in auto)
    qed
  qed (use disc in simp)
  note recv = nr_rlc_entity_um_recv_pdu_def [of e buf, unfolded Let_def, folded e1_def, unfolded decoder_init_at]
  have "good (nr_rlc_entity_um_recv_pdu e buf)"
  proof (rule get_bits_cases [of 0 buf 2])
    fix si
    assume si: "nr_rlc_pdu_decoder_get_bits (dec_at buf 0) 2 = Inr (si, dec_at buf (0 + nat 2))" "0 + nat 2 \<le> 8 * length buf"
    let ?f = "si AND 2 = 0" and ?l = "si AND 1 = 0"
    show ?thesis
    proof (cases "?f \<and> ?l")
      case True
      then show ?thesis unfolding recv using si(1) whole [unfolded Let_def] disc by simp
    next
      case False
      show ?thesis
      proof (cases "sn_field_length e1 = 12")
        case True
        show ?thesis
          by (rule get_bits_cases [OF si(2), of 2])
            (use True False si(1) disc rest [of ?f ?l] in \<open>auto simp: recv\<close>)
      next
        case nl: False
        then show ?thesis
          using False si disc rest [of ?f ?l "0 + nat 2"] by (auto simp: recv)
      qed
    qed
  qed (use disc in \<open>simp_all add: recv\<close>)
  then show ?thesis using that unfolding good_def by metis
qed

section \<open>Expiry of the reassembly timer\<close>

lemma um_discard_before_eq:
  "\<exists>st. um_discard_before e l
     = e\<lparr>common := (common e)\<lparr>stats := st\<rparr>,
         rx_list := dropWhile (\<lambda>p. um_sn_compare_rx e (pdu_sn p) (rx_next_reassembly e) < 0) l\<rparr>"
proof (induction l arbitrary: e)
  case Nil
  show ?case by (rule exI [of _ "stats (common e)"]) simp
next
  case (Cons p l)
  show ?case
  proof (cases "um_sn_compare_rx e (pdu_sn p) (rx_next_reassembly e) < 0")
    case True
    let ?e = "common_update (stats_update (\<lambda>s. s\<lparr>rxpdu_dd_pkts := rxpdu_dd_pkts s + 1,
                rxpdu_dd_bytes := rxpdu_dd_bytes s + of_int (pdu_size p)\<rparr>)) e"
    have cmp: "um_sn_compare_rx ?e = um_sn_compare_rx e"
      by (intro ext) (simp add: um_sn_compare_rx_def um_modulus_rx_def Let_def)
    from Cons [of ?e] obtain st where "um_discard_before ?e l = ?e\<lparr>common := (common ?e)\<lparr>stats := st\<rparr>,
         rx_list := dropWhile (\<lambda>p. um_sn_compare_rx e (pdu_sn p) (rx_next_reassembly e) < 0) l\<rparr>"
      unfolding cmp by auto
    with True show ?thesis by (intro exI [of _ st]) simp
  next
    case False
    then show ?thesis by (intro exI [of _ "stats (common e)"]) simp
  qed
qed

lemma um_discard_before_ok:
  assumes ok: "um_rx_list_ok (window_size e) e" and e': "e' = um_discard_before e (rx_list e)"
  shows "um_rx_list_ok (window_size e') e'" "um_rx_frame e e'"
    "um_rx_leak e' = um_rx_leak e
       + (\<Sum>p\<leftarrow>filter (\<lambda>p. um_key e (pdu_sn p) < um_key e (rx_next_reassembly e)) (rx_list e). pdu_size p)"
    "rx_next_reassembly e' = rx_next_reassembly e" "rx_next_highest e' = rx_next_highest e" "t_current e' = t_current e"
    "t_reassembly_start e' = t_reassembly_start e"
proof -
  let ?low = "\<lambda>p. um_key e (pdu_sn p) < um_key e (rx_next_reassembly e)"
  have sorted: "sorted_wrt (pdu_ordered (um_key e)) (rx_list e)" using ok by (simp add: um_rx_list_ok_def)
  have pre: "sorted_wrt (\<lambda>p q. ?low q \<longrightarrow> ?low p) (rx_list e)"
    using sorted by (rule sorted_wrt_mono_rel [rotated]) (auto simp: pdu_ordered_def)
  have "dropWhile (\<lambda>p. um_sn_compare_rx e (pdu_sn p) (rx_next_reassembly e) < 0) (rx_list e) = dropWhile ?low (rx_list e)"
    using ok by (intro dropWhile_cong) (auto simp: um_rx_list_ok_def um_sn_compare_rx_eq)
  then obtain st where eq: "e' = e\<lparr>common := (common e)\<lparr>stats := st\<rparr>, rx_list := filter (\<lambda>p. \<not> ?low p) (rx_list e)\<rparr>"
    using um_discard_before_eq [of e "rx_list e"] e' by (auto simp: dropWhile_eq_filter [OF pre])
  have "seg_block (um_block e' s)" for s
  proof -
    have "um_block e' s = (if um_key e s < um_key e (rx_next_reassembly e) then [] else um_block e s)"
      unfolding eq by (auto intro!: filter_cong simp: filter_empty_conv)
    then show ?thesis using ok by (auto simp: um_rx_list_ok_def)
  qed
  then show "um_rx_list_ok (window_size e') e'"
    using ok sorted_wrt_filter [OF sorted, of "\<lambda>p. \<not> ?low p"] unfolding um_rx_list_ok_def
    by (auto simp: eq um_cfg_def)
  show "um_rx_leak e' = um_rx_leak e + (\<Sum>p\<leftarrow>filter ?low (rx_list e). pdu_size p)"
    using sum_list_filter_split [of pdu_size ?low "rx_list e"] by (simp add: eq um_rx_leak_def)
  show "um_rx_frame e e'" by (simp add: eq um_rx_frame_def exI [of _ "[]"])
  show "rx_next_reassembly e' = rx_next_reassembly e" "rx_next_highest e' = rx_next_highest e"
    "t_current e' = t_current e" "t_reassembly_start e' = t_reassembly_start e"
    by (simp_all add: eq)
qed

lemma um_rx_list_timer [simp]:
  "um_rx_list_ok n (e\<lparr>t_reassembly_start := s\<rparr>) = um_rx_list_ok n e"
  "um_rx_list_ok n (e\<lparr>t_current := s\<rparr>) = um_rx_list_ok n e"
  "um_rx_inv (e\<lparr>t_current := s\<rparr>) = um_rx_inv e"
  "um_rx_leak (e\<lparr>t_current := s\<rparr>) = um_rx_leak e"
  "um_rx_frame (e\<lparr>t_current := s\<rparr>) = um_rx_frame e"
  by (simp_all add: um_rx_list_ok_def um_cfg_def um_rx_inv_def um_rx_leak_def um_rx_frame_def [abs_def])

definition um_expired :: "nr_rlc_entity_um \<Rightarrow> u64 \<Rightarrow> bool" where
  "um_expired e now \<longleftrightarrow> t_reassembly_start e \<noteq> 0 \<and> t_reassembly_start e + of_int (t_reassembly e) < now"

lemma um_set_time_ok:
  assumes inv: "um_rx_inv e"
  obtains e' where "nr_rlc_entity_um_set_time e now = Inr e'" "um_rx_inv e'" "um_rx_frame e e'"
    "um_rx_leak e' = um_rx_leak e + (if um_expired e now
       then \<Sum>p\<leftarrow>filter (\<lambda>p. um_key e (pdu_sn p) < um_key e (rx_next_reassembly e')) (rx_list e). pdu_size p else 0)"
proof (cases "um_expired e now")
  case False
  then have "nr_rlc_entity_um_set_time e now = Inr (e\<lparr>t_current := now\<rparr>)"
    by (auto simp: nr_rlc_entity_um_set_time_def um_check_t_reassembly_def um_expired_def not_less)
  moreover have "um_rx_frame e (e\<lparr>t_current := now\<rparr>)" by (simp add: um_rx_frame_def exI [of _ "[]"])
  ultimately show ?thesis using that [of "e\<lparr>t_current := now\<rparr>"] inv False by simp
next
  case True
  let ?e1 = "e\<lparr>t_current := now, t_reassembly_start := 0\<rparr>"
  have ok: "um_rx_list_ok (window_size e) e" and trig: "um_key e (rx_timer_trigger e) \<le> window_size e"
      "0 \<le> rx_timer_trigger e" "rx_timer_trigger e < sn_modulus e"
    using inv True by (auto simp: um_rx_inv_def um_rx_list_ok_def um_expired_def)
  have run: "t_reassembly_start e \<noteq> 0" "\<not> now \<le> t_reassembly_start e + of_int (t_reassembly e)"
    using True by (auto simp: um_expired_def)
  obtain sn where sn: "um_skip_delivered ?e1 (rx_timer_trigger ?e1) = Inr sn" "0 \<le> sn" "sn < sn_modulus ?e1"
      "um_key ?e1 sn \<le> window_size ?e1"
    using um_skip_ok [of ?e1 "rx_timer_trigger ?e1"] ok trig by auto
  define e2 where "e2 = ?e1\<lparr>rx_next_reassembly := sn\<rparr>"
  have ok2: "um_rx_list_ok (window_size e2) e2"
    using um_set_reassembly [of "window_size e" ?e1 sn] ok sn by (simp add: e2_def)
  define e3 where "e3 = um_discard_before e2 (rx_list e2)"
  note e3 = um_discard_before_ok [OF ok2 e3_def]
  have frame: "um_rx_frame e e3" using e3(2) by (simp add: e2_def um_rx_frame_def)
  have leak: "um_rx_leak e3 = um_rx_leak e
      + (\<Sum>p\<leftarrow>filter (\<lambda>p. um_key e (pdu_sn p) < um_key e (rx_next_reassembly e3)) (rx_list e). pdu_size p)"
    using e3(3,4) by (simp add: e2_def um_rx_leak_def)
  let ?again = "um_sn_compare_rx e3 (rx_next_highest e3) ((rx_next_reassembly e3 + 1) smod sn_modulus e3) > 0
                \<or> (rx_next_highest e3 = rx_next_reassembly e3 + 1
                   \<and> um_sdu_has_missing_bytes e3 (rx_next_reassembly e3))"
  let ?e4 = "e3\<lparr>t_reassembly_start := t_current e3, rx_timer_trigger := rx_next_highest e3\<rparr>"
  have "nr_rlc_entity_um_set_time e now = Inr (if ?again then ?e4 else e3)"
    unfolding nr_rlc_entity_um_set_time_def um_check_t_reassembly_def
    using run sn(1) by (simp add: Let_def e3_def e2_def)
  moreover have "um_rx_inv (if ?again then ?e4 else e3)"
  proof (cases ?again)
    case True
    note n = um_next_reassembly [OF e3(1)]
    have "rx_next_highest e3 < sn_modulus e3" "0 \<le> rx_next_highest e3" using e3(1) by (auto simp: um_rx_list_ok_def)
    then have "um_key e3 (rx_next_reassembly e3) < window_size e3" using True n(1,3) n(4) by auto
    with True um_start_timer [OF e3(1)] show ?thesis by simp
  next
    case False
    have "t_reassembly_start e3 = 0" using e3(7) by (simp add: e2_def)
    then have "um_rx_inv e3" using e3(1) by (simp add: um_rx_inv_def)
    then show ?thesis unfolding if_not_P [OF False] .
  qed
  moreover have "um_rx_frame e (if ?again then ?e4 else e3)" using frame by (simp add: um_rx_frame_def)
  ultimately show ?thesis
    using that [of "if ?again then ?e4 else e3"] leak True by (simp add: um_rx_leak_def)
qed

section \<open>New entities\<close>

lemma new_um_ok:
  assumes "sn_len = 6 \<or> sn_len = 12"
  obtains e where "new_nr_rlc_entity_um rx_max tx_max t_reass sn_len = Inr e" "um_rx_inv e" "um_rx_leak e = 0"
    "calls (common e) = []" "sdus (mem (common e)) = Map.empty" "tx_list e = []" "tx_end e = None" "tx_size e = 0"
    "bs_tx_size (bstatus (common e)) = 0" "tx_maxsize e = tx_max" "rx_maxsize e = rx_max" "sn_field_length e = sn_len"
    "time_average_wf (txsdu_avg_time_to_tx (common e))" "tx_next e = 0" "rx_next_reassembly e = 0"
    "rx_next_highest e = 0" "rx_list e = []" "rx_size e = 0" "t_reassembly_start e = 0"
proof -
  obtain c where c: "new_common NR_RLC_UM = Inr c" "sdus (mem c) = Map.empty" "calls c = []"
      "bstatus c = \<lparr>bs_status_size = 0, bs_tx_size = 0, bs_retx_size = 0\<rparr>"
      "time_average_wf (txsdu_avg_time_to_tx c)"
    using new_common_ok [of NR_RLC_UM] by blast
  have div: "(64 :: int) sdiv 2 = 32" "(4096 :: int) sdiv 2 = 2048" by (simp_all add: signed_divide_int_def)
  have "push_bit 6 1 = (64 :: int)" "push_bit 12 1 = (4096 :: int)" by (simp_all add: push_bit_eq_mult)
  then show ?thesis
    using that c assms div
    by (auto simp: new_nr_rlc_entity_um_def um_rx_inv_def um_rx_list_ok_def um_cfg_def um_rx_leak_def sn_key_def)
qed

section \<open>Sequences of receive events\<close>

datatype um_rx_event = Rx_pdu "byte list" | Rx_time u64

fun um_rx_event_step :: "um_rx_event \<Rightarrow> nr_rlc_entity_um \<Rightarrow> nr_rlc_entity_um res" where
  "um_rx_event_step (Rx_pdu buf) e = nr_rlc_entity_um_recv_pdu e buf"
| "um_rx_event_step (Rx_time now) e = nr_rlc_entity_um_set_time e now"

fun um_rx_run :: "um_rx_event list \<Rightarrow> nr_rlc_entity_um \<Rightarrow> nr_rlc_entity_um res" where
  "um_rx_run [] e = Inr e"
| "um_rx_run (ev # evs) e = res_bind (um_rx_event_step ev e) (um_rx_run evs)"

lemma um_rx_event_ok:
  assumes "um_rx_inv e"
  obtains e' where "um_rx_event_step ev e = Inr e'" "um_rx_inv e'" "um_rx_frame e e'"
proof (cases ev)
  case (Rx_pdu buf)
  with um_recv_pdu_ok [OF assms, of buf] that show ?thesis by (metis um_rx_event_step.simps(1))
next
  case (Rx_time now)
  with um_set_time_ok [OF assms, of now] that show ?thesis by (metis um_rx_event_step.simps(2))
qed

lemma um_rx_run_ok:
  "um_rx_inv e \<Longrightarrow> \<exists>e'. um_rx_run evs e = Inr e' \<and> um_rx_inv e' \<and> tx_list e' = tx_list e
     \<and> mem (common e') = mem (common e) \<and> tx_size e' = tx_size e \<and> bstatus (common e') = bstatus (common e)"
proof (induction evs arbitrary: e)
  case Nil
  then show ?case by simp
next
  case (Cons ev evs)
  obtain e1 where e1: "um_rx_event_step ev e = Inr e1" "um_rx_inv e1" "um_rx_frame e e1"
    using um_rx_event_ok [OF Cons.prems] .
  with Cons.IH [OF e1(2)] show ?case by (auto simp: um_rx_frame_def)
qed

section \<open>Properties\<close>

text \<open>
  (C28) The unacknowledged-mode receiver is robust: starting from a new entity, any sequence of
  received byte strings and clock updates is processed to the end without a fault (no access
  outside a buffer, no dangling pointer, no loop that does not end, no exit), keeps the
  invariant of the reassembly window, and leaves the transmit side untouched.
\<close>

theorem um_receiver_robust:
  assumes "sn_len = 6 \<or> sn_len = 12"
  shows "\<exists>e e'. new_nr_rlc_entity_um rx_max tx_max t_reass sn_len = Inr e \<and> um_rx_run evs e = Inr e'
           \<and> um_rx_inv e' \<and> tx_list e' = [] \<and> mem (common e') = mem (common e)
           \<and> bstatus (common e') = bstatus (common e)"
proof -
  obtain e where e: "new_nr_rlc_entity_um rx_max tx_max t_reass sn_len = Inr e" "um_rx_inv e" "tx_list e = []"
    by (rule new_um_ok [OF assms])
  with um_rx_run_ok [OF e(2), of evs] show ?thesis by auto
qed

theorem um_receiver_robust_witness:
  "\<exists>e e'. new_nr_rlc_entity_um 1000 1000 35 6 = Inr e
     \<and> um_rx_run [Rx_pdu [], Rx_pdu [64], Rx_time 10, Rx_pdu [67, 1, 2], Rx_pdu [255, 0, 1, 9], Rx_time 99] e = Inr e'
     \<and> um_rx_inv e'"
  using um_receiver_robust [of 6 1000 1000 35
      "[Rx_pdu [], Rx_pdu [64], Rx_time 10, Rx_pdu [67, 1, 2], Rx_pdu [255, 0, 1, 9], Rx_time 99]"]
  by auto

text \<open>
  (C29) The receive-buffer accounting: receiving a PDU keeps the difference between \<open>rx_size\<close> and
  the bytes the list holds, but the expiry of the reassembly timer drops all segments below
  the new \<open>rx_next_reassembly\<close> without subtracting their bytes, so that the difference grows
  by exactly these bytes and is never given back.
\<close>

theorem um_rx_size_leak:
  assumes "um_rx_inv e"
  shows "(\<exists>e'. nr_rlc_entity_um_recv_pdu e buf = Inr e' \<and> um_rx_leak e' = um_rx_leak e)
     \<and> (\<exists>e'. nr_rlc_entity_um_set_time e now = Inr e'
          \<and> um_rx_leak e' = um_rx_leak e + (if um_expired e now
              then \<Sum>p\<leftarrow>filter (\<lambda>p. um_key e (pdu_sn p) < um_key e (rx_next_reassembly e')) (rx_list e). pdu_size p
              else 0))"
  using um_recv_pdu_ok [OF assms, of buf] um_set_time_ok [OF assms, of now] by metis

text \<open>
  An entity that holds 3 bytes of an incomplete SDU (number 0), with its timer running for
  numbers below 2: at the expiry the segment is gone and \<open>rx_size\<close> still counts its bytes.
\<close>

definition um_leak_example :: "nr_rlc_entity \<Rightarrow> nr_rlc_entity_um" where
  "um_leak_example c = \<lparr>common = c, t_reassembly = 35, sn_field_length = 6, sn_modulus = 64, window_size = 32,
     rx_next_highest = 2, rx_next_reassembly = 0, rx_timer_trigger = 2, tx_next = 0, t_current = 5,
     t_log_buffer_full = 0, sdu_rejected = 0, t_reassembly_start = 5,
     rx_list = [nr_rlc_new_pdu 0 0 True False [7, 8, 9]], rx_size = 3, rx_maxsize = 100, tx_list = [],
     tx_end = None, tx_size = 0, tx_maxsize = 100\<rparr>"

lemma um_leak_example_facts:
  "um_rx_inv (um_leak_example c)" "um_rx_leak (um_leak_example c) = 0" "um_expired (um_leak_example c) 100"
  "\<exists>e'. nr_rlc_entity_um_set_time (um_leak_example c) 100 = Inr e' \<and> rx_next_reassembly e' = 2 \<and> rx_list e' = []"
proof -
  show "um_rx_inv (um_leak_example c)"
    by (auto simp: um_rx_inv_def um_rx_list_ok_def um_cfg_def um_leak_example_def nr_rlc_new_pdu_def sn_key_def
        um_pdu_ok_def pdu_held_def seg_block_def)
  show "um_rx_leak (um_leak_example c) = 0" "um_expired (um_leak_example c) 100"
    by (simp_all add: um_rx_leak_def um_leak_example_def nr_rlc_new_pdu_def um_expired_def)
  have "um_skip_delivered (um_leak_example c\<lparr>t_current := 100, t_reassembly_start := 0\<rparr>) 2 = Inr 2"
    unfolding um_skip_delivered_def by (subst while_res_unfold)
      (simp add: um_sdu_delivered_def from_sn_def um_leak_example_def nr_rlc_new_pdu_def)
  then show "\<exists>e'. nr_rlc_entity_um_set_time (um_leak_example c) 100 = Inr e' \<and> rx_next_reassembly e' = 2 \<and> rx_list e' = []"
    by (simp add: nr_rlc_entity_um_set_time_def um_check_t_reassembly_def um_leak_example_def nr_rlc_new_pdu_def
        um_sn_compare_rx_def um_modulus_rx_def Let_def)
qed

theorem um_rx_size_leak_witness:
  "\<exists>c. new_common NR_RLC_UM = Inr c \<and> um_rx_leak (um_leak_example c) = 0
     \<and> (\<exists>e'. nr_rlc_entity_um_set_time (um_leak_example c) 100 = Inr e' \<and> rx_list e' = [] \<and> um_rx_leak e' = 3)"
proof -
  obtain c where c: "new_common NR_RLC_UM = Inr c" using new_common_ok by blast
  then show ?thesis
    using um_rx_size_leak [OF um_leak_example_facts(1) [of c], of "[]" 100] um_leak_example_facts [of c]
    by (auto simp: um_leak_example_def nr_rlc_new_pdu_def sn_key_def)
qed



end
