(* ===== verification/RLC_UM_Tx.thy ===== *)
theory RLC_UM_Tx
  imports RLC_UM_Rx
begin

text \<open>
  The transmitting side of the unacknowledged-mode entity: the PDUs it builds, the invariant
  of its queue (byte counts, buffer status, tail pointer, reference counts) and its
  refinement to a queue of SDUs of which the first may have been sent in part.
\<close>

section \<open>PDUs\<close>

text \<open>The fields of a header: segment information, sequence number, segment offset.\<close>

definition um_fields :: "int \<Rightarrow> bool \<Rightarrow> bool \<Rightarrow> int \<Rightarrow> int \<Rightarrow> (int \<times> int) list" where
  "um_fields len f l sn so =
     [(1 - of_bool f, 1), (1 - of_bool l, 1)]
     @ (if f \<and> l then [(0, 6)] else (if len = 12 then [(0, 2)] else []) @ [(sn, len)])
     @ (if \<not> f then [(so, 16)] else [])"

definition um_hdr :: "int \<Rightarrow> bool \<Rightarrow> bool \<Rightarrow> int" where
  "um_hdr len f l = 1 + (if \<not> (f \<and> l) \<and> len = 12 then 1 else 0) + (if f then 0 else 2)"

text \<open>\<open>hdr @ data\<close> is the PDU for these header values.\<close>

definition um_pdu_bytes :: "int \<Rightarrow> bool \<Rightarrow> bool \<Rightarrow> int \<Rightarrow> int \<Rightarrow> byte list \<Rightarrow> byte list \<Rightarrow> bool" where
  "um_pdu_bytes len f l sn so data pdu \<longleftrightarrow>
     (\<exists>hdr. pdu = hdr @ data \<and> int (length hdr) = um_hdr len f l \<and> buf_bits hdr = field_bits (um_fields len f l sn so))"

lemma um_compute_hdr: "um_compute_pdu_header_size e g = um_hdr (sn_field_length e) (seg_is_first g) (seg_is_last g)"
  by (simp add: um_compute_pdu_header_size_def um_hdr_def Let_def)

lemma um_hdr_bounds: "1 \<le> um_hdr len f l" "um_hdr len f l \<le> 4"
  by (simp_all add: um_hdr_def)

lemma um_fields_ok:
  assumes "len = 6 \<or> len = 12"
  shows "\<forall>(v, n) \<in> set (um_fields len f l sn so). n \<le> 31"
    and "length (field_bits (um_fields len f l sn so)) = 8 * nat (um_hdr len f l)"
  using assms by (auto simp: um_fields_def um_hdr_def)

lemma um_serialize_fields:
  assumes "sdu_read (mem (common e)) (seg_sdu g) = Inr s"
  shows "um_serialize_sdu e g buf =
     res_bind (put_fields (nr_rlc_pdu_encoder_init buf)
                 (um_fields (sn_field_length e) (seg_is_first g) (seg_is_last g) (sdu_sn s) (seg_so g))) (\<lambda>c.
     res_bind (c_slice (sdu_data s) (seg_so g) (seg_size g)) (\<lambda>bytes.
     res_bind (c_blit (e_buffer c) (e_byte c) bytes) (\<lambda>buf.
     Inr (e_byte c + seg_size g, buf))))"
  using assms by (simp add: um_serialize_sdu_def um_fields_def)

lemma um_serialize_ok:
  assumes cfg: "um_cfg e" and s: "sdus (mem (common e)) (seg_sdu g) = Some s" "seg_in_sdu s g"
      "sdu_size s = int (length (sdu_data s))"
    and fit: "um_compute_pdu_header_size e g + seg_size g \<le> int (length buf)"
  obtains pdu where "um_serialize_sdu e g buf = Inr (int (length pdu), pdu @ drop (length pdu) buf)"
    "um_pdu_bytes (sn_field_length e) (seg_is_first g) (seg_is_last g) (sdu_sn s) (seg_so g)
       (take (nat (seg_size g)) (drop (nat (seg_so g)) (sdu_data s))) pdu"
    "int (length pdu) = um_compute_pdu_header_size e g + seg_size g"
proof -
  let ?f = "seg_is_first g" and ?l = "seg_is_last g" and ?n = "sn_field_length e"
  let ?h = "um_hdr ?n ?f ?l"
  let ?data = "take (nat (seg_size g)) (drop (nat (seg_so g)) (sdu_data s))"
  have len: "?n = 6 \<or> ?n = 12" using cfg by (auto simp: um_cfg_def)
  have read: "sdu_read (mem (common e)) (seg_sdu g) = Inr s" using s(1) by (simp add: sdu_read_def)
  have h: "um_compute_pdu_header_size e g = ?h" by (rule um_compute_hdr)
  have "0 < seg_size g" using s(2) by (simp add: seg_in_sdu_def)
  then have "nat ?h \<le> length buf" using fit um_hdr_bounds(1) [of ?n ?f ?l] by (simp add: h)
  then obtain c hdr where c: "put_fields (nr_rlc_pdu_encoder_init buf) (um_fields ?n ?f ?l (sdu_sn s) (seg_so g)) = Inr c"
      "e_byte c = int (nat ?h)" "e_buffer c = hdr @ drop (nat ?h) buf" "length hdr = nat ?h"
      "buf_bits hdr = field_bits (um_fields ?n ?f ?l (sdu_sn s) (seg_so g))"
    using put_fields_bytes [OF um_fields_ok [OF len]] by metis
  have dl: "int (length ?data) = seg_size g" using s(2,3) by (auto simp: seg_in_sdu_def)
  have slice: "c_slice (sdu_data s) (seg_so g) (seg_size g) = Inr ?data"
    using s(2,3) by (simp add: c_slice_def seg_in_sdu_def)
  have "c_blit (hdr @ drop (nat ?h) buf) (int (nat ?h)) ?data = Inr (hdr @ ?data @ drop (nat ?h + length ?data) buf)"
    using fit \<open>nat ?h \<le> length buf\<close> c(4) dl um_hdr_bounds(1) [of ?n ?f ?l] by (simp add: c_blit_def h ac_simps)
  with c slice have "um_serialize_sdu e g buf = Inr (int (nat ?h) + seg_size g, hdr @ ?data @ drop (nat ?h + length ?data) buf)"
    by (simp add: um_serialize_fields [OF read])
  then show ?thesis
    using that [of "hdr @ ?data"] c(4,5) dl um_hdr_bounds(1) [of ?n ?f ?l]
    by (simp add: um_pdu_bytes_def h ac_simps)
qed

section \<open>Invariant\<close>

text \<open>
  \<open>d\<close> is what \<open>tx_size\<close> counts beyond the bytes queued. Only the first segment of the queue
  may be the rest of an SDU; all the others are whole SDUs.
\<close>

definition um_tx_inv :: "int \<Rightarrow> nr_rlc_entity_um \<Rightarrow> bool" where
  "um_tx_inv d e \<longleftrightarrow> um_cfg e \<and> refs_ok (mem (common e)) (tx_list e) \<and> tail_ok (tx_list e) (tx_end e)
     \<and> distinct (map seg_sdu (tx_list e)) \<and> (\<forall>g \<in> set (tx_list e). seg_is_last g)
     \<and> (\<forall>g \<in> set (tl (tx_list e)). seg_is_first g)
     \<and> tx_size e = (\<Sum>g\<leftarrow>tx_list e. seg_size g) + d
     \<and> bs_tx_size (bstatus (common e)) = (\<Sum>g\<leftarrow>tx_list e. um_compute_pdu_header_size e g + seg_size g)
     \<and> 0 \<le> tx_next e \<and> tx_next e < sn_modulus e \<and> time_average_wf (txsdu_avg_time_to_tx (common e))"

text \<open>The abstract queue: every SDU with the offset of its first byte not yet sent.\<close>

definition um_txq :: "nr_rlc_entity_um \<Rightarrow> (int \<times> byte list) list" where
  "um_txq e = map (\<lambda>g. (seg_so g, sdu_bytes (mem (common e)) g)) (tx_list e)"

text \<open>What the transmit operations do not touch.\<close>

definition um_tx_frame :: "nr_rlc_entity_um \<Rightarrow> nr_rlc_entity_um \<Rightarrow> bool" where
  "um_tx_frame e e' \<longleftrightarrow> sn_field_length e' = sn_field_length e \<and> sn_modulus e' = sn_modulus e
     \<and> window_size e' = window_size e \<and> rx_next_highest e' = rx_next_highest e
     \<and> rx_next_reassembly e' = rx_next_reassembly e \<and> rx_timer_trigger e' = rx_timer_trigger e
     \<and> t_reassembly_start e' = t_reassembly_start e \<and> rx_list e' = rx_list e \<and> rx_size e' = rx_size e
     \<and> rx_maxsize e' = rx_maxsize e \<and> tx_maxsize e' = tx_maxsize e \<and> calls (common e') = calls (common e)"

lemma um_tx_frame_inv:
  assumes "um_tx_frame e e'" "um_rx_inv e"
  shows "um_rx_inv e'" "um_rx_leak e' = um_rx_leak e"
  using assms by (auto simp: um_tx_frame_def um_rx_inv_def um_rx_list_ok_def um_cfg_def um_rx_leak_def)

section \<open>Sending a segment\<close>

lemma um_send_segment_ok:
  assumes cfg: "um_cfg e" and refs: "refs_ok (mem (common e)) (g # segs)"
    and s: "sdus (mem (common e)) (seg_sdu g) = Some s"
    and avg: "time_average_wf (txsdu_avg_time_to_tx (common e))"
    and fit: "um_compute_pdu_header_size e g + seg_size g \<le> int (length buf)"
  obtains pdu m t st where
    "um_send_segment now e g buf = Inr (int (length pdu), pdu @ drop (length pdu) buf,
       e\<lparr>tx_next := if \<not> seg_is_first g \<and> seg_is_last g then (tx_next e + 1) smod sn_modulus e else tx_next e,
         tx_size := tx_size e - seg_size g,
         common := (common e)\<lparr>stats := st, txsdu_avg_time_to_tx := t, mem := m\<rparr>\<rparr>)"
    "um_pdu_bytes (sn_field_length e) (seg_is_first g) (seg_is_last g) (sdu_sn s) (seg_so g)
       (take (nat (seg_size g)) (drop (nat (seg_so g)) (sdu_data s))) pdu"
    "int (length pdu) = um_compute_pdu_header_size e g + seg_size g"
    "time_average_wf t" "refs_ok m segs" "brk m = brk (mem (common e))"
    "\<forall>h \<in> set segs. sdu_bytes m h = sdu_bytes (mem (common e)) h"
proof -
  have seg: "seg_in_sdu s g" "sdu_size s = int (length (sdu_data s))"
    using refs_okD [OF refs, of g] s by auto
  let ?e1 = "if \<not> seg_is_first g \<and> seg_is_last g then e\<lparr>tx_next := (tx_next e + 1) smod sn_modulus e\<rparr> else e"
  have same: "um_serialize_sdu ?e1 g buf = um_serialize_sdu e g buf"
    by (simp add: um_serialize_sdu_def)
  obtain pdu where pdu: "um_serialize_sdu e g buf = Inr (int (length pdu), pdu @ drop (length pdu) buf)"
    "um_pdu_bytes (sn_field_length e) (seg_is_first g) (seg_is_last g) (sdu_sn s) (seg_so g)
       (take (nat (seg_size g)) (drop (nat (seg_so g)) (sdu_data s))) pdu"
    "int (length pdu) = um_compute_pdu_header_size e g + seg_size g"
    by (rule um_serialize_ok [OF cfg s seg fit])
  let ?c = "stats_update (\<lambda>s. s\<lparr>txpdu_pkts := txpdu_pkts s + 1,
                txpdu_bytes := txpdu_bytes s + of_int (int (length buf))\<rparr>) (common e)"
  obtain t where t: "account_waiting_time now s ?c = Inr (?c\<lparr>txsdu_avg_time_to_tx := t\<rparr>)" "time_average_wf t"
    using account_waiting_time_ok [of ?c now s] avg by auto
  obtain b m where m: "nr_rlc_free_sdu_segment (mem (common e)) g = Inr (b, m)" "refs_ok m segs"
      "brk m = brk (mem (common e))" "\<And>a. a \<noteq> seg_sdu g \<Longrightarrow> sdus m a = sdus (mem (common e)) a"
      "sdus m (seg_sdu g) = (if seg_sdu g \<in> seg_sdu ` set segs
                then map_option (\<lambda>s. s\<lparr>sdu_free_count := sdu_free_count s + 1\<rparr>) (sdus (mem (common e)) (seg_sdu g)) else None)"
    using refs_ok_free [OF refs] by auto
  have "sdu_bytes m h = sdu_bytes (mem (common e)) h" if "h \<in> set segs" for h
    using imageI [OF that, of seg_sdu] m(4) [of "seg_sdu h"] m(5) s
    by (cases "seg_sdu h = seg_sdu g") (auto simp: sdu_bytes_def)
  moreover have "um_send_segment now e g buf = Inr (int (length pdu), pdu @ drop (length pdu) buf,
       e\<lparr>tx_next := if \<not> seg_is_first g \<and> seg_is_last g then (tx_next e + 1) smod sn_modulus e else tx_next e,
         tx_size := tx_size e - seg_size g, common := (common e)\<lparr>stats := stats ?c, txsdu_avg_time_to_tx := t, mem := m\<rparr>\<rparr>)"
    using pdu(1) same t(1) m(1) s by (simp add: um_send_segment_def Let_def sdu_read_def)
  ultimately show ?thesis using that pdu(2,3) t(2) m(2,3) by blast
qed

section \<open>Generating a PDU\<close>

lemma um_tx_head:
  assumes "um_tx_inv d e" "tx_list e = g # l"
  obtains s where "sdus (mem (common e)) (seg_sdu g) = Some s" "sdu_bytes (mem (common e)) g = sdu_data s"
    "seg_in_sdu s g" "sdu_size s = int (length (sdu_data s))" "seg_is_last g"
    "seg_sdu g \<notin> seg_sdu ` set l" "refs_ok (mem (common e)) (g # l)"
  using refs_okD [of "mem (common e)" "tx_list e" g] assms that by (auto simp: um_tx_inv_def sdu_bytes_def)

lemma um_generate_nothing:
  assumes "case tx_list e of [] \<Rightarrow> True | g # _ \<Rightarrow> um_compute_pdu_header_size e g + 1 > int (length buf)"
  shows "nr_rlc_entity_um_generate_pdu now e buf = Inr (0, buf, e)"
  using assms by (auto simp: nr_rlc_entity_um_generate_pdu_def um_generate_tx_pdu_def split: list.splits)

text \<open>The state after the first segment has been taken off the queue and its SDU numbered.\<close>

definition um_popped :: "nr_rlc_entity_um \<Rightarrow> nr_rlc_sdu_segment \<Rightarrow> nr_rlc_sdu_segment list \<Rightarrow> nr_rlc_sdu \<Rightarrow> nr_rlc_entity_um" where
  "um_popped e g l s =
     common_update (bstatus_update (\<lambda>b. b\<lparr>bs_tx_size := bs_tx_size b
         - (um_compute_pdu_header_size e g + seg_size g)\<rparr>))
       (common_update (mem_update (\<lambda>_. sdu_write (mem (common e)) (seg_sdu g) (s\<lparr>sdu_sn := tx_next e\<rparr>)))
         (e\<lparr>tx_list := l, tx_end := if l = [] then None else tx_end e\<rparr>))"

lemma um_popped_facts:
  assumes "um_tx_inv d e" "tx_list e = g # l" "sdus (mem (common e)) (seg_sdu g) = Some s"
  shows "refs_ok (mem (common (um_popped e g l s))) (g # l)"
    "sdus (mem (common (um_popped e g l s))) (seg_sdu g) = Some (s\<lparr>sdu_sn := tx_next e\<rparr>)"
    "um_cfg (um_popped e g l s)" "time_average_wf (txsdu_avg_time_to_tx (common (um_popped e g l s)))"
    "um_compute_pdu_header_size (um_popped e g l s) = um_compute_pdu_header_size e"
    "sdu_bytes (mem (common (um_popped e g l s))) h = sdu_bytes (mem (common e)) h"
    "brk (mem (common (um_popped e g l s))) = brk (mem (common e))"
proof -
  have r: "refs_ok (mem (common e)) (g # l)" using assms by (simp add: um_tx_inv_def)
  show "refs_ok (mem (common (um_popped e g l s))) (g # l)"
    using refs_ok_write [OF r assms(3), of "s\<lparr>sdu_sn := tx_next e\<rparr>"] by (simp add: um_popped_def)
  show "um_compute_pdu_header_size (um_popped e g l s) = um_compute_pdu_header_size e"
    by (intro ext) (simp add: um_compute_hdr um_popped_def)
qed (use assms in \<open>auto simp: um_popped_def sdu_write_def um_tx_inv_def um_cfg_def sdu_bytes_def\<close>)

lemma um_generate_unfold:
  assumes "tx_list e = g # l" "sdus (mem (common e)) (seg_sdu g) = Some s"
    and "um_compute_pdu_header_size e g + 1 \<le> int (length buf)"
  shows "nr_rlc_entity_um_generate_pdu now e buf =
    (if um_compute_pdu_header_size e g + seg_size g > int (length buf)
     then res_bind (um_resegment g (um_popped e g l s) (int (length buf))) (\<lambda>(next_sdu, sdu, e).
                 case next_sdu of
                   None \<Rightarrow> Inr (0, buf, e)
                 | Some next \<Rightarrow>
                     let e = e\<lparr>tx_list := next # tx_list e,
                               tx_end := if tx_end e = None then Some (seg_ptr next) else tx_end e\<rparr>;
                         e = common_update (stats_update (\<lambda>s. s\<lparr>txpdu_segmented := txpdu_segmented s + 1\<rparr>)) e;
                         e = common_update (bstatus_update (\<lambda>b. b\<lparr>bs_tx_size := bs_tx_size b
                               + (um_compute_pdu_header_size e next + seg_size next)\<rparr>)) e
                     in um_send_segment now e sdu buf)
     else um_send_segment now (um_popped e g l s) g buf)"
  using assms
  by (simp add: nr_rlc_entity_um_generate_pdu_def um_generate_tx_pdu_def Let_def sdu_read_def um_popped_def)

lemma um_generate_rest:
  assumes inv: "um_tx_inv d e" and l: "tx_list e = g # l"
    and fit: "um_compute_pdu_header_size e g + seg_size g \<le> int (length buf)"
  obtains pdu e' where
    "nr_rlc_entity_um_generate_pdu now e buf = Inr (int (length pdu), pdu @ drop (length pdu) buf, e')"
    "um_pdu_bytes (sn_field_length e) (seg_so g = 0) True (tx_next e) (seg_so g)
       (drop (nat (seg_so g)) (sdu_bytes (mem (common e)) g)) pdu"
    "um_tx_inv d e'" "um_tx_frame e e'" "um_txq e' = tl (um_txq e)" "pdu \<noteq> []"
    "tx_next e' = (if seg_so g = 0 then tx_next e else (tx_next e + 1) mod sn_modulus e)"
proof -
  obtain s where s: "sdus (mem (common e)) (seg_sdu g) = Some s" "sdu_bytes (mem (common e)) g = sdu_data s"
    "seg_in_sdu s g" "sdu_size s = int (length (sdu_data s))" "seg_is_last g" "seg_sdu g \<notin> seg_sdu ` set l"
    by (rule um_tx_head [OF inv l])
  note pf = um_popped_facts [OF inv l s(1)]
  let ?p = "um_popped e g l s"
  obtain pdu m t st where send: "um_send_segment now ?p g buf = Inr (int (length pdu), pdu @ drop (length pdu) buf,
       ?p\<lparr>tx_next := if \<not> seg_is_first g \<and> seg_is_last g then (tx_next ?p + 1) smod sn_modulus ?p else tx_next ?p,
         tx_size := tx_size ?p - seg_size g,
         common := (common ?p)\<lparr>stats := st, txsdu_avg_time_to_tx := t, mem := m\<rparr>\<rparr>)" (is "_ = Inr (_, _, ?e')")
    "um_pdu_bytes (sn_field_length ?p) (seg_is_first g) (seg_is_last g) (sdu_sn (s\<lparr>sdu_sn := tx_next e\<rparr>)) (seg_so g)
       (take (nat (seg_size g)) (drop (nat (seg_so g)) (sdu_data (s\<lparr>sdu_sn := tx_next e\<rparr>)))) pdu"
    "int (length pdu) = um_compute_pdu_header_size ?p g + seg_size g"
    "time_average_wf t" "refs_ok m l" "\<forall>h \<in> set l. sdu_bytes m h = sdu_bytes (mem (common ?p)) h"
    using um_send_segment_ok [OF pf(3,1,2,4), of buf now] fit unfolding pf(5) by metis
  have pos: "0 < seg_size g" "0 \<le> seg_so g" and first: "seg_is_first g \<longleftrightarrow> seg_so g = 0"
    using s(3) by (auto simp: seg_in_sdu_def)
  have "take (nat (seg_size g)) (drop (nat (seg_so g)) (sdu_data s)) = drop (nat (seg_so g)) (sdu_data s)"
    using s(3-5) by (auto simp: seg_in_sdu_def)
  with send(2) first s(2,5) have bytes: "um_pdu_bytes (sn_field_length e) (seg_so g = 0) True (tx_next e) (seg_so g)
       (drop (nat (seg_so g)) (sdu_bytes (mem (common e)) g)) pdu" by (simp add: um_popped_def)
  have h: "um_compute_pdu_header_size ?e' = um_compute_pdu_header_size e"
    by (intro ext) (simp add: um_compute_hdr um_popped_def)
  have hp: "1 \<le> um_compute_pdu_header_size e g" using um_hdr_bounds(1) by (simp add: um_compute_hdr)
  have nx: "(tx_next e + 1) smod sn_modulus e = (tx_next e + 1) mod sn_modulus e" "0 < sn_modulus e"
    using inv by (auto simp: um_tx_inv_def)
  have "\<forall>h \<in> set (tl l). seg_is_first h" using inv l by (cases l) (auto simp: um_tx_inv_def)
  then have inv': "um_tx_inv d ?e'"
    using inv l send(4,5) tail_ok_pop [of g l "tx_end e"] h nx
    by (auto simp: um_tx_inv_def um_popped_def um_cfg_def split: if_splits)
  have "um_txq ?e' = tl (um_txq e)"
    using send(6) pf(6) by (simp add: um_txq_def l) (simp add: um_popped_def)
  moreover have "um_tx_frame e ?e'" by (simp add: um_tx_frame_def um_popped_def)
  moreover have "nr_rlc_entity_um_generate_pdu now e buf = Inr (int (length pdu), pdu @ drop (length pdu) buf, ?e')"
    using um_generate_unfold [OF l s(1), of buf now] send(1) fit pos hp by simp
  moreover have "pdu \<noteq> []" using send(3) pos hp pf(5) by auto
  moreover have "tx_next ?e' = (if seg_so g = 0 then tx_next e else (tx_next e + 1) mod sn_modulus e)"
    using first s(5) nx by (simp add: um_popped_def)
  ultimately show ?thesis using that bytes inv' by blast
qed

lemma um_resegment_eq:
  fixes p :: nr_rlc_entity_um
  assumes "sdus (mem (common p)) (seg_sdu g) = Some s"
    and "um_hdr (sn_field_length p) (seg_is_first g) False + 1 \<le> n"
  defines "k \<equiv> n - um_hdr (sn_field_length p) (seg_is_first g) False"
  shows "\<exists>st. um_resegment g p n = Inr
     (Some (g\<lparr>seg_ptr := brk (mem (common p)), seg_size := seg_size g - k, seg_so := seg_so g + k, seg_is_first := False\<rparr>),
      g\<lparr>seg_size := k, seg_is_last := False\<rparr>,
      p\<lparr>common := (common p)\<lparr>mem := (sdu_write (mem (common p)) (seg_sdu g)
           (s\<lparr>sdu_ref_count := sdu_ref_count s + 1\<rparr>))\<lparr>brk := brk (mem (common p)) + 1\<rparr>, stats := st\<rparr>\<rparr>)"
proof (rule exI)
  have hdr: "um_compute_pdu_header_size (common_update f p) (g\<lparr>seg_is_last := False\<rparr>)
      = um_hdr (sn_field_length p) (seg_is_first g) False" for f
    by (simp add: um_compute_hdr)
  show "um_resegment g p n = Inr
     (Some (g\<lparr>seg_ptr := brk (mem (common p)), seg_size := seg_size g - k, seg_so := seg_so g + k, seg_is_first := False\<rparr>),
      g\<lparr>seg_size := k, seg_is_last := False\<rparr>,
      p\<lparr>common := (common p)\<lparr>mem := (sdu_write (mem (common p)) (seg_sdu g)
           (s\<lparr>sdu_ref_count := sdu_ref_count s + 1\<rparr>))\<lparr>brk := brk (mem (common p)) + 1\<rparr>,
        stats := (stats (common p))\<lparr>txpdu_segmented := txpdu_segmented (stats (common p)) + 1\<rparr>\<rparr>\<rparr>)"
    unfolding um_resegment_def sdu_read_def assms(1) using assms(2)
    by (cases p, cases "common p") (simp add: Let_def hdr k_def sdu_write_def, auto simp: um_compute_hdr)
qed

lemma um_generate_split:
  assumes inv: "um_tx_inv d e" and l: "tx_list e = g # l"
    and fit: "um_compute_pdu_header_size e g + seg_size g > int (length buf)"
      "um_compute_pdu_header_size e g + 1 \<le> int (length buf)"
    and room: "um_hdr (sn_field_length e) (seg_is_first g) False + 1 \<le> int (length buf)"
    and k: "k = int (length buf) - um_hdr (sn_field_length e) (seg_is_first g) False"
  obtains e' pdu where
    "nr_rlc_entity_um_generate_pdu now e buf = Inr (int (length buf), pdu, e')" "length pdu = length buf"
    "um_pdu_bytes (sn_field_length e) (seg_so g = 0) False (tx_next e) (seg_so g)
       (take (nat k) (drop (nat (seg_so g)) (sdu_bytes (mem (common e)) g))) pdu"
    "um_tx_inv d e'" "um_tx_frame e e'" "tx_next e' = tx_next e"
    "um_txq e' = (seg_so g + k, sdu_bytes (mem (common e)) g) # tl (um_txq e)"
    "0 < k" "k < int (length (sdu_bytes (mem (common e)) g)) - seg_so g"
proof -
  obtain s where s: "sdus (mem (common e)) (seg_sdu g) = Some s" "sdu_bytes (mem (common e)) g = sdu_data s"
    "seg_in_sdu s g" "sdu_size s = int (length (sdu_data s))" "seg_is_last g" "seg_sdu g \<notin> seg_sdu ` set l"
    by (rule um_tx_head [OF inv l])
  note pf = um_popped_facts [OF inv l s(1)]
  let ?p = "um_popped e g l s"
  let ?h = "um_hdr (sn_field_length e) (seg_is_first g) False"
  let ?s1 = "s\<lparr>sdu_sn := tx_next e\<rparr>"
  have hg: "um_compute_pdu_header_size e g = um_hdr (sn_field_length e) (seg_is_first g) True"
    using s(5) by (simp add: um_compute_hdr)
  have hmono: "um_hdr (sn_field_length e) (seg_is_first g) True \<le> ?h" by (simp add: um_hdr_def)
  have k': "0 < k" "k < seg_size g" using room fit(1) hg hmono k by linarith+
  define m' where "m' = (sdu_write (mem (common ?p)) (seg_sdu g) (?s1\<lparr>sdu_ref_count := sdu_ref_count ?s1 + 1\<rparr>))
    \<lparr>brk := brk (mem (common ?p)) + 1\<rparr>"
  define g' where "g' = g\<lparr>seg_size := k, seg_is_last := False\<rparr>"
  define nx where "nx = g\<lparr>seg_ptr := brk (mem (common ?p)), seg_size := seg_size g - k, seg_so := seg_so g + k, seg_is_first := False\<rparr>"
  note sp = refs_ok_split [OF pf(1,2) k' m'_def g'_def nx_def]
  obtain st1 where reseg: "um_resegment g ?p (int (length buf))
      = Inr (Some nx, g', ?p\<lparr>common := (common ?p)\<lparr>mem := m', stats := st1\<rparr>\<rparr>)"
    using um_resegment_eq [OF pf(2), of "int (length buf)"] room k
    unfolding m'_def g'_def nx_def by (auto simp: um_popped_def)
  define e1 where "e1 = ?p\<lparr>common := (common ?p)\<lparr>mem := m', stats := st1\<rparr>\<rparr>"
  define e2 where "e2 = (let e = e1\<lparr>tx_list := nx # tx_list e1, tx_end := if tx_end e1 = None then Some (seg_ptr nx) else tx_end e1\<rparr>;
                         e = common_update (stats_update (\<lambda>s. s\<lparr>txpdu_segmented := txpdu_segmented s + 1\<rparr>)) e
                     in common_update (bstatus_update (\<lambda>b. b\<lparr>bs_tx_size := bs_tx_size b
                               + (um_compute_pdu_header_size e nx + seg_size nx)\<rparr>)) e)"
  have gen: "nr_rlc_entity_um_generate_pdu now e buf = um_send_segment now e2 g' buf"
    unfolding um_generate_unfold [OF l s(1) fit(2)] using fit(1) reseg by (simp add: e2_def e1_def Let_def)
  have e2: "mem (common e2) = m'" "sn_field_length e2 = sn_field_length e" "tx_list e2 = nx # l"
      "tx_next e2 = tx_next e" "sn_modulus e2 = sn_modulus e"
      "tx_end e2 = (if l = [] then Some (seg_ptr nx) else if tx_end e = None then Some (seg_ptr nx) else tx_end e)"
      "tx_size e2 = tx_size e" "um_tx_frame e e2"
      "txsdu_avg_time_to_tx (common e2) = txsdu_avg_time_to_tx (common e)"
      "bs_tx_size (bstatus (common e2)) = bs_tx_size (bstatus (common e)) - (um_compute_pdu_header_size e g + seg_size g)
         + (um_compute_pdu_header_size e nx + seg_size nx)"
    by (simp_all add: e2_def e1_def um_popped_def Let_def um_tx_frame_def um_compute_hdr)
  have cfg2: "um_cfg e2" "time_average_wf (txsdu_avg_time_to_tx (common e2))"
    using inv e2(8,9) by (auto simp: um_tx_inv_def um_cfg_def um_tx_frame_def)
  let ?s2 = "?s1\<lparr>sdu_ref_count := sdu_ref_count ?s1 + 1\<rparr>"
  have s2: "sdus m' (seg_sdu g') = Some ?s2"
    by (simp add: m'_def g'_def sdu_write_def)
  have fit2: "um_compute_pdu_header_size e2 g' + seg_size g' = int (length buf)"
    using k by (simp add: um_compute_hdr e2(2) g'_def)
  obtain pdu m t st where send: "um_send_segment now e2 g' buf = Inr (int (length pdu), pdu @ drop (length pdu) buf,
       e2\<lparr>tx_next := if \<not> seg_is_first g' \<and> seg_is_last g' then (tx_next e2 + 1) smod sn_modulus e2 else tx_next e2,
         tx_size := tx_size e2 - seg_size g',
         common := (common e2)\<lparr>stats := st, txsdu_avg_time_to_tx := t, mem := m\<rparr>\<rparr>)" (is "_ = Inr (_, _, ?e')")
    "um_pdu_bytes (sn_field_length e2) (seg_is_first g') (seg_is_last g') (sdu_sn ?s2) (seg_so g')
       (take (nat (seg_size g')) (drop (nat (seg_so g')) (sdu_data ?s2))) pdu"
    "int (length pdu) = um_compute_pdu_header_size e2 g' + seg_size g'"
    "time_average_wf t" "refs_ok m (nx # l)" "brk m = brk m'" "\<forall>h \<in> set (nx # l). sdu_bytes m h = sdu_bytes m' h"
    by (rule um_send_segment_ok [OF cfg2(1), unfolded e2(1), OF sp(1) s2 cfg2(2) eq_refl [OF fit2], of now])
  have same: "sdu_bytes m' h = sdu_bytes (mem (common e)) h" for h
    using pf(6) [of h] pf(2) by (auto simp: m'_def sdu_bytes_def sdu_write_def)
  have q: "um_txq ?e' = (seg_so g + k, sdu_bytes (mem (common e)) g) # tl (um_txq e)"
    using send(7) same s(2) by (simp add: um_txq_def l e2(3)) (simp add: nx_def sdu_bytes_def)
  have hs: "um_compute_pdu_header_size ?e' = um_compute_pdu_header_size e"
    by (intro ext) (simp add: um_compute_hdr e2(2))
  have tail: "tail_ok (nx # l) (tx_end e2)"
    using tail_ok_push [OF tail_ok_pop [of g l "tx_end e"], of nx] sp(2) inv l
    by (auto simp: um_tx_inv_def e2(6) split: if_splits)
  have "um_tx_inv d ?e'"
    using inv l send(4,5) tail hs cfg2(1) s(6) e2(10)
    by (auto simp: um_tx_inv_def e2 um_cfg_def g'_def nx_def)
  moreover have "um_tx_frame e ?e'" using e2(8) by (simp add: um_tx_frame_def)
  moreover have "length pdu = length buf" using send(3) fit2 by simp
  moreover have "um_pdu_bytes (sn_field_length e) (seg_so g = 0) False (tx_next e) (seg_so g)
       (take (nat k) (drop (nat (seg_so g)) (sdu_bytes (mem (common e)) g))) pdu"
    using send(2) s(2,3) by (simp add: g'_def e2(2) seg_in_sdu_def)
  moreover have "tx_next ?e' = tx_next e" by (simp add: g'_def e2(4))
  moreover have "k < int (length (sdu_bytes (mem (common e)) g)) - seg_so g"
    using k'(2) s(2-5) by (simp add: seg_in_sdu_def)
  ultimately show ?thesis using that [of pdu ?e'] gen send(1) q k'(1) by simp
qed

section \<open>SDUs from the upper layer\<close>

lemma um_recv_sdu_start:
  assumes inv: "um_tx_inv d e" and e1: "e1 = um_log_rejected (um_count_sdu e n)"
  shows "um_tx_inv d e1" "um_tx_frame e e1" "um_txq e1 = um_txq e" "tx_next e1 = tx_next e" "tx_size e1 = tx_size e"
    "tx_maxsize e1 = tx_maxsize e"
proof -
  have log: "um_log_rejected f = f\<lparr>sdu_rejected := 0, t_log_buffer_full := t_current f\<rparr> \<or> um_log_rejected f = f" for f
    by (simp add: um_log_rejected_def)
  show "um_tx_inv d e1" "um_tx_frame e e1" "um_txq e1 = um_txq e" "tx_next e1 = tx_next e" "tx_size e1 = tx_size e"
    "tx_maxsize e1 = tx_maxsize e"
    using log [of "um_count_sdu e n"] inv unfolding e1
    by (elim disjE; simp add: um_count_sdu_def um_tx_inv_def um_tx_frame_def um_txq_def um_cfg_def um_compute_hdr)+
qed

lemma um_recv_sdu_rejects:
  assumes "um_tx_inv d e" "int (length buf) \<le> NR_SDU_MAX" "tx_size e + int (length buf) > tx_maxsize e"
  obtains e' where "nr_rlc_entity_um_recv_sdu now e buf sdu_id = Inr e'" "um_tx_inv d e'" "um_tx_frame e e'"
    "um_txq e' = um_txq e" "tx_next e' = tx_next e"
proof -
  define e1 where "e1 = um_log_rejected (um_count_sdu e (int (length buf)))"
  note st = um_recv_sdu_start [OF assms(1) e1_def]
  let ?e' = "um_reject_sdu e1 (int (length buf))"
  have "nr_rlc_entity_um_recv_sdu now e buf sdu_id = Inr ?e'"
    using assms(2,3) st(5,6) by (simp add: nr_rlc_entity_um_recv_sdu_def Let_def e1_def)
  moreover have "um_tx_inv d ?e'" "um_tx_frame e ?e'" "um_txq ?e' = um_txq e" "tx_next ?e' = tx_next e"
    using st by (simp_all add: um_reject_sdu_def um_tx_inv_def um_tx_frame_def um_txq_def um_cfg_def um_compute_hdr)
  ultimately show ?thesis by (rule that)
qed

lemma um_recv_sdu_accepts:
  assumes inv0: "um_tx_inv d e" and b: "buf \<noteq> []" "int (length buf) \<le> NR_SDU_MAX"
    "tx_size e + int (length buf) \<le> tx_maxsize e"
  obtains e' where "nr_rlc_entity_um_recv_sdu now e buf sdu_id = Inr e'" "um_tx_inv d e'" "um_tx_frame e e'"
    "um_txq e' = um_txq e @ [(0, buf)]" "tx_next e' = tx_next e"
proof -
  define e1 where "e1 = um_log_rejected (um_count_sdu e (int (length buf)))"
  note st = um_recv_sdu_start [OF inv0 e1_def]
  note inv = st(1)
  let ?m = "mem (common e1)" and ?on = "avg_time_is_on (common e1)"
  obtain g m' where new: "nr_rlc_new_sdu ?m buf sdu_id = (g, m')" by (cases "nr_rlc_new_sdu ?m buf sdu_id")
  have r: "refs_ok ?m (tx_list e1 @ [])" and tl: "tail_ok (tx_list e1) (tx_end e1)" using inv by (auto simp: um_tx_inv_def)
  obtain s where q: "nr_rlc_sdu_segment_list_append (tx_list e1) (tx_end e1) g = Inr (tx_list e1 @ [g], Some (seg_ptr g))"
    "tail_ok (tx_list e1 @ [g]) (Some (seg_ptr g))" "sdu_read m' (seg_sdu g) = Inr s"
    "refs_ok (stamped ?on now m' g s) ((tx_list e1 @ [g]) @ [])" "seg_size g = int (length buf)" "seg_is_first g" "seg_is_last g"
    "seg_so g = 0" "seg_sdu g \<notin> seg_sdu ` set (tx_list e1 @ [])"
    "\<forall>h \<in> set (tx_list e1 @ []). sdus (stamped ?on now m' g s) (seg_sdu h) = sdus ?m (seg_sdu h)"
    "sdu_bytes (stamped ?on now m' g s) g = buf"
    by (rule new_sdu_queued [OF r tl b(1) new])
  let ?e' = "e1\<lparr>tx_size := tx_size e1 + int (length buf), tx_list := tx_list e1 @ [g], tx_end := Some (seg_ptr g),
     common := bstatus_update (\<lambda>b. b\<lparr>bs_tx_size := bs_tx_size b + (um_compute_pdu_header_size e1 g + seg_size g)\<rparr>)
       ((common e1)\<lparr>mem := stamped ?on now m' g s\<rparr>)\<rparr>"
  have "nr_rlc_entity_um_recv_sdu now e buf sdu_id = Inr ?e'"
    using b q(1,3) st(5,6) new unfolding nr_rlc_entity_um_recv_sdu_def Let_def e1_def [symmetric]
    by (cases ?on) (simp_all add: stamped_def um_compute_hdr)
  moreover have h: "um_compute_pdu_header_size ?e' = um_compute_pdu_header_size e1" by (intro ext) (simp add: um_compute_hdr)
  have "\<forall>h \<in> set (tl (tx_list e1 @ [g])). seg_is_first h"
    using inv q(6) by (cases "tx_list e1") (auto simp: um_tx_inv_def)
  then have "um_tx_inv d ?e'" using inv q h by (auto simp: um_tx_inv_def um_cfg_def)
  moreover have "um_tx_frame e ?e'" using st(2) by (simp add: um_tx_frame_def)
  moreover have "um_txq ?e' = um_txq e @ [(0, buf)]"
    using q(8,10,11) st(3) [symmetric] by (auto simp: um_txq_def sdu_bytes_def)
  ultimately show ?thesis using that st(4) by simp
qed

section \<open>Discarding an SDU\<close>

lemma um_find_sdu_ok:
  assumes "refs_ok m segs" "set l \<subseteq> set segs"
  shows "\<exists>pre r. um_find_sdu m sdu_id l = Inr (pre, r) \<and> l = pre @ r"
  using assms(2)
proof (induction l)
  case Nil
  then show ?case by simp
next
  case (Cons g l)
  obtain s where "sdu_read m (seg_sdu g) = Inr s" using refs_okD [OF assms(1), of g] Cons.prems by auto
  with Cons show ?case by auto
qed

lemma um_discard_ok:
  assumes inv: "um_tx_inv d e"
  obtains e' where "nr_rlc_entity_um_discard_sdu e sdu_id = Inr e'" "um_tx_frame e e'" "tx_next e' = tx_next e"
    "(e' = e \<and> um_tx_inv d e' \<and> (\<forall>pre g rest. um_find_sdu (mem (common e)) sdu_id (tx_list e) = Inr (pre, g # rest)
          \<longrightarrow> \<not> (seg_is_first g \<and> seg_is_last g)))
     \<or> (\<exists>pre b rest. um_txq e = pre @ (0, b) # rest \<and> um_txq e' = pre @ rest
          \<and> um_tx_inv (d + int (length b)) e' \<and> tx_size e' = tx_size e)"
proof -
  let ?m = "mem (common e)"
  have refs: "refs_ok ?m (tx_list e)" using inv by (simp add: um_tx_inv_def)
  obtain pre r where find: "um_find_sdu ?m sdu_id (tx_list e) = Inr (pre, r)" "tx_list e = pre @ r"
    using um_find_sdu_ok [OF refs subset_refl] by blast
  show ?thesis
  proof (cases "\<exists>cur rest. r = cur # rest \<and> seg_is_first cur \<and> seg_is_last cur")
    case False
    then have "nr_rlc_entity_um_discard_sdu e sdu_id = Inr e"
      using find(1) by (auto simp: nr_rlc_entity_um_discard_sdu_def split: list.splits)
    then show ?thesis using that [of e] inv find(1) False by (auto simp: um_tx_frame_def)
  next
    case True
    then obtain cur rest where r: "r = cur # rest" "seg_is_first cur" "seg_is_last cur" by blast
    have l: "tx_list e = pre @ cur # rest" using find(2) r(1) by simp
    have "refs_ok ?m (cur # pre @ rest)" using refs by (subst refs_ok_mset [of _ "tx_list e"]) (simp_all add: l)
    then obtain b m' where free: "nr_rlc_free_sdu_segment ?m cur = Inr (b, m')" "refs_ok m' (pre @ rest)"
        "\<forall>a. a \<noteq> seg_sdu cur \<longrightarrow> sdus m' a = sdus ?m a"
      using refs_ok_free by blast
    have dist: "distinct (map seg_sdu (tx_list e))" and tail: "tail_ok (tx_list e) (tx_end e)"
      using inv by (simp_all add: um_tx_inv_def)
    have size: "seg_size cur = int (length (sdu_bytes ?m cur))" "seg_so cur = 0"
      using refs_okD [OF refs, of cur] l r(2,3) by (auto simp: seg_in_sdu_def sdu_bytes_def)
    let ?e' = "e\<lparr>tx_list := pre @ rest, tx_end := if tx_end e = Some (seg_ptr cur)
                   then (if pre \<noteq> [] then Some (seg_ptr (last pre)) else None) else tx_end e,
        common := (common e)\<lparr>mem := m', bstatus := (bstatus (common e))\<lparr>bs_tx_size := bs_tx_size (bstatus (common e))
                     - (um_compute_pdu_header_size e cur + seg_size cur)\<rparr>\<rparr>\<rparr>"
    have upd: "common_update f x = x\<lparr>common := f (common x)\<rparr>" for f and x :: nr_rlc_entity_um by (cases x) simp
    have run: "nr_rlc_entity_um_discard_sdu e sdu_id = Inr ?e'"
      using find(1) r free(1)
      by (simp add: nr_rlc_entity_um_discard_sdu_def Let_def um_compute_hdr upd [of "mem_update _"] upd [of "bstatus_update _"])
    have h: "um_compute_pdu_header_size ?e' = um_compute_pdu_header_size e" by (intro ext) (simp add: um_compute_hdr)
    have keep: "sdu_bytes m' g = sdu_bytes ?m g" if "g \<in> set (pre @ rest)" for g
      using free(3) dist that by (auto simp: l sdu_bytes_def image_iff)
    have tail': "tail_ok (pre @ rest) (tx_end ?e')"
      using tail by (cases rest rule: rev_cases) (auto simp: l tail_ok_def)
    have tls: "set (tl (pre @ rest)) \<subseteq> set (tl (tx_list e))" by (cases pre; cases rest) (auto simp: l)
    have "um_tx_inv (d + int (length (sdu_bytes ?m cur))) ?e'"
      using inv tail' free(2) h dist size tls by (auto simp: um_tx_inv_def l um_cfg_def subset_iff)
    moreover have "um_txq e = map (\<lambda>g. (seg_so g, sdu_bytes ?m g)) pre @ (0, sdu_bytes ?m cur) # map (\<lambda>g. (seg_so g, sdu_bytes ?m g)) rest"
      by (simp add: um_txq_def l size)
    moreover have "um_txq ?e' = map (\<lambda>g. (seg_so g, sdu_bytes ?m g)) pre @ map (\<lambda>g. (seg_so g, sdu_bytes ?m g)) rest"
      using keep by (simp add: um_txq_def)
    moreover have "um_tx_frame e ?e'" "tx_next ?e' = tx_next e" "tx_size ?e' = tx_size e" by (simp_all add: um_tx_frame_def)
    ultimately show ?thesis using that [OF run] by blast
  qed
qed

lemma um_clear_ok:
  assumes "um_tx_inv d e"
  obtains e' where "nr_rlc_entity_um_reestablishment e = Inr e'" "um_tx_inv 0 e'" "um_txq e' = []"
    "sdus (mem (common e')) = Map.empty" "rx_list e' = []" "rx_size e' = 0" "um_rx_inv e'" "calls (common e') = calls (common e)"
proof -
  obtain m' where m': "nr_rlc_free_sdu_segment_list (mem (common e)) (tx_list e) = Inr m'" "refs_ok m' []"
    using assms refs_ok_free_list [of "mem (common e)" "tx_list e" "[]"] by (auto simp: um_tx_inv_def)
  have "um_key (e\<lparr>rx_next_highest := 0\<rparr>) 0 \<le> window_size e" if "um_cfg e"
    using that um_key_highest [of "e\<lparr>rx_next_highest := 0\<rparr>"] by (simp add: um_cfg_def)
  then show ?thesis
    using that assms m' 
    by (simp add: nr_rlc_entity_um_reestablishment_def um_clear_entity_def um_tx_inv_def um_txq_def um_cfg_def
        um_rx_inv_def um_rx_list_ok_def refs_ok_empty)
qed

end
