(* ===== verification/RLC_UM_Channel.thy ===== *)
theory RLC_UM_Channel
  imports RLC_UM_Tx RLC_Requests
begin

text \<open>
  Two unacknowledged-mode entities back to back: what one sends, over any interleaving of
  SDUs and grants of any size, the other reassembles and delivers in order and unchanged.
\<close>

section \<open>Decoding what has been encoded\<close>

definition um_count_pdu :: "nr_rlc_entity_um \<Rightarrow> int \<Rightarrow> nr_rlc_entity_um" where
  "um_count_pdu r n = common_update (stats_update (\<lambda>s. s\<lparr>rxpdu_pkts := rxpdu_pkts s + 1,
                rxpdu_bytes := rxpdu_bytes s + of_int n\<rparr>)) r"

lemma si_bits:
  "to_bits (nat 1) (1 - of_bool f) @ to_bits (nat 1) (1 - of_bool l) @ bs
     = to_bits (nat 2) (2 * (1 - of_bool f) + (1 - of_bool l)) @ bs"
  by (cases f; cases l) (simp_all add: numeral_2_eq_2 numeral_3_eq_3)

lemma si_flags:
  fixes si :: int
  assumes "si = 2 * (1 - of_bool f) + (1 - of_bool l)"
  shows "si AND 2 = 0 \<longleftrightarrow> f" "si AND 1 = 0 \<longleftrightarrow> l" "take_bit (nat 2) si = si"
  using assms by (cases f; cases l; simp add: take_bit_eq_mod)+

lemma um_recv_pdu_unfold:
  assumes "um_cfg r" "um_pdu_bytes (sn_field_length r) f l sn so data pdu"
  obtains hdr where "pdu = hdr @ data" "int (length hdr) = um_hdr (sn_field_length r) f l"
    "nr_rlc_pdu_decoder_get_bits (nr_rlc_pdu_decoder_init pdu) 2
       = Inr (2 * (1 - of_bool f) + (1 - of_bool l), dec_at pdu 2)"
    "drop 2 (buf_bits pdu) = field_bits (drop 2 (um_fields (sn_field_length r) f l sn so)) @ buf_bits data"
proof -
  obtain hdr where h: "pdu = hdr @ data" "int (length hdr) = um_hdr (sn_field_length r) f l"
      "buf_bits hdr = field_bits (um_fields (sn_field_length r) f l sn so)"
    using assms(2) by (auto simp: um_pdu_bytes_def)
  let ?rest = "field_bits (drop 2 (um_fields (sn_field_length r) f l sn so)) @ buf_bits data"
  let ?si = "2 * (1 - of_bool f) + (1 - of_bool l) :: int"
  have bits: "drop 0 (buf_bits pdu) = to_bits (nat 2) ?si @ ?rest"
    unfolding si_bits [symmetric] by (simp add: h um_fields_def)
  have "nr_rlc_pdu_decoder_get_bits (dec_at pdu 0) 2 = Inr (take_bit (nat 2) ?si, dec_at pdu (0 + nat 2))"
    by (rule get_bits_field [OF bits]) simp_all
  then have "nr_rlc_pdu_decoder_get_bits (nr_rlc_pdu_decoder_init pdu) 2 = Inr (?si, dec_at pdu 2)"
    unfolding si_flags(3) [OF refl] decoder_init_at by (simp add: numeral_2_eq_2)
  moreover have "drop 2 (buf_bits pdu) = ?rest" using bits by simp
  ultimately show ?thesis using that h by blast
qed

lemma um_recv_whole:
  assumes cfg: "um_cfg r" and pdu: "um_pdu_bytes (sn_field_length r) True True sn so data pdu" and data: "data \<noteq> []"
  obtains c where "nr_rlc_entity_um_recv_pdu r pdu = Inr (r\<lparr>common := c\<rparr>)"
    "calls c = calls (common r) @ [Deliver_sdu data]" "\<exists>st. c = (common r)\<lparr>calls := calls c, stats := st\<rparr>"
proof -
  obtain hdr where h: "pdu = hdr @ data" "int (length hdr) = um_hdr (sn_field_length r) True True"
    "nr_rlc_pdu_decoder_get_bits (nr_rlc_pdu_decoder_init pdu) 2
       = Inr (2 * (1 - of_bool True) + (1 - of_bool True), dec_at pdu 2)"
    by (rule um_recv_pdu_unfold [OF cfg pdu])
  have one: "length hdr = 1" using h(2) by (simp add: um_hdr_def)
  have slice: "c_slice pdu 1 (int (length pdu) - 1) = Inr data" using one by (simp add: c_slice_def h(1))
  have len: "\<not> int (length pdu) < 2" using one data by (cases data) (simp_all add: h(1))
  have run: "nr_rlc_entity_um_recv_pdu r pdu = Inr (common_update (stats_update (\<lambda>s. s\<lparr>txsdu_pkts := txsdu_pkts s + 1,
      txsdu_bytes := txsdu_bytes s + of_int (int (length pdu) - 1)\<rparr>))
    (common_update (calls_update (\<lambda>c. c @ [Deliver_sdu data])) (um_count_pdu r (int (length pdu)))))"
    unfolding nr_rlc_entity_um_recv_pdu_def Let_def um_count_pdu_def using h(3) slice len by simp
  have upd: "common_update f x = x\<lparr>common := f (common x)\<rparr>" for f and x :: nr_rlc_entity_um by (cases x) simp
  show ?thesis
    by (rule that [OF run [unfolded um_count_pdu_def upd [of "stats_update _"] upd [of "calls_update _"], simplified]])
      (cases "common r", simp)+
qed

lemma um_recv_seg:
  assumes cfg: "um_cfg r" and pdu: "um_pdu_bytes (sn_field_length r) f l sn so data pdu" and fl: "\<not> (f \<and> l)"
    and sn: "0 \<le> sn" "sn < sn_modulus r" and so: "0 \<le> so" "so < 65536" "f \<longleftrightarrow> so = 0"
  obtains d where "nr_rlc_entity_um_recv_pdu r pdu = um_recv_segment (um_count_pdu r (int (length pdu))) pdu d sn so f l"
    "int (length pdu) - d_byte d = int (length data)" "0 \<le> d_byte d" "drop (nat (d_byte d)) pdu = data"
proof -
  let ?n = "sn_field_length r"
  obtain hdr where h: "pdu = hdr @ data" "int (length hdr) = um_hdr ?n f l"
    "nr_rlc_pdu_decoder_get_bits (nr_rlc_pdu_decoder_init pdu) 2
       = Inr (2 * (1 - of_bool f) + (1 - of_bool l), dec_at pdu 2)"
    "drop 2 (buf_bits pdu) = field_bits (drop 2 (um_fields ?n f l sn so)) @ buf_bits data"
    by (rule um_recv_pdu_unfold [OF cfg pdu])
  have nc: "?n = 6 \<and> sn_modulus r = 64 \<or> ?n = 12 \<and> sn_modulus r = 4096" using cfg by (auto simp: um_cfg_def)
  let ?p = "if ?n = 12 then 4 else 2 :: nat"
  let ?q = "?p + nat ?n"
  have len2: "2 \<le> 8 * length pdu" using h(2) um_hdr_bounds(1) [of ?n f l] by (simp add: h(1))
  have b12: "?n = 12 \<Longrightarrow> drop 2 (buf_bits pdu) = to_bits (nat 2) 0 @ drop 4 (buf_bits pdu)"
    and bsn: "drop ?p (buf_bits pdu) = to_bits (nat ?n) sn @ drop ?q (buf_bits pdu)"
    and bso: "\<not> f \<Longrightarrow> drop ?q (buf_bits pdu) = to_bits (nat 16) so @ buf_bits data"
  proof -
    have tail: "drop 2 (um_fields ?n f l sn so) = (if ?n = 12 then [(0, 2)] else []) @ [(sn, ?n)] @ (if \<not> f then [(so, 16)] else [])"
      using fl by (auto simp: um_fields_def)
    have more: "drop (2 + k) (buf_bits pdu) = drop k (drop 2 (buf_bits pdu))" for k by (simp add: add.commute)
    show "drop 2 (buf_bits pdu) = to_bits (nat 2) 0 @ drop 4 (buf_bits pdu)" if "?n = 12"
      using more [of 2] h(4) [unfolded tail] that by simp
    show "drop ?p (buf_bits pdu) = to_bits (nat ?n) sn @ drop ?q (buf_bits pdu)"
      using more [of 2] more [of 14] more [of 6] h(4) [unfolded tail] nc by auto
    show "drop ?q (buf_bits pdu) = to_bits (nat 16) so @ buf_bits data" if "\<not> f"
      using more [of 14] more [of 6] h(4) [unfolded tail] that nc by auto
  qed
  have lenp: "?p \<le> 8 * length pdu"
    using arg_cong [OF b12, of length] len2 by (auto split: if_splits)
  have g1: "?n = 12 \<Longrightarrow> nr_rlc_pdu_decoder_get_bits (dec_at pdu 2) 2 = Inr (0, dec_at pdu 4)"
    using get_bits_field [OF b12 len2] by simp
  have "take_bit (nat ?n) sn = sn" using nc sn by (auto simp: take_bit_eq_mod)
  then have g2: "nr_rlc_pdu_decoder_get_bits (dec_at pdu ?p) ?n = Inr (sn, dec_at pdu ?q)"
    using get_bits_field [OF bsn lenp] nc by auto
  have lenq: "?q \<le> 8 * length pdu"
    using arg_cong [OF bsn, of length] lenp by simp
  have g3: "\<not> f \<Longrightarrow> nr_rlc_pdu_decoder_get_bits (dec_at pdu ?q) 16 = Inr (so, dec_at pdu (?q + 16))"
    using get_bits_field [OF bso lenq, of] so by (simp add: take_bit_eq_mod)
  let ?d = "dec_at pdu (if f then ?q else ?q + 16)"
  have "d_byte ?d = um_hdr ?n f l" using nc fl by (auto simp: um_hdr_def)
  moreover have "nr_rlc_entity_um_recv_pdu r pdu = um_recv_segment (um_count_pdu r (int (length pdu))) pdu ?d sn so f l"
    using h(3) g1 g2 g3 fl so si_flags(1,2) [OF refl, of f l]
    unfolding nr_rlc_entity_um_recv_pdu_def Let_def um_count_pdu_def
    by (cases "?n = 12"; cases f) simp_all
  ultimately show ?thesis using that [of ?d] h(1,2) by simp
qed

section \<open>The receiver in step with the sender\<close>

text \<open>
  \<open>t\<close> is the next sequence number of the sender and \<open>q\<close> its queue: the receiver has
  delivered everything before \<open>q\<close> and holds the part of the first SDU already sent.
\<close>

definition um_offset :: "(int \<times> byte list) list \<Rightarrow> int" where
  "um_offset q = (case q of [] \<Rightarrow> 0 | (so, D) # _ \<Rightarrow> so)"

definition um_sync :: "nr_rlc_entity_um \<Rightarrow> int \<Rightarrow> (int \<times> byte list) list \<Rightarrow> bool" where
  "um_sync r t q \<longleftrightarrow> um_rx_inv r \<and> um_rx_leak r = 0 \<and> NR_SDU_MAX \<le> rx_maxsize r \<and> rx_next_reassembly r = t
     \<and> (\<forall>p \<in> set (rx_list r). pdu_sn p \<noteq> t \<longrightarrow> pdu_data p = None)
     \<and> (if um_offset q = 0 then rx_next_highest r = t
        else rx_next_highest r = (t + 1) mod sn_modulus r
          \<and> (\<forall>p \<in> set (um_block r t). seg_of (snd (hd q)) p \<and> pdu_so p + pdu_size p \<le> um_offset q)
          \<and> (\<forall>i \<in> {0..<um_offset q}. covered (um_block r t) i)
          \<and> (\<Sum>p\<leftarrow>um_block r t. pdu_size p) = um_offset q)"

lemma um_timers_same:
  "rx_list (um_timer_start (um_timer_stop f)) = rx_list f"
  "rx_next_reassembly (um_timer_start (um_timer_stop f)) = rx_next_reassembly f"
  "rx_next_highest (um_timer_start (um_timer_stop f)) = rx_next_highest f"
  "calls (common (um_timer_start (um_timer_stop f))) = calls (common f)"
proof -
  have stop: "um_timer_stop f = f \<or> um_timer_stop f = f\<lparr>t_reassembly_start := 0\<rparr>"
    by (simp add: um_timer_stop_def)
  have start: "um_timer_start g = g \<or> um_timer_start g = g\<lparr>t_reassembly_start := t_current g, rx_timer_trigger := rx_next_highest g\<rparr>" for g
    by (simp add: um_timer_start_def)
  show "rx_list (um_timer_start (um_timer_stop f)) = rx_list f"
    "rx_next_reassembly (um_timer_start (um_timer_stop f)) = rx_next_reassembly f"
    "rx_next_highest (um_timer_start (um_timer_stop f)) = rx_next_highest f"
    "calls (common (um_timer_start (um_timer_stop f))) = calls (common f)"
    using stop start [of "um_timer_stop f"] by (elim disjE; simp)+
qed

lemma um_delivered_size:
  assumes "um_rx_list_ok n r" "\<forall>p \<in> set (rx_list r). pdu_sn p \<noteq> t \<longrightarrow> pdu_data p = None"
  shows "(\<Sum>p\<leftarrow>rx_list r. pdu_size p) = (\<Sum>p\<leftarrow>um_block r t. pdu_size p)"
proof -
  have "\<forall>p \<in> set (rx_list r). pdu_sn p \<noteq> t \<longrightarrow> pdu_size p = 0"
    using assms by (auto simp: um_rx_list_ok_def um_pdu_ok_def pdu_held_def)
  moreover have "\<forall>p \<in> set l. pdu_sn p \<noteq> t \<longrightarrow> pdu_size p = 0
      \<Longrightarrow> (\<Sum>p\<leftarrow>l. pdu_size p) = (\<Sum>p\<leftarrow>filter (\<lambda>p. pdu_sn p = t) l. pdu_size p)" for l
    by (induction l) auto
  ultimately show ?thesis by blast
qed

text \<open>Accepting a segment whose number is \<open>rx_next_reassembly\<close>.\<close>

lemma um_accept_segment:
  assumes sync: "um_sync r t q" and d: "int (length pdu) - d_byte d = int (length data)" "0 \<le> d_byte d"
      "drop (nat (d_byte d)) pdu = data"
    and data: "data \<noteq> []" "um_offset q + int (length data) \<le> NR_SDU_MAX" and so: "0 \<le> so" "so = 0 \<Longrightarrow> \<not> l"
    and p: "p = nr_rlc_new_pdu t so f l data"
  obtains r1 r' where "um_recv_segment r pdu d t so f l = um_reception_actions r1 p"
    "um_recv_segment r pdu d t so f l = Inr r'" "um_rx_inv r'" "um_rx_leak r' = 0" "um_rx_frame r r'"
    "um_rx_list_ok (max (window_size r) (um_key r t + 1)) r1"
    "r1 = r\<lparr>rx_size := rx_size r + int (length data), rx_list := rx_list r1\<rparr>"
    "um_block r1 t = insert_by_so p (um_block r t)" "set (rx_list r1) = insert p (set (rx_list r))"
proof -
  have inv: "um_rx_inv r" "um_rx_leak r = 0" "NR_SDU_MAX \<le> rx_maxsize r" "rx_next_reassembly r = t"
      and del: "\<forall>p \<in> set (rx_list r). pdu_sn p \<noteq> t \<longrightarrow> pdu_data p = None"
    using sync by (auto simp: um_sync_def)
  have ok: "um_rx_list_ok (window_size r) r" using inv(1) by (simp add: um_rx_inv_def)
  then have cfg: "um_cfg r" and t: "0 \<le> t" "t < sn_modulus r" and h: "0 \<le> rx_next_highest r" "rx_next_highest r < sn_modulus r"
    using inv(4) by (auto simp: um_rx_list_ok_def)
  have "(\<Sum>p\<leftarrow>um_block r t. pdu_size p) = um_offset q"
  proof (cases "um_offset q = 0")
    case True
    then have "um_key r t = window_size r" using sync cfg um_key_highest [of r] by (auto simp: um_sync_def)
    then have "um_block r t = []" using ok by (fastforce simp: um_rx_list_ok_def filter_empty_conv)
    with True show ?thesis by simp
  qed (use sync in \<open>simp add: um_sync_def\<close>)
  then have size: "rx_size r = um_offset q"
    using inv(2) um_delivered_size [OF ok del] by (simp add: um_rx_leak_def)
  have held: "pdu_held p" "pdu_sn p = t" "pdu_so p = so" using data(1) so(1) by (auto simp: p nr_rlc_new_pdu_def pdu_held_def)
  let ?r0 = "r\<lparr>rx_size := rx_size r + int (length data)\<rparr>"
  let ?r1 = "?r0\<lparr>rx_list := nr_rlc_pdu_list_add (um_sn_compare_rx ?r0) (rx_list ?r0) p\<rparr>"
  have ok0: "um_rx_list_ok (window_size ?r0) ?r0" using ok by (simp add: um_rx_list_ok_def um_cfg_def)
  note ins = um_insert [OF ok0 held(1), unfolded held(2)]
  have off: "int (length pdu) - int (length data) = d_byte d" using d(1) by simp
  have slice: "c_slice pdu (int (length pdu) - int (length data)) (int (length data)) = Inr data"
    unfolding c_slice_def off d(3) using d(1,2) by simp
  have eq: "um_recv_segment r pdu d t so f l = um_reception_actions ?r1 p"
    using data size inv(3,4) unfolding um_recv_segment_def Let_def d(1) slice by (simp add: p um_sn_compare_rx_def)
  obtain r' where r': "um_recv_segment r pdu d t so f l = Inr r'" "um_rx_inv r'" "um_rx_leak r' = um_rx_leak r" "um_rx_frame r r'"
    by (rule um_recv_segment_ok [OF inv(1) t so d(2)])
  show ?thesis
    by (rule that [OF eq r'(1,2) _ r'(4)]) (use ins t r'(3) inv(2) in simp_all)
qed

lemma um_sync_recv:
  assumes sync: "um_sync r t q" and pdu: "um_pdu_bytes (sn_field_length r) f l t so data pdu" and fl: "\<not> (f \<and> l)"
    and so: "0 \<le> so" "so < 65536" "f \<longleftrightarrow> so = 0" and data: "data \<noteq> []" "um_offset q + int (length data) \<le> NR_SDU_MAX"
    and p: "p = nr_rlc_new_pdu t so f l data"
  obtains r1 r' where "nr_rlc_entity_um_recv_pdu r pdu = Inr r'" "um_reception_actions r1 p = Inr r'"
    "um_rx_inv r'" "um_rx_leak r' = 0" "rx_maxsize r' = rx_maxsize r" "sn_field_length r' = sn_field_length r"
    "sn_modulus r' = sn_modulus r" "um_rx_list_ok (max (window_size r) (um_key r t + 1)) r1"
    "um_block r1 t = insert_by_so p (um_block r t)" "set (rx_list r1) = insert p (set (rx_list r))"
    "window_size r1 = window_size r" "sn_modulus r1 = sn_modulus r" "rx_next_highest r1 = rx_next_highest r"
    "rx_next_reassembly r1 = rx_next_reassembly r" "calls (common r1) = calls (common r)"
proof -
  define rc where "rc = um_count_pdu r (int (length pdu))"
  have rc: "um_sync rc t q" "um_cfg r" "0 \<le> t" "t < sn_modulus r"
    using sync by (auto simp: rc_def um_count_pdu_def um_sync_def um_rx_inv_def um_rx_list_ok_def um_cfg_def um_rx_leak_def)
  have same: "calls (common rc) = calls (common r)" "sn_field_length rc = sn_field_length r" "sn_modulus rc = sn_modulus r"
      "window_size rc = window_size r" "rx_next_highest rc = rx_next_highest r" "rx_list rc = rx_list r"
      "rx_next_reassembly rc = rx_next_reassembly r" "rx_maxsize rc = rx_maxsize r"
    by (simp_all add: rc_def um_count_pdu_def)
  obtain d where d: "nr_rlc_entity_um_recv_pdu r pdu = um_recv_segment rc pdu d t so f l"
    "int (length pdu) - d_byte d = int (length data)" "0 \<le> d_byte d" "drop (nat (d_byte d)) pdu = data"
    unfolding rc_def by (rule um_recv_seg [OF rc(2) pdu fl rc(3,4) so])
  have nl: "so = 0 \<Longrightarrow> \<not> l" using fl so(3) by simp
  obtain r1 r' where r1: "um_recv_segment rc pdu d t so f l = um_reception_actions r1 p"
    "um_recv_segment rc pdu d t so f l = Inr r'" "um_rx_inv r'" "um_rx_leak r' = 0" "um_rx_frame rc r'"
    "um_rx_list_ok (max (window_size rc) (um_key rc t + 1)) r1"
    "r1 = rc\<lparr>rx_size := rx_size rc + int (length data), rx_list := rx_list r1\<rparr>"
    "um_block r1 t = insert_by_so p (um_block rc t)" "set (rx_list r1) = insert p (set (rx_list rc))"
    by (rule um_accept_segment [OF rc(1) d(2-4) data so(1) nl p])
  have flds: "window_size r1 = window_size rc" "sn_modulus r1 = sn_modulus rc" "rx_next_highest r1 = rx_next_highest rc"
      "rx_next_reassembly r1 = rx_next_reassembly rc" "common r1 = common rc"
    by (subst r1(7), simp)+
  show ?thesis
    by (rule that [of r' r1]) (use d(1) r1 flds same in \<open>simp_all add: um_rx_frame_def\<close>)
qed

lemma um_sync_first:
  assumes sync: "um_sync r t ((0, D) # q)" and pdu: "um_pdu_bytes (sn_field_length r) True False t 0 (take (nat k) D) pdu"
    and k: "0 < k" "k < int (length D)" "int (length D) \<le> NR_SDU_MAX"
  obtains r' where "nr_rlc_entity_um_recv_pdu r pdu = Inr r'" "um_sync r' t ((k, D) # q)"
    "calls (common r') = calls (common r)" "sn_field_length r' = sn_field_length r" "sn_modulus r' = sn_modulus r"
proof -
  let ?data = "take (nat k) D"
  have dl: "int (length ?data) = k" "?data \<noteq> []" using k by auto
  define p where "p = nr_rlc_new_pdu t 0 True False ?data"
  obtain r1 r' where r1: "nr_rlc_entity_um_recv_pdu r pdu = Inr r'" "um_reception_actions r1 p = Inr r'"
    "um_rx_inv r'" "um_rx_leak r' = 0" and fr: "rx_maxsize r' = rx_maxsize r" "sn_field_length r' = sn_field_length r"
    "sn_modulus r' = sn_modulus r" and ok1: "um_rx_list_ok (max (window_size r) (um_key r t + 1)) r1"
    and ins: "um_block r1 t = insert_by_so p (um_block r t)" "set (rx_list r1) = insert p (set (rx_list r))"
    and flds: "window_size r1 = window_size r" "sn_modulus r1 = sn_modulus r" "rx_next_highest r1 = rx_next_highest r"
    "rx_next_reassembly r1 = rx_next_reassembly r" "calls (common r1) = calls (common r)"
    by (rule um_sync_recv [OF sync pdu _ _ _ _ dl(2) _ p_def]) (use dl(1) k in \<open>auto simp: um_offset_def\<close>)
  have st: "rx_next_highest r = t" "rx_next_reassembly r = t" "um_rx_list_ok (window_size r) r"
      "\<forall>p \<in> set (rx_list r). pdu_sn p \<noteq> t \<longrightarrow> pdu_data p = None" "NR_SDU_MAX \<le> rx_maxsize r"
    using sync by (auto simp: um_sync_def um_offset_def um_rx_inv_def)
  have cfg: "um_cfg r" "um_cfg r1" and t: "0 \<le> t" "t < sn_modulus r"
    using st(2,3) ok1 by (auto simp: um_rx_list_ok_def)
  have kt: "um_key r t = window_size r" "um_key r1 t = window_size r1"
    using um_key_highest [OF cfg(1)] um_key_highest [OF cfg(2)] st(1) flds by auto
  have "um_block r t = []" using st(3) kt(1) by (fastforce simp: um_rx_list_ok_def filter_empty_conv)
  then have blk1: "um_block r1 t = [p]" using ins(1) by simp
  have sorted1: "sorted_wrt (pdu_ordered (um_key r1)) (rx_list r1)" using ok1 by (simp add: um_rx_list_ok_def)
  have nf: "\<not> um_sdu_full r1 t"
    unfolding um_sdu_full_iff [OF sorted1] blk1 by (simp add: p_def nr_rlc_new_pdu_def)
  define r2 where "r2 = um_discard_out_of_window (r1\<lparr>rx_next_highest := (t + 1) smod sn_modulus r1\<rparr>) (rx_list r1)"
  obtain st2 where r2: "r2 = r1\<lparr>rx_next_highest := (t + 1) mod sn_modulus r1, common := (common r1)\<lparr>stats := st2\<rparr>,
       rx_size := rx_size r2, rx_list := filter (\<lambda>p. um_key r2 (pdu_sn p) < window_size r1) (rx_list r1)\<rparr>"
    "\<And>a. um_key r2 a = (if um_key r1 t + 1 - window_size r1 \<le> um_key r1 a
        then um_key r1 a - (um_key r1 t + 1 - window_size r1) else um_key r1 a - (um_key r1 t + 1 - window_size r1) + sn_modulus r1)"
    by (rule um_move_window [OF ok1 _ _ _ _ r2_def]) (use t kt flds in auto)
  have f2: "rx_next_highest r2 = (t + 1) mod sn_modulus r1" "rx_next_reassembly r2 = t" "calls (common r2) = calls (common r)"
      "rx_list r2 = filter (\<lambda>p. um_key r2 (pdu_sn p) < window_size r1) (rx_list r1)" "sn_modulus r2 = sn_modulus r1"
      "window_size r2 = window_size r1" "sn_field_length r2 = sn_field_length r1"
    by (subst r2(1), simp add: flds st(2))+
  have W: "1 \<le> window_size r1" using cfg(2) by (auto simp: um_cfg_def)
  have k2: "um_key r2 t = window_size r1 - 1" unfolding r2(2) kt(2) using W by simp
  have cfg2: "um_cfg r2" using cfg(2) f2 by (auto simp: um_cfg_def)
  have hk2: "0 \<le> rx_next_highest r2" "rx_next_highest r2 < sn_modulus r2" using cfg2 by (auto simp: f2(1,5) um_cfg_def)
  have cmp: "um_sn_compare_rx r1 t (rx_next_highest r1) = 0" "um_sn_compare_rx r2 (rx_next_reassembly r2) (rx_next_highest r2) = -1"
  proof -
    show "um_sn_compare_rx r1 t (rx_next_highest r1) = 0" using flds st(1) by (simp add: um_sn_compare_rx_def)
    show "um_sn_compare_rx r2 (rx_next_reassembly r2) (rx_next_highest r2) = -1"
      using um_sn_compare_rx_eq [OF cfg2 _ hk2(1) hk2, of t] um_key_highest [OF cfg2] k2 f2(2,6) t(1) by simp
  qed
  have acts: "um_sdu_actions r1 t = Inr r2"
    using nf cmp by (simp add: um_sdu_actions_def Let_def r2_def [symmetric])
  have r': "r' = um_timer_start (um_timer_stop r2)"
    using r1(2) acts by (simp add: um_reception_actions_def p_def nr_rlc_new_pdu_def)
  have blk: "um_block r' t = [p]"
    unfolding r' um_timers_same f2(4) filter_filter using blk1 k2
    by (subst (asm) filter_cong [of "rx_list r1" "rx_list r1" _ "\<lambda>q. um_key r2 (pdu_sn q) < window_size r1 \<and> pdu_sn q = t"])
      (auto simp: conj_commute)
  have seg: "seg_of D p" "pdu_so p = 0" "pdu_size p = k"
    using k dl by (auto simp: p_def nr_rlc_new_pdu_def seg_of_def)
  have del: "\<forall>p \<in> set (rx_list r'). pdu_sn p \<noteq> t \<longrightarrow> pdu_data p = None"
    using st(4) ins(2) by (auto simp: r' um_timers_same f2(4)) (simp add: p_def nr_rlc_new_pdu_def)
  have nx: "rx_next_reassembly r' = t" "rx_next_highest r' = (t + 1) mod sn_modulus r'"
    using f2 flds fr by (simp_all add: r' um_timers_same)
  have "um_sync r' t ((k, D) # q)"
    unfolding um_sync_def um_offset_def blk using r1(3,4) st(5) seg k fr nx del
    by (simp add: covered_def)
  moreover have "calls (common r') = calls (common r)" using f2(3) by (simp add: r' um_timers_same)
  ultimately show ?thesis using that [of r'] r1(1) fr by simp
qed

text \<open>Facts shared by the segments that follow the first one.\<close>

lemma insert_by_so_last: "\<forall>q \<in> set b. pdu_so q \<le> pdu_so p \<Longrightarrow> insert_by_so p b = b @ [p]"
  by (induction b) auto

lemma no_last_not_full: "\<forall>p \<in> set b. \<not> pdu_is_last p \<Longrightarrow> \<not> full_scan n b"
  by (induction b arbitrary: n) (auto simp: Let_def)

lemma um_sync_more:
  assumes sync: "um_sync r t ((so, D) # q)"
    and pdu: "um_pdu_bytes (sn_field_length r) False (so + k = int (length D)) t so (take (nat k) (drop (nat so) D)) pdu"
    and k: "0 < so" "0 < k" "so + k \<le> int (length D)" "int (length D) \<le> NR_SDU_MAX"
  obtains r1 r' where "nr_rlc_entity_um_recv_pdu r pdu = Inr r'"
    "res_bind (um_sdu_actions r1 t) (\<lambda>e. Inr (um_timer_start (um_timer_stop e))) = Inr r'"
    "um_rx_inv r'" "um_rx_leak r' = 0" "rx_maxsize r' = rx_maxsize r" "sn_field_length r' = sn_field_length r"
    "sn_modulus r' = sn_modulus r" "um_rx_list_ok (window_size r1) r1"
    "\<forall>p \<in> set (um_block r1 t). seg_of D p \<and> pdu_so p + pdu_size p \<le> so + k"
    "\<forall>i \<in> {0..<so + k}. covered (um_block r1 t) i" "(\<Sum>p\<leftarrow>um_block r1 t. pdu_size p) = so + k"
    "\<forall>p \<in> set (rx_list r1). pdu_sn p \<noteq> t \<longrightarrow> pdu_data p = None"
    "um_key r1 t = window_size r1 - 1" "rx_next_highest r1 = (t + 1) mod sn_modulus r1"
    "rx_next_reassembly r1 = t" "calls (common r1) = calls (common r)" "sn_modulus r1 = sn_modulus r"
    "um_cfg r1" "0 \<le> t" "t < sn_modulus r1"
proof -
  let ?data = "take (nat k) (drop (nat so) D)" and ?l = "so + k = int (length D)"
  have dl: "int (length ?data) = k" "?data \<noteq> []" using k by auto
  define p where "p = nr_rlc_new_pdu t so False ?l ?data"
  obtain r1 r' where r1: "nr_rlc_entity_um_recv_pdu r pdu = Inr r'" "um_reception_actions r1 p = Inr r'"
    "um_rx_inv r'" "um_rx_leak r' = 0" and fr: "rx_maxsize r' = rx_maxsize r" "sn_field_length r' = sn_field_length r"
    "sn_modulus r' = sn_modulus r" and ok1: "um_rx_list_ok (max (window_size r) (um_key r t + 1)) r1"
    and ins: "um_block r1 t = insert_by_so p (um_block r t)" "set (rx_list r1) = insert p (set (rx_list r))"
    and flds: "window_size r1 = window_size r" "sn_modulus r1 = sn_modulus r" "rx_next_highest r1 = rx_next_highest r"
    "rx_next_reassembly r1 = rx_next_reassembly r" "calls (common r1) = calls (common r)"
    by (rule um_sync_recv [OF sync pdu _ _ _ _ dl(2) _ p_def])
      (use dl(1) k in \<open>auto simp: um_offset_def NR_SDU_MAX_def\<close>)
  have st: "rx_next_highest r = (t + 1) mod sn_modulus r" "rx_next_reassembly r = t" "um_rx_list_ok (window_size r) r"
      "\<forall>p \<in> set (rx_list r). pdu_sn p \<noteq> t \<longrightarrow> pdu_data p = None"
      "\<forall>p \<in> set (um_block r t). seg_of D p \<and> pdu_so p + pdu_size p \<le> so"
      "\<forall>i \<in> {0..<so}. covered (um_block r t) i" "(\<Sum>p\<leftarrow>um_block r t. pdu_size p) = so"
    using sync k(1) by (simp_all add: um_sync_def um_offset_def um_rx_inv_def)
  have kt: "um_key r t = window_size r - 1" using um_next_reassembly(4) [OF st(3)] st(1,2) by simp
  have okw: "um_rx_list_ok (window_size r1) r1" using ok1 by (simp add: kt flds(1))
  have p: "pdu_sn p = t" "pdu_so p = so" "pdu_size p = k" "seg_of D p"
    using k dl by (auto simp: p_def nr_rlc_new_pdu_def seg_of_def)
  have "\<forall>q \<in> set (um_block r t). pdu_so q \<le> pdu_so p"
    using st(5) unfolding p by (auto simp: seg_of_def)
  then have blk: "um_block r1 t = um_block r t @ [p]" unfolding ins(1) by (rule insert_by_so_last)
  show ?thesis
  proof (rule that [OF r1(1) _ r1(3,4) fr okw])
    show "res_bind (um_sdu_actions r1 t) (\<lambda>e. Inr (um_timer_start (um_timer_stop e))) = Inr r'"
      using r1(2) by (simp add: um_reception_actions_def p(1))
    show "\<forall>p \<in> set (um_block r1 t). seg_of D p \<and> pdu_so p + pdu_size p \<le> so + k"
      unfolding blk using st(5) p k(2) by fastforce
    show "\<forall>i \<in> {0..<so + k}. covered (um_block r1 t) i"
      unfolding blk using st(6) p by (auto simp: covered_def)
    show "(\<Sum>p\<leftarrow>um_block r1 t. pdu_size p) = so + k" unfolding blk using st(7) p by simp
    show "\<forall>p \<in> set (rx_list r1). pdu_sn p \<noteq> t \<longrightarrow> pdu_data p = None" using st(4) ins(2) p(1) by auto
    show "um_key r1 t = window_size r1 - 1" using kt by (simp add: flds)
    show "um_cfg r1" "0 \<le> t" "t < sn_modulus r1" using okw st(2) flds by (auto simp: um_rx_list_ok_def)
  qed (use flds st in simp_all)
qed

lemma um_sync_middle:
  assumes sync: "um_sync r t ((so, D) # q)"
    and pdu: "um_pdu_bytes (sn_field_length r) False False t so (take (nat k) (drop (nat so) D)) pdu"
    and k: "0 < so" "0 < k" "so + k < int (length D)" "int (length D) \<le> NR_SDU_MAX"
  obtains r' where "nr_rlc_entity_um_recv_pdu r pdu = Inr r'" "um_sync r' t ((so + k, D) # q)"
    "calls (common r') = calls (common r)" "sn_field_length r' = sn_field_length r" "sn_modulus r' = sn_modulus r"
proof -
  have l: "(so + k = int (length D)) = False" using k(3) by simp
  obtain r1 r' where r1: "nr_rlc_entity_um_recv_pdu r pdu = Inr r'"
    "res_bind (um_sdu_actions r1 t) (\<lambda>e. Inr (um_timer_start (um_timer_stop e))) = Inr r'"
    "um_rx_inv r'" "um_rx_leak r' = 0" and fr: "rx_maxsize r' = rx_maxsize r" "sn_field_length r' = sn_field_length r"
    "sn_modulus r' = sn_modulus r" and ok: "um_rx_list_ok (window_size r1) r1"
    and segs: "\<forall>p \<in> set (um_block r1 t). seg_of D p \<and> pdu_so p + pdu_size p \<le> so + k"
    "\<forall>i \<in> {0..<so + k}. covered (um_block r1 t) i" "(\<Sum>p\<leftarrow>um_block r1 t. pdu_size p) = so + k"
    "\<forall>p \<in> set (rx_list r1). pdu_sn p \<noteq> t \<longrightarrow> pdu_data p = None"
    and st: "um_key r1 t = window_size r1 - 1" "rx_next_highest r1 = (t + 1) mod sn_modulus r1"
    "rx_next_reassembly r1 = t" "calls (common r1) = calls (common r)" "sn_modulus r1 = sn_modulus r"
    "um_cfg r1" "0 \<le> t" "t < sn_modulus r1"
    by (rule um_sync_more [OF sync _ k(1,2) _ k(4), unfolded l, OF pdu]) (use k(3) in auto)
  have sorted: "sorted_wrt (pdu_ordered (um_key r1)) (rx_list r1)" using ok by (simp add: um_rx_list_ok_def)
  have "\<forall>p \<in> set (um_block r1 t). \<not> pdu_is_last p" using segs(1) k(3) by (fastforce simp: seg_of_def)
  then have nf: "\<not> um_sdu_full r1 t" unfolding um_sdu_full_iff [OF sorted] using no_last_not_full by blast
  have "um_sn_compare_rx r1 t (rx_next_highest r1) = um_key r1 t - window_size r1"
    using st(2,6-8) um_key_highest [of r1] by (subst um_sn_compare_rx_eq) auto
  then have "um_sdu_actions r1 t = Inr r1" using nf st(1) by (simp add: um_sdu_actions_def)
  then have r': "r' = um_timer_start (um_timer_stop r1)" using r1(2) by simp
  have "um_sync r' t ((so + k, D) # q)"
    using r1(3,4) fr segs st sync k unfolding um_sync_def
    by (simp add: um_offset_def r' um_timers_same)
  then show ?thesis using that [of r'] r1(1) fr st(4) by (simp add: r' um_timers_same)
qed

lemma um_sync_last:
  assumes sync: "um_sync r t ((so, D) # q)" and q: "um_offset q = 0"
    and pdu: "um_pdu_bytes (sn_field_length r) False True t so (drop (nat so) D) pdu"
    and k: "0 < so" "so < int (length D)" "int (length D) \<le> NR_SDU_MAX"
  obtains r' where "nr_rlc_entity_um_recv_pdu r pdu = Inr r'" "um_sync r' ((t + 1) mod sn_modulus r) q"
    "calls (common r') = calls (common r) @ [Deliver_sdu D]" "sn_field_length r' = sn_field_length r" "sn_modulus r' = sn_modulus r"
proof -
  let ?k = "int (length D) - so"
  have l: "(so + ?k = int (length D)) = True" and tk: "take (nat ?k) (drop (nat so) D) = drop (nat so) D" using k by auto
  have sk: "so + ?k = int (length D)" by simp
  obtain r1 r' where r1: "nr_rlc_entity_um_recv_pdu r pdu = Inr r'"
    "res_bind (um_sdu_actions r1 t) (\<lambda>e. Inr (um_timer_start (um_timer_stop e))) = Inr r'"
    "um_rx_inv r'" "um_rx_leak r' = 0" and fr: "rx_maxsize r' = rx_maxsize r" "sn_field_length r' = sn_field_length r"
    "sn_modulus r' = sn_modulus r" and ok: "um_rx_list_ok (window_size r1) r1"
    and segs: "\<forall>p \<in> set (um_block r1 t). seg_of D p \<and> pdu_so p + pdu_size p \<le> so + ?k"
    "\<forall>i \<in> {0..<so + ?k}. covered (um_block r1 t) i"
    "\<forall>p \<in> set (rx_list r1). pdu_sn p \<noteq> t \<longrightarrow> pdu_data p = None"
    and st: "um_key r1 t = window_size r1 - 1" "rx_next_highest r1 = (t + 1) mod sn_modulus r1"
    "rx_next_reassembly r1 = t" "calls (common r1) = calls (common r)" "sn_modulus r1 = sn_modulus r"
    "um_cfg r1" "0 \<le> t" "t < sn_modulus r1"
    by (rule um_sync_more [OF sync _ k(1) _ _ k(3), of ?k, unfolded l tk, OF pdu]) (use k in auto)
  have sorted: "sorted_wrt (pdu_ordered (um_key r1)) (rx_list r1)" and sb: "seg_block (um_block r1 t)"
    using ok by (auto simp: um_rx_list_ok_def)
  have sg: "\<forall>p \<in> set (um_block r1 t). seg_of D p" using segs(1) by blast
  have so: "sorted_wrt (\<lambda>p q. pdu_so p \<le> pdu_so q) (um_block r1 t)"
    using sorted_wrt_filter [OF sorted]
    by (rule sorted_wrt_mono_rel [rotated]) (auto simp: pdu_ordered_def)
  have scan: "full_scan (-1) (um_block r1 t)"
    using covered_full_scan [OF sg so, of 0] segs(2) k unfolding sk by (cases "D = []") auto
  then have full: "um_sdu_full r1 t"
    unfolding um_sdu_full_iff [OF sorted] using sg by (cases "um_block r1 t") (auto simp: seg_of_def)
  have re: "reassemble_loop [] False (um_block r1 t) = Inr (D, False)"
    using full_scan_reassembles [OF sg, of 0] scan k by simp
  obtain sdu bad c where c: "reassemble_loop [] False (um_block r1 t) = Inr (sdu, bad)"
    "um_reassemble_and_deliver r1 t = Inr (r1\<lparr>common := c, rx_list := map (um_clear t) (rx_list r1),
       rx_size := rx_size r1 - (\<Sum>p\<leftarrow>um_block r1 t. pdu_size p)\<rparr>)" (is "_ = Inr ?r2")
    "calls c = (if bad then calls (common r1) else calls (common r1) @ [Deliver_sdu sdu])"
    by (rule um_reassemble_eq [OF sorted full sb])
  have calls: "calls c = calls (common r) @ [Deliver_sdu D]" using c(1,3) re st(4) by simp
  note ok2 = um_reassemble_ok [OF ok full refl, of c]
  have M: "0 < sn_modulus r1" "window_size r1 < sn_modulus r1" using st(6) by (auto simp: um_cfg_def)
  have key2: "um_key ?r2 a = um_key r1 a" for a by simp
  have pre: "um_key ?r2 t \<le> window_size ?r2" "t < sn_modulus ?r2" "um_rx_list_ok (window_size ?r2) ?r2"
    using st(1,8) ok2(1) by simp_all
  obtain sn where sn: "um_skip_delivered ?r2 t = Inr sn" "0 \<le> sn" "sn < sn_modulus ?r2"
      "um_key ?r2 t \<le> um_key ?r2 sn" "um_key ?r2 sn \<le> window_size ?r2" "\<not> um_sdu_delivered ?r2 sn"
    by (rule um_skip_ok [OF pre(3) st(7) pre(2,1)])
  have hi: "0 \<le> (t + 1) mod sn_modulus r1" "(t + 1) mod sn_modulus r1 < sn_modulus r1" using M by simp_all
  have snt: "sn = (t + 1) mod sn_modulus r1"
  proof -
    have "sn \<noteq> t" using sn(6) ok2(2) by blast
    then have "um_key r1 sn \<noteq> um_key r1 t" using sn(2,3) st(7,8) M sn_key_eq_iff by simp
    then have "um_key r1 sn = um_key r1 ((t + 1) mod sn_modulus r1)"
      using sn(4,5) st(1,2) um_key_highest [OF st(6)] unfolding key2 by simp
    then show ?thesis using sn(2,3) hi sn_key_eq_iff by simp
  qed
  have "um_sdu_actions r1 t = Inr (?r2\<lparr>rx_next_reassembly := sn\<rparr>)"
    unfolding um_sdu_actions_def using full c(2) sn(1) st(3) by simp
  then have r': "r' = um_timer_start (um_timer_stop (?r2\<lparr>rx_next_reassembly := sn\<rparr>))" using r1(2) by simp
  have del: "\<forall>p \<in> set (rx_list r'). pdu_data p = None"
    using segs(3) by (auto simp: r' um_timers_same)
  have nx: "rx_next_reassembly r' = (t + 1) mod sn_modulus r" "rx_next_highest r' = (t + 1) mod sn_modulus r"
      "calls (common r') = calls (common r) @ [Deliver_sdu D]"
    using snt st(2,5) calls by (simp_all add: r' um_timers_same)
  have "NR_SDU_MAX \<le> rx_maxsize r" using sync by (simp add: um_sync_def)
  then have "um_sync r' ((t + 1) mod sn_modulus r) q"
    unfolding um_sync_def using r1(3,4) fr nx q del by simp
  then show ?thesis using that [of r'] r1(1) fr nx(3) by simp
qed

lemma um_sync_whole:
  assumes sync: "um_sync r t ((0, D) # q)" and q: "um_offset q = 0"
    and pdu: "um_pdu_bytes (sn_field_length r) True True t 0 D pdu" and D: "D \<noteq> []"
  obtains r' where "nr_rlc_entity_um_recv_pdu r pdu = Inr r'" "um_sync r' t q"
    "calls (common r') = calls (common r) @ [Deliver_sdu D]" "sn_field_length r' = sn_field_length r" "sn_modulus r' = sn_modulus r"
proof -
  have "um_cfg r" using sync by (auto simp: um_sync_def um_rx_inv_def um_rx_list_ok_def)
  then obtain c where c: "nr_rlc_entity_um_recv_pdu r pdu = Inr (r\<lparr>common := c\<rparr>)"
    "calls c = calls (common r) @ [Deliver_sdu D]"
    using um_recv_whole [OF _ pdu D] by metis
  have "um_rx_inv (r\<lparr>common := c\<rparr>)" "um_rx_leak (r\<lparr>common := c\<rparr>) = um_rx_leak r"
    using sync by (auto simp: um_sync_def um_rx_inv_def um_rx_list_ok_def um_cfg_def um_rx_leak_def)
  then have "um_sync (r\<lparr>common := c\<rparr>) t q"
    using sync q by (simp add: um_sync_def um_offset_def [of "_ # _"])
  then show ?thesis using that [OF c(1)] c(2) by simp
qed

section \<open>The channel\<close>

text \<open>
  A sender and a receiver over a loss-free link: every PDU the sender produces reaches the
  receiver.
\<close>

fun um_channel :: "rlc_request list \<Rightarrow> nr_rlc_entity_um \<times> nr_rlc_entity_um
    \<Rightarrow> (nr_rlc_entity_um \<times> nr_rlc_entity_um) res" where
  "um_channel [] er = Inr er"
| "um_channel (Put_sdu now b sdu_id # ops) (e, r) =
     res_bind (nr_rlc_entity_um_recv_sdu now e b sdu_id) (\<lambda>e'. um_channel ops (e', r))"
| "um_channel (Get_pdu now buf # ops) (e, r) =
     res_bind (nr_rlc_entity_um_generate_pdu now e buf) (\<lambda>(n, buf', e').
     res_bind (if n = 0 then Inr r else nr_rlc_entity_um_recv_pdu r (take (nat n) buf')) (\<lambda>r'.
     um_channel ops (e', r')))"

text \<open>
  The specification: a bounded queue of SDUs, the first of which may have been sent in part.
  A grant sends the rest of the first SDU if it fits, and as much of it as fits otherwise.
  The result is the SDUs accepted, the SDUs delivered and the queue.
\<close>

definition um_grant :: "int \<Rightarrow> int \<Rightarrow> (int \<times> byte list) list \<Rightarrow> byte list list \<times> (int \<times> byte list) list" where
  "um_grant n room q =
     (case q of
        [] \<Rightarrow> ([], q)
      | (so, D) # q' \<Rightarrow>
          if um_hdr n (so = 0) True + 1 > room then ([], q)
          else if um_hdr n (so = 0) True + (int (length D) - so) \<le> room then ([D], q')
          else ([], (so + (room - um_hdr n (so = 0) False), D) # q'))"

fun um_fifo_run :: "int \<Rightarrow> int \<Rightarrow> rlc_request list \<Rightarrow> (int \<times> byte list) list
    \<Rightarrow> byte list list \<times> byte list list \<times> (int \<times> byte list) list" where
  "um_fifo_run n cap [] q = ([], [], q)"
| "um_fifo_run n cap (Put_sdu now b sdu_id # ops) q =
     (if (\<Sum>(so, D)\<leftarrow>q. int (length D) - so) + int (length b) \<le> cap
      then let (acc, del, q'') = um_fifo_run n cap ops (q @ [(0, b)]) in (b # acc, del, q'')
      else um_fifo_run n cap ops q)"
| "um_fifo_run n cap (Get_pdu now buf # ops) q =
     (let (out, q') = um_grant n (int (length buf)) q; (acc, del, q'') = um_fifo_run n cap ops q'
      in (acc, out @ del, q''))"

lemma um_grant_order: "um_grant n room q = (out, q') \<Longrightarrow> map snd q = out @ map snd q'"
  by (auto simp: um_grant_def split: list.splits if_splits prod.splits)

lemma um_fifo_order:
  "um_fifo_run n cap ops q = (acc, del, q') \<Longrightarrow> map snd q @ acc = del @ map snd q'"
proof (induction ops arbitrary: q acc del)
  case Nil
  then show ?case by simp
next
  case (Cons r ops)
  show ?case
  proof (cases r)
    case (Put_sdu now b sdu_id)
    with Cons.prems Cons.IH show ?thesis
      by (fastforce split: if_splits prod.splits)
  next
    case (Get_pdu now buf)
    obtain out q1 acc1 del1 q2 where g: "um_grant n (int (length buf)) q = (out, q1)"
        "um_fifo_run n cap ops q1 = (acc1, del1, q2)" by (metis prod_cases3 surj_pair)
    with Cons.prems Get_pdu have "acc = acc1" "del = out @ del1" "q2 = q'" by simp_all
    then show ?thesis using Cons.IH [OF g(2) [unfolded \<open>q2 = q'\<close>]] um_grant_order [OF g(1)] by simp
  qed
qed

text \<open>What the invariant of the sender says about its queue.\<close>

lemma um_txq_head:
  assumes "um_tx_inv d e" "tx_list e = g # l"
  shows "um_txq e = (seg_so g, sdu_bytes (mem (common e)) g) # tl (um_txq e)"
    "0 \<le> seg_so g" "seg_size g = int (length (sdu_bytes (mem (common e)) g)) - seg_so g" "0 < seg_size g"
    "seg_is_first g \<longleftrightarrow> seg_so g = 0" "seg_is_last g" "um_offset (tl (um_txq e)) = 0"
proof -
  obtain s where s: "sdu_bytes (mem (common e)) g = sdu_data s" "seg_in_sdu s g"
      "sdu_size s = int (length (sdu_data s))" "seg_is_last g"
    by (rule um_tx_head [OF assms])
  then show "0 \<le> seg_so g" "seg_size g = int (length (sdu_bytes (mem (common e)) g)) - seg_so g" "0 < seg_size g"
    "seg_is_first g \<longleftrightarrow> seg_so g = 0" "seg_is_last g"
    by (auto simp: seg_in_sdu_def)
  show "um_txq e = (seg_so g, sdu_bytes (mem (common e)) g) # tl (um_txq e)" by (simp add: um_txq_def assms)
  show "um_offset (tl (um_txq e)) = 0"
  proof (cases l)
    case (Cons h l')
    then have "seg_is_first h" using assms by (auto simp: um_tx_inv_def)
    moreover obtain s' where "seg_in_sdu s' h"
      using refs_okD [of "mem (common e)" "tx_list e" h] assms Cons by (auto simp: um_tx_inv_def)
    ultimately show ?thesis by (simp add: um_txq_def assms Cons um_offset_def seg_in_sdu_def)
  qed (simp add: um_txq_def assms um_offset_def)
qed

lemma um_txq_size:
  assumes "um_tx_inv d e"
  shows "tx_size e = (\<Sum>(so, D)\<leftarrow>um_txq e. int (length D) - so) + d"
proof -
  have "seg_size g = int (length (sdu_bytes (mem (common e)) g)) - seg_so g" if "g \<in> set (tx_list e)" for g
    using refs_okD [of "mem (common e)" "tx_list e" g] assms that
    by (auto simp: um_tx_inv_def seg_in_sdu_def sdu_bytes_def)
  then have "(\<Sum>g\<leftarrow>tx_list e. seg_size g) = (\<Sum>(so, D)\<leftarrow>um_txq e. int (length D) - so)"
    by (simp add: um_txq_def comp_def cong: map_cong)
  then show ?thesis using assms by (simp add: um_tx_inv_def)
qed

lemma um_sync_append: "um_sync r t q \<Longrightarrow> um_sync r t (q @ [(0, b)])"
  by (cases q) (auto simp: um_sync_def um_offset_def)

text \<open>A sender and a receiver in step.\<close>

definition um_linked :: "nr_rlc_entity_um \<Rightarrow> nr_rlc_entity_um \<Rightarrow> bool" where
  "um_linked e r \<longleftrightarrow> um_tx_inv 0 e \<and> um_sync r (tx_next e) (um_txq e) \<and> sn_field_length r = sn_field_length e
     \<and> sn_modulus r = sn_modulus e \<and> (\<forall>(so, D) \<in> set (um_txq e). int (length D) \<le> NR_SDU_MAX)"

lemma um_linked_put:
  assumes lk: "um_linked e r" and b: "b \<noteq> []" "int (length b) \<le> NR_SDU_MAX"
  obtains e' where "nr_rlc_entity_um_recv_sdu now e b sdu_id = Inr e'" "um_linked e' r"
    "um_txq e' = (if (\<Sum>(so, D)\<leftarrow>um_txq e. int (length D) - so) + int (length b) \<le> tx_maxsize e
       then um_txq e @ [(0, b)] else um_txq e)"
    "tx_maxsize e' = tx_maxsize e" "sn_field_length e' = sn_field_length e"
proof -
  have inv: "um_tx_inv 0 e" using lk by (simp add: um_linked_def)
  note size = um_txq_size [OF inv]
  show ?thesis
  proof (cases "tx_size e + int (length b) \<le> tx_maxsize e")
    case True
    obtain e' where e': "nr_rlc_entity_um_recv_sdu now e b sdu_id = Inr e'" "um_tx_inv 0 e'" "um_tx_frame e e'"
      "um_txq e' = um_txq e @ [(0, b)]" "tx_next e' = tx_next e"
      by (rule um_recv_sdu_accepts [OF inv b True])
    then have "um_linked e' r"
      using lk b um_sync_append by (auto simp: um_linked_def um_tx_frame_def)
    with that [OF e'(1)] e' True size show ?thesis by (simp add: um_tx_frame_def)
  next
    case False
    then have "tx_size e + int (length b) > tx_maxsize e" by simp
    from um_recv_sdu_rejects [OF inv b(2) this] obtain e' where e':
      "nr_rlc_entity_um_recv_sdu now e b sdu_id = Inr e'" "um_tx_inv 0 e'" "um_tx_frame e e'"
      "um_txq e' = um_txq e" "tx_next e' = tx_next e" by metis
    then have "um_linked e' r" using lk by (auto simp: um_linked_def um_tx_frame_def)
    with that [OF e'(1)] e' False size show ?thesis by (simp add: um_tx_frame_def)
  qed
qed

lemma um_linked_get:
  assumes lk: "um_linked e r" and buf: "length buf \<noteq> 2 \<or> sn_field_length e = 6"
  obtains n buf' e' r' out where "nr_rlc_entity_um_generate_pdu now e buf = Inr (n, buf', e')"
    "(if n = 0 then Inr r else nr_rlc_entity_um_recv_pdu r (take (nat n) buf')) = Inr r'" "um_linked e' r'"
    "um_grant (sn_field_length e) (int (length buf)) (um_txq e) = (out, um_txq e')"
    "calls (common r') = calls (common r) @ map Deliver_sdu out"
    "tx_maxsize e' = tx_maxsize e" "sn_field_length e' = sn_field_length e"
proof (cases "tx_list e")
  case Nil
  then have "nr_rlc_entity_um_generate_pdu now e buf = Inr (0, buf, e)" by (intro um_generate_nothing) simp
  with that [of 0 buf e r "[]"] lk Nil show ?thesis by (simp add: um_grant_def um_txq_def)
next
  case (Cons g l)
  have inv: "um_tx_inv 0 e" and sync: "um_sync r (tx_next e) (um_txq e)" and same: "sn_field_length r = sn_field_length e"
      "sn_modulus r = sn_modulus e" and mx: "\<forall>(so, D) \<in> set (um_txq e). int (length D) \<le> NR_SDU_MAX"
    using lk by (auto simp: um_linked_def)
  let ?D = "sdu_bytes (mem (common e)) g" and ?n = "sn_field_length e"
  note hd = um_txq_head [OF inv Cons]
  have sync: "um_sync r (tx_next e) ((seg_so g, ?D) # tl (um_txq e))" using sync hd(1) by simp
  have "(seg_so g, ?D) \<in> set (um_txq e)" by (subst hd(1)) simp
  then have D: "int (length ?D) \<le> NR_SDU_MAX" "?D \<noteq> []" using mx hd(2-4) by auto
  have mx': "\<forall>(so, D) \<in> set (tl (um_txq e)). int (length D) \<le> NR_SDU_MAX"
    using mx by (auto dest: list.set_sel(2) [rotated] simp: um_txq_def Cons)
  have h: "um_compute_pdu_header_size e g = um_hdr ?n (seg_so g = 0) True" using hd(5,6) by (simp add: um_compute_hdr)
  have frame: "sn_modulus e' = sn_modulus e" "sn_field_length e' = ?n" "tx_maxsize e' = tx_maxsize e" if "um_tx_frame e e'" for e'
    using that by (simp_all add: um_tx_frame_def)
  consider (none) "um_hdr ?n (seg_so g = 0) True + 1 > int (length buf)"
    | (rest) "um_hdr ?n (seg_so g = 0) True + 1 \<le> int (length buf)" "um_compute_pdu_header_size e g + seg_size g \<le> int (length buf)"
    | (split) "um_hdr ?n (seg_so g = 0) True + 1 \<le> int (length buf)" "um_compute_pdu_header_size e g + seg_size g > int (length buf)"
    by linarith
  then show ?thesis
  proof cases
    case none
    then have "nr_rlc_entity_um_generate_pdu now e buf = Inr (0, buf, e)" by (intro um_generate_nothing) (simp add: Cons h)
    moreover have "um_grant ?n (int (length buf)) (um_txq e) = ([], um_txq e)"
      using none by (subst (1 2) hd(1)) (simp add: um_grant_def)
    ultimately show ?thesis using that [of 0 buf e r "[]"] lk by simp
  next
    case rest
    obtain pdu e' where gen: "nr_rlc_entity_um_generate_pdu now e buf = Inr (int (length pdu), pdu @ drop (length pdu) buf, e')"
      and bytes: "um_pdu_bytes ?n (seg_so g = 0) True (tx_next e) (seg_so g) (drop (nat (seg_so g)) ?D) pdu"
      and e': "um_tx_inv 0 e'" "um_tx_frame e e'" "um_txq e' = tl (um_txq e)" "pdu \<noteq> []"
        "tx_next e' = (if seg_so g = 0 then tx_next e else (tx_next e + 1) mod sn_modulus e)"
      by (rule um_generate_rest [OF inv Cons rest(2), of now])
    obtain r' where r': "nr_rlc_entity_um_recv_pdu r pdu = Inr r'" "um_sync r' (tx_next e') (tl (um_txq e))"
      "calls (common r') = calls (common r) @ [Deliver_sdu ?D]" "sn_field_length r' = sn_field_length r" "sn_modulus r' = sn_modulus r"
    proof (cases "seg_so g = 0")
      case True
      then show ?thesis
        using um_sync_whole [of r "tx_next e" ?D "tl (um_txq e)" pdu] sync hd(7) bytes D(2) e'(5) same that by auto
    next
      case False
      then have "0 < seg_so g" "seg_so g < int (length ?D)" using hd(2-4) by auto
      with False show ?thesis
        using um_sync_last [OF sync hd(7), of pdu] bytes D(1) e'(5) same that by auto
    qed
    have "um_linked e' r'" using r' e' same frame [OF e'(2)] mx' by (simp add: um_linked_def)
    moreover have "um_grant ?n (int (length buf)) (um_txq e) = ([?D], um_txq e')"
      using rest h hd(3) e'(3) by (subst hd(1)) (simp add: um_grant_def)
    ultimately show ?thesis
      using that [OF gen _ _ _ _ frame(3,2) [OF e'(2)], of r' "[?D]"] r'(1,3) e'(4) by simp
  next
    case split
    have room: "um_hdr ?n (seg_is_first g) False + 1 \<le> int (length buf)"
      using split(1) buf by (auto simp: um_hdr_def hd(5) split: if_splits)
    define k where "k = int (length buf) - um_hdr ?n (seg_is_first g) False"
    obtain e' pdu where gen: "nr_rlc_entity_um_generate_pdu now e buf = Inr (int (length buf), pdu, e')" "length pdu = length buf"
      and bytes: "um_pdu_bytes ?n (seg_so g = 0) False (tx_next e) (seg_so g) (take (nat k) (drop (nat (seg_so g)) ?D)) pdu"
      and e': "um_tx_inv 0 e'" "um_tx_frame e e'" "tx_next e' = tx_next e"
      "um_txq e' = (seg_so g + k, ?D) # tl (um_txq e)" and k: "0 < k" "k < int (length ?D) - seg_so g"
      by (rule um_generate_split [OF inv Cons split(2) split(1) [folded h] room k_def, of now])
    obtain r' where r': "nr_rlc_entity_um_recv_pdu r pdu = Inr r'" "um_sync r' (tx_next e) ((seg_so g + k, ?D) # tl (um_txq e))"
      "calls (common r') = calls (common r)" "sn_field_length r' = sn_field_length r" "sn_modulus r' = sn_modulus r"
    proof (cases "seg_so g = 0")
      case True
      then show ?thesis
        using um_sync_first [of r "tx_next e" ?D "tl (um_txq e)" k pdu] sync bytes D(1) k same that by auto
    next
      case False
      then have "0 < seg_so g" using hd(2) by simp
      with False show ?thesis
        using um_sync_middle [OF sync, of k pdu] bytes D(1) k same that by auto
    qed
    have "um_linked e' r'" using r' e' same frame [OF e'(2)] mx' D(1) by (simp add: um_linked_def)
    moreover have "um_grant ?n (int (length buf)) (um_txq e) = ([], um_txq e')"
      using split h hd(3,5) e'(4) by (subst hd(1)) (simp add: um_grant_def k_def)
    moreover have "buf \<noteq> []" using split(1) um_hdr_bounds(1) [of ?n "seg_so g = 0" True] by auto
    ultimately show ?thesis
      using that [OF gen(1) _ _ _ _ frame(3,2) [OF e'(2)], of r' "[]"] r'(1,3) gen(2) by simp
  qed
qed

lemma um_channel_run:
  assumes "um_linked e r" "\<forall>a \<in> set ops. sdu_request_ok a"
    "\<forall>now buf. Get_pdu now buf \<in> set ops \<longrightarrow> length buf \<noteq> 2 \<or> sn_field_length e = 6"
  shows "\<exists>e' r' acc del. um_channel ops (e, r) = Inr (e', r') \<and> um_linked e' r'
     \<and> um_fifo_run (sn_field_length e) (tx_maxsize e) ops (um_txq e) = (acc, del, um_txq e')
     \<and> calls (common r') = calls (common r) @ map Deliver_sdu del"
  using assms
proof (induction ops arbitrary: e r)
  case Nil
  then show ?case by simp
next
  case (Cons a ops)
  show ?case
  proof (cases a)
    case (Put_sdu now b sdu_id)
    then have b: "b \<noteq> []" "int (length b) \<le> NR_SDU_MAX" using Cons.prems(2) by (auto simp: sdu_request_ok_def)
    obtain e1 where e1: "nr_rlc_entity_um_recv_sdu now e b sdu_id = Inr e1" "um_linked e1 r"
      "um_txq e1 = (if (\<Sum>(so, D)\<leftarrow>um_txq e. int (length D) - so) + int (length b) \<le> tx_maxsize e
         then um_txq e @ [(0, b)] else um_txq e)"
      "tx_maxsize e1 = tx_maxsize e" "sn_field_length e1 = sn_field_length e"
      by (rule um_linked_put [OF Cons.prems(1) b, of now sdu_id])
    from Cons.IH [OF e1(2)] Cons.prems e1(4,5) obtain e' r' acc del where
      "um_channel ops (e1, r) = Inr (e', r')" "um_linked e' r'"
      "um_fifo_run (sn_field_length e) (tx_maxsize e) ops (um_txq e1) = (acc, del, um_txq e')"
      "calls (common r') = calls (common r) @ map Deliver_sdu del" by auto
    with e1(1,3) Put_sdu show ?thesis by (auto split: if_splits)
  next
    case (Get_pdu now buf)
    then have buf: "length buf \<noteq> 2 \<or> sn_field_length e = 6" using Cons.prems(3) by auto
    obtain n buf' e1 r1 out where g: "nr_rlc_entity_um_generate_pdu now e buf = Inr (n, buf', e1)"
      "(if n = 0 then Inr r else nr_rlc_entity_um_recv_pdu r (take (nat n) buf')) = Inr r1" "um_linked e1 r1"
      "um_grant (sn_field_length e) (int (length buf)) (um_txq e) = (out, um_txq e1)"
      "calls (common r1) = calls (common r) @ map Deliver_sdu out"
      "tx_maxsize e1 = tx_maxsize e" "sn_field_length e1 = sn_field_length e"
      by (rule um_linked_get [OF Cons.prems(1) buf, of now])
    from Cons.IH [OF g(3)] Cons.prems g(6,7) obtain e' r' acc del where
      "um_channel ops (e1, r1) = Inr (e', r')" "um_linked e' r'"
      "um_fifo_run (sn_field_length e) (tx_maxsize e) ops (um_txq e1) = (acc, del, um_txq e')"
      "calls (common r') = calls (common r1) @ map Deliver_sdu del" by auto
    with g Get_pdu show ?thesis by auto
  qed
qed

lemma new_um_linked:
  assumes e: "new_nr_rlc_entity_um rm tm tr n = Inr e" and r: "new_nr_rlc_entity_um rm' tm' tr' n = Inr r" "NR_SDU_MAX \<le> rm'"
  shows "um_linked e r" "um_txq e = []" "sn_field_length e = n" "tx_maxsize e = tm" "calls (common r) = []"
proof -
  have n: "n = 6 \<or> n = 12" using e by (auto simp: new_nr_rlc_entity_um_def split: if_splits)
  obtain e0 where e0: "new_nr_rlc_entity_um rm tm tr n = Inr e0" "um_rx_inv e0" "sdus (mem (common e0)) = Map.empty"
    "tx_list e0 = []" "tx_end e0 = None" "tx_size e0 = 0" "bs_tx_size (bstatus (common e0)) = 0" "tx_maxsize e0 = tm"
    "sn_field_length e0 = n" "time_average_wf (txsdu_avg_time_to_tx (common e0))" "tx_next e0 = 0"
    by (rule new_um_ok [OF n])
  obtain r0 where r0: "new_nr_rlc_entity_um rm' tm' tr' n = Inr r0" "um_rx_inv r0" "um_rx_leak r0 = 0"
    "calls (common r0) = []" "rx_maxsize r0 = rm'" "sn_field_length r0 = n" "rx_next_reassembly r0 = 0"
    "rx_next_highest r0 = 0" "rx_list r0 = []"
    by (rule new_um_ok [OF n])
  have "e0 = e" "r0 = r" using e r(1) e0(1) r0(1) by simp_all
  note e0 = e0 [unfolded this(1)] and r0 = r0 [unfolded this(2)]
  have cfg: "um_cfg e" "um_cfg r" using e0(2) r0(2) by (simp_all add: um_rx_inv_def um_rx_list_ok_def)
  then have M: "sn_modulus r = sn_modulus e" "0 < sn_modulus e" using e0(9) r0(6) n by (auto simp: um_cfg_def)
  show q: "um_txq e = []" "sn_field_length e = n" "tx_maxsize e = tm" "calls (common r) = []"
    using e0 r0 by (simp_all add: um_txq_def)
  have "um_tx_inv 0 e" using e0 cfg M by (simp add: um_tx_inv_def refs_ok_empty tail_ok_def)
  moreover have "um_sync r 0 []" using r0 r(2) by (simp add: um_sync_def um_offset_def)
  ultimately show "um_linked e r" using q e0(9,11) r0(6) M by (simp add: um_linked_def)
qed

section \<open>Properties\<close>

text \<open>
  (C20) Unacknowledged mode end to end. Let two fresh entities with the same sequence-number
  length be linked by a loss-free channel, and let the upper layer and the MAC of the sender
  make any sequence of requests: non-empty SDUs of at most \<open>NR_SDU_MAX\<close> bytes, and grants of
  any size (except exactly two bytes with 12-bit numbers). No operation
  faults, the pair behaves as the bounded segmenting queue of the specification, and the
  receiver hands over exactly the SDUs the specification delivers: the accepted SDUs in
  order, each byte for byte, up to those still queued at the sender.
\<close>

theorem um_channel_delivers:
  assumes "new_nr_rlc_entity_um rm tm tr n = Inr e" "new_nr_rlc_entity_um rm' tm' tr' n = Inr r" "NR_SDU_MAX \<le> rm'"
    and "\<forall>a \<in> set ops. sdu_request_ok a"
    and "\<forall>now buf. Get_pdu now buf \<in> set ops \<longrightarrow> length buf \<noteq> 2 \<or> n = 6"
  shows "\<exists>e' r' acc del. um_channel ops (e, r) = Inr (e', r')
     \<and> um_fifo_run n tm ops [] = (acc, del, um_txq e')
     \<and> calls (common r') = map Deliver_sdu del \<and> acc = del @ map snd (um_txq e')"
proof -
  note new = new_um_linked [OF assms(1-3)]
  from um_channel_run [OF new(1) assms(4)] assms(5) new obtain e' r' acc del where
    "um_channel ops (e, r) = Inr (e', r')" "um_fifo_run n tm ops [] = (acc, del, um_txq e')"
    "calls (common r') = map Deliver_sdu del" by auto
  with um_fifo_order [OF this(2)] show ?thesis by auto
qed

theorem um_channel_delivers_witness:
  "\<exists>e r e' r'. new_nr_rlc_entity_um 16000 100 10 6 = Inr e
     \<and> um_channel [Put_sdu 0 [1, 2, 3, 4] 7, Put_sdu 1 [5] 8, Get_pdu 2 [0, 0, 0], Get_pdu 3 [0, 0], Get_pdu 4 [0, 0, 0, 0, 0],
         Get_pdu 5 [0, 0, 0]] (e, r) = Inr (e', r')
     \<and> calls (common r') = [Deliver_sdu [1, 2, 3, 4], Deliver_sdu [5]]"
proof -
  obtain e where e: "new_nr_rlc_entity_um 16000 100 10 6 = Inr e" by (rule new_um_ok [of 6]) simp
  show ?thesis
    using e um_channel_delivers [OF e e, of "[Put_sdu 0 [1, 2, 3, 4] 7, Put_sdu 1 [5] 8, Get_pdu 2 [0, 0, 0], Get_pdu 3 [0, 0],
      Get_pdu 4 [0, 0, 0, 0, 0], Get_pdu 5 [0, 0, 0]]"]
    by (fastforce simp: sdu_request_ok_def NR_SDU_MAX_def um_grant_def um_hdr_def)
qed

text \<open>
  (C32) Discarding an SDU that has not been sent takes it off the queue and out of the buffer
  status, but leaves \<open>tx_size\<close>, hence the space available for new SDUs, as it was: what
  \<open>tx_size\<close> counts beyond the queued bytes grows by the bytes discarded.
\<close>

theorem um_discard_keeps_budget:
  assumes inv: "um_tx_inv d e" and found: "um_find_sdu (mem (common e)) sdu_id (tx_list e) = Inr (pre, g # rest)"
    and whole: "seg_is_first g" "seg_is_last g"
  shows "\<exists>e' p b r. nr_rlc_entity_um_discard_sdu e sdu_id = Inr e' \<and> um_txq e = p @ (0, b) # r \<and> um_txq e' = p @ r
     \<and> um_tx_inv (d + int (length b)) e'
     \<and> nr_rlc_entity_um_available_tx_space e' = nr_rlc_entity_um_available_tx_space e"
proof -
  obtain e' where e': "nr_rlc_entity_um_discard_sdu e sdu_id = Inr e'" "um_tx_frame e e'" "tx_next e' = tx_next e"
    "(e' = e \<and> um_tx_inv d e' \<and> (\<forall>pre g rest. um_find_sdu (mem (common e)) sdu_id (tx_list e) = Inr (pre, g # rest)
          \<longrightarrow> \<not> (seg_is_first g \<and> seg_is_last g)))
     \<or> (\<exists>pre b rest. um_txq e = pre @ (0, b) # rest \<and> um_txq e' = pre @ rest
          \<and> um_tx_inv (d + int (length b)) e' \<and> tx_size e' = tx_size e)"
    by (rule um_discard_ok [OF inv])
  then show ?thesis
    using found whole by (auto simp: nr_rlc_entity_um_available_tx_space_def um_tx_frame_def)
qed

text \<open>A sender with one queued SDU, for the witnesses below.\<close>

lemma um_one_sdu:
  assumes "n = 6 \<or> n = 12" "b \<noteq> []" "int (length b) \<le> 100"
  obtains e e1 g s where "new_nr_rlc_entity_um 16000 100 10 n = Inr e" "nr_rlc_entity_um_recv_sdu 0 e b sdu_id = Inr e1"
    "um_tx_inv 0 e1" "um_txq e1 = [(0, b)]" "tx_list e1 = [g]" "sdus (mem (common e1)) (seg_sdu g) = Some s"
    "seg_is_first g" "seg_is_last g" "sn_field_length e1 = n" "tx_size e1 = int (length b)"
proof -
  obtain e where e: "new_nr_rlc_entity_um 16000 100 10 n = Inr e" "tx_maxsize e = 100" "sn_field_length e = n"
    by (rule new_um_ok [OF assms(1)])
  have lk: "um_linked e e" "um_txq e = []" using new_um_linked [OF e(1) e(1)] by (simp_all add: NR_SDU_MAX_def)
  then have inv: "um_tx_inv 0 e" by (simp add: um_linked_def)
  have "tx_size e = 0" using um_txq_size [OF inv] lk(2) by simp
  then obtain e1 where e1: "nr_rlc_entity_um_recv_sdu 0 e b sdu_id = Inr e1" "um_tx_inv 0 e1" "um_tx_frame e e1"
      "um_txq e1 = um_txq e @ [(0, b)]"
    using um_recv_sdu_accepts [OF inv assms(2), of 0 sdu_id] assms(3) e(2) by (auto simp: NR_SDU_MAX_def)
  then obtain g where g: "tx_list e1 = [g]" using lk(2) by (auto simp: um_txq_def)
  note hd = um_txq_head [OF e1(2) g]
  obtain s where "sdus (mem (common e1)) (seg_sdu g) = Some s" by (rule um_tx_head [OF e1(2) g])
  moreover have "seg_so g = 0" using hd(1) e1(4) lk(2) by simp
  ultimately show ?thesis
    using that [OF e(1) e1(1,2) _ g] e1(3,4) lk(2) hd(5,6) e(3) um_txq_size [OF e1(2)] by (simp add: um_tx_frame_def)
qed

theorem um_discard_keeps_budget_witness:
  "\<exists>e e1 e2. new_nr_rlc_entity_um 16000 100 10 6 = Inr e \<and> nr_rlc_entity_um_recv_sdu 0 e [1, 2, 3] 7 = Inr e1
     \<and> um_tx_inv 0 e1 \<and> (\<exists>i. nr_rlc_entity_um_discard_sdu e1 i = Inr e2 \<and> um_txq e2 = [] \<and> um_tx_inv 3 e2
     \<and> nr_rlc_entity_um_available_tx_space e2 = nr_rlc_entity_um_available_tx_space e1)"
proof -
  obtain e e1 g s where e: "new_nr_rlc_entity_um 16000 100 10 6 = Inr e" "nr_rlc_entity_um_recv_sdu 0 e [1, 2, 3] 7 = Inr e1"
    "um_tx_inv 0 e1" "um_txq e1 = [(0, [1, 2, 3])]" "tx_list e1 = [g]" "sdus (mem (common e1)) (seg_sdu g) = Some s"
    "seg_is_first g" "seg_is_last g"
    by (rule um_one_sdu [of 6 "[1, 2, 3]" 7]) simp_all
  have "um_find_sdu (mem (common e1)) (sdu_upper_layer_id s) (tx_list e1) = Inr ([], g # [])"
    using e(5,6) by (simp add: sdu_read_def)
  from um_discard_keeps_budget [OF e(3) this e(7,8)] e(4) show ?thesis
    using e(1-3) by (fastforce simp: append_eq_Cons_conv)
qed

text \<open>
  (C31) With 12-bit sequence numbers, a grant of exactly two bytes destroys the SDU at the head of
  the queue when it has more than one byte: nothing is sent, the SDU is no longer queued, and
  its bytes stay in \<open>tx_size\<close>.
\<close>

theorem um_two_byte_grant_loses_sdu:
  assumes inv: "um_tx_inv d e" and n: "sn_field_length e = 12" and q: "um_txq e = (0, D) # q" "length D > 1"
    and buf: "length buf = 2"
  shows "\<exists>e'. nr_rlc_entity_um_generate_pdu now e buf = Inr (0, buf, e') \<and> um_txq e' = q \<and> tx_size e' = tx_size e"
proof -
  obtain g l where l: "tx_list e = g # l" using q(1) by (cases "tx_list e") (auto simp: um_txq_def)
  note hd = um_txq_head [OF inv l]
  obtain s where s: "sdus (mem (common e)) (seg_sdu g) = Some s" "seg_sdu g \<notin> seg_sdu ` set l" by (rule um_tx_head [OF inv l])
  have g: "seg_so g = 0" "seg_size g = int (length D)" "seg_is_first g" "seg_is_last g"
    using hd q(1) by auto
  note pf = um_popped_facts [OF inv l s(1)]
  let ?p = "um_popped e g l s"
  have h: "um_compute_pdu_header_size e g = 1" "sn_field_length ?p = 12"
    using g n by (simp_all add: um_compute_hdr um_hdr_def um_popped_def)
  let ?e' = "common_update (mem_update (\<lambda>_. sdu_write (mem (common ?p)) (seg_sdu g)
      (s\<lparr>sdu_sn := tx_next e, sdu_ref_count := sdu_ref_count s + 1\<rparr>))) ?p"
  have "um_resegment g ?p 2 = Inr (None, g, ?e')"
    unfolding um_resegment_def sdu_read_def pf(2) using g(3) h(2) by (simp add: Let_def um_compute_hdr um_hdr_def)
  then have "nr_rlc_entity_um_generate_pdu now e buf = Inr (0, buf, ?e')"
    using um_generate_unfold [OF l s(1), of buf now] buf h(1) g(2) q(2) by simp
  moreover have "um_txq ?e' = q"
    using s q(1) by (auto simp: um_txq_def um_popped_def l sdu_bytes_def sdu_write_def)
  moreover have "tx_size ?e' = tx_size e" by (simp add: um_popped_def)
  ultimately show ?thesis by blast
qed

theorem um_two_byte_grant_loses_sdu_witness:
  "\<exists>e e1 e2. new_nr_rlc_entity_um 16000 100 10 12 = Inr e \<and> nr_rlc_entity_um_recv_sdu 0 e [1, 2, 3] 7 = Inr e1
     \<and> nr_rlc_entity_um_generate_pdu 1 e1 [0, 0] = Inr (0, [0, 0], e2) \<and> um_txq e2 = [] \<and> tx_size e2 = 3"
proof -
  obtain e e1 where e: "new_nr_rlc_entity_um 16000 100 10 12 = Inr e" "nr_rlc_entity_um_recv_sdu 0 e [1, 2, 3] 7 = Inr e1"
    "um_tx_inv 0 e1" "um_txq e1 = [(0, [1, 2, 3])]" "sn_field_length e1 = 12" "tx_size e1 = 3"
    by (rule um_one_sdu [of 12 "[1, 2, 3]" 7]) simp_all
  with um_two_byte_grant_loses_sdu [OF e(3,5,4), of "[0, 0]" 1] show ?thesis by auto
qed



end
