(* ===== verification/RLC_Rx_Manager.thy ===== *)
theory RLC_Rx_Manager
  imports RLC_Reassembly SN_Window
begin

text \<open>
  The receive buffer of the acknowledged mode (\<open>nr_rlc_rx_manager.c\<close>): a circular array with
  one slot per sequence number of the receive window, each slot the segments received for
  that number, ordered by offset.
\<close>

section \<open>The circular buffer\<close>

record nr_rlc_rx_manager =
  rxm_list :: "nr_rlc_pdu list list"
  rxm_size :: int
  rxm_start :: int
  rxm_sn_start :: int

definition nr_rlc_new_rx_manager :: "int \<Rightarrow> nr_rlc_rx_manager" where
  "nr_rlc_new_rx_manager n =
     \<lparr>rxm_list = replicate (nat n) [], rxm_size = n, rxm_start = 0, rxm_sn_start = 0\<rparr>"

fun rx_manager_clear_loop :: "nat list \<Rightarrow> nr_rlc_pdu list list \<Rightarrow> nr_rlc_pdu list list res" where
  "rx_manager_clear_loop [] l = Inr l"
| "rx_manager_clear_loop (i # is) l = res_bind (c_store l (int i) []) (rx_manager_clear_loop is)"

definition nr_rlc_clear_rx_manager :: "nr_rlc_rx_manager \<Rightarrow> nr_rlc_rx_manager res" where
  "nr_rlc_clear_rx_manager m =
     res_bind (rx_manager_clear_loop [0..<nat (rxm_size m)] (rxm_list m)) (\<lambda>l.
     Inr (m\<lparr>rxm_list := l, rxm_start := 0, rxm_sn_start := 0\<rparr>))"

definition nr_rlc_free_rx_manager :: "nr_rlc_rx_manager \<Rightarrow> unit res" where
  "nr_rlc_free_rx_manager m = res_bind (nr_rlc_clear_rx_manager m) (\<lambda>_. Inr ())"

definition get_pos :: "nr_rlc_rx_manager \<Rightarrow> int \<Rightarrow> int" where
  "get_pos m sn = (rxm_start m + (sn - rxm_sn_start m + rxm_size m * 2)) smod rxm_size m"

definition nr_rlc_rx_manager_get_pdu_from_sn ::
  "nr_rlc_rx_manager \<Rightarrow> int \<Rightarrow> nr_rlc_pdu list res" where
  "nr_rlc_rx_manager_get_pdu_from_sn m sn = c_index (rxm_list m) (get_pos m sn)"

definition nr_rlc_rx_manager_clear_pdu ::
  "nr_rlc_rx_manager \<Rightarrow> int \<Rightarrow> nr_rlc_rx_manager res" where
  "nr_rlc_rx_manager_clear_pdu m sn =
     res_bind (c_store (rxm_list m) (get_pos m sn) []) (\<lambda>l. Inr (m\<lparr>rxm_list := l\<rparr>))"

definition nr_rlc_rx_manager_advance :: "nr_rlc_rx_manager \<Rightarrow> int \<Rightarrow> nr_rlc_rx_manager" where
  "nr_rlc_rx_manager_advance m n = m\<lparr>rxm_start := (rxm_start m + n) smod rxm_size m\<rparr>"

definition nr_rlc_rx_manager_set_start :: "nr_rlc_rx_manager \<Rightarrow> int \<Rightarrow> nr_rlc_rx_manager" where
  "nr_rlc_rx_manager_set_start m sn_start = m\<lparr>rxm_sn_start := sn_start\<rparr>"

definition nr_rlc_rx_manager_add_pdu ::
  "nr_rlc_rx_manager \<Rightarrow> nr_rlc_pdu \<Rightarrow> nr_rlc_rx_manager res" where
  "nr_rlc_rx_manager_add_pdu m pdu =
     (let pos = get_pos m (pdu_sn pdu) in
      res_bind (c_index (rxm_list m) pos) (\<lambda>l.
      res_bind (c_store (rxm_list m) pos (insert_by_so pdu l)) (\<lambda>l'.
      Inr (m\<lparr>rxm_list := l'\<rparr>))))"

text \<open>
  The callers change the segments of a slot in place, through the pointer
  \<open>nr_rlc_rx_manager_get_pdu_from_sn\<close> returns: the slot then holds the changed segments.
\<close>

definition rx_manager_put ::
  "nr_rlc_rx_manager \<Rightarrow> int \<Rightarrow> nr_rlc_pdu list \<Rightarrow> nr_rlc_rx_manager res" where
  "rx_manager_put m sn l =
     res_bind (c_store (rxm_list m) (get_pos m sn) l) (\<lambda>l'. Inr (m\<lparr>rxm_list := l'\<rparr>))"

end
