(* ===== verification/RLC_AM.thy ===== *)
theory RLC_AM
  imports RLC_Rx_Manager RLC_Common
begin

text \<open>
  The acknowledged-mode entity of \<open>nr_rlc_entity_am.c\<close>: its record, the sequence-number
  comparisons and the reception of data. The other theories of the mode hold the processing of
  a status report (\<open>RLC_AM_Control\<close>), its generation (\<open>RLC_AM_Status\<close>) and the entry points
  of the entity (\<open>RLC_AM_Entity\<close>).
\<close>

section \<open>The entity\<close>

record nr_rlc_entity_am =
  common :: nr_rlc_entity
  t_poll_retransmit :: int
  t_reassembly :: int
  t_status_prohibit :: int
  poll_pdu :: int
  poll_byte :: int
  max_retx_threshold :: int
  sn_field_length :: int
  sn_modulus :: int
  window_size :: int
  rx_next :: int
  rx_next_status_trigger :: int
  rx_highest_status :: int
  rx_next_highest :: int
  status_triggered :: bool
  tx_next :: int
  tx_next_ack :: int
  poll_sn :: int
  pdu_without_poll :: int
  byte_without_poll :: int
  force_poll :: bool
  t_current :: u64
  t_log_buffer_full :: u64
  sdu_rejected :: int
  t_poll_retransmit_start :: u64
  t_reassembly_start :: u64
  t_status_prohibit_start :: u64
  rx :: nr_rlc_rx_manager
  rx_size :: int
  rx_maxsize :: int
  tx_list :: "nr_rlc_sdu_segment list"
  tx_end :: "addr option"
  tx_size :: int
  tx_maxsize :: int
  wait_list :: "nr_rlc_sdu_segment list"
  wait_end :: "addr option"
  retransmit_list :: "nr_rlc_sdu_segment list"

definition new_nr_rlc_entity_am ::
  "int \<Rightarrow> int \<Rightarrow> int \<Rightarrow> int \<Rightarrow> int \<Rightarrow> int \<Rightarrow> int \<Rightarrow> int \<Rightarrow> int \<Rightarrow> nr_rlc_entity_am res" where
  "new_nr_rlc_entity_am rx_max tx_max t_poll t_reass t_prohibit p_pdu p_byte max_retx sn_len =
     (if \<not> (sn_len = 12 \<or> sn_len = 18) then Inl Assert_fatal
      else res_bind (new_common NR_RLC_AM) (\<lambda>c.
        Inr \<lparr>common = c, t_poll_retransmit = t_poll, t_reassembly = t_reass,
             t_status_prohibit = t_prohibit, poll_pdu = p_pdu, poll_byte = p_byte,
             max_retx_threshold = max_retx, sn_field_length = sn_len,
             sn_modulus = push_bit (nat sn_len) 1, window_size = push_bit (nat sn_len) 1 sdiv 2,
             rx_next = 0, rx_next_status_trigger = 0, rx_highest_status = 0, rx_next_highest = 0,
             status_triggered = False, tx_next = 0, tx_next_ack = 0, poll_sn = 0,
             pdu_without_poll = 0, byte_without_poll = 0, force_poll = False, t_current = 0,
             t_log_buffer_full = 0, sdu_rejected = 0, t_poll_retransmit_start = 0,
             t_reassembly_start = 0, t_status_prohibit_start = 0,
             rx = nr_rlc_new_rx_manager (push_bit (nat (sn_len - 1)) 1), rx_size = 0,
             rx_maxsize = rx_max * 5, tx_list = [], tx_end = None, tx_size = 0,
             tx_maxsize = tx_max * 5, wait_list = [], wait_end = None, retransmit_list = []\<rparr>))"

definition nr_rlc_entity_am_reconfigure ::
  "nr_rlc_entity_am \<Rightarrow> int \<Rightarrow> int \<Rightarrow> int \<Rightarrow> int \<Rightarrow> int \<Rightarrow> int \<Rightarrow> int option \<Rightarrow> nr_rlc_entity_am" where
  "nr_rlc_entity_am_reconfigure e t_poll t_reass t_prohibit p_pdu p_byte max_retx sn_len =
     (let e = e\<lparr>t_poll_retransmit := t_poll, t_reassembly := t_reass,
                t_status_prohibit := t_prohibit, poll_pdu := p_pdu, poll_byte := p_byte,
                max_retx_threshold := max_retx\<rparr>
      in case sn_len of None \<Rightarrow> e | Some n \<Rightarrow> e\<lparr>sn_field_length := n\<rparr>)"

definition am_compute_pdu_header_size :: "nr_rlc_entity_am \<Rightarrow> nr_rlc_sdu_segment \<Rightarrow> int" where
  "am_compute_pdu_header_size e sdu =
     (let h = 2;
          h = (if sn_field_length e = 18 then h + 1 else h)
      in if \<not> seg_is_first sdu then h + 2 else h)"

section \<open>Sequence numbers\<close>

definition am_modulus_rx :: "nr_rlc_entity_am \<Rightarrow> int \<Rightarrow> int" where
  "am_modulus_rx e a = (let r = a - rx_next e in if r < 0 then r + sn_modulus e else r)"

definition am_modulus_tx :: "nr_rlc_entity_am \<Rightarrow> int \<Rightarrow> int" where
  "am_modulus_tx e a = (let r = a - tx_next_ack e in if r < 0 then r + sn_modulus e else r)"

definition sn_in_recv_window :: "nr_rlc_entity_am \<Rightarrow> int \<Rightarrow> bool" where
  "sn_in_recv_window e sn = (am_modulus_rx e sn < window_size e)"

definition am_sn_compare_rx :: "nr_rlc_entity_am \<Rightarrow> int \<Rightarrow> int \<Rightarrow> int" where
  "am_sn_compare_rx e a b = am_modulus_rx e a - am_modulus_rx e b"

definition am_sn_compare_tx :: "nr_rlc_entity_am \<Rightarrow> int \<Rightarrow> int \<Rightarrow> int" where
  "am_sn_compare_tx e a b = am_modulus_tx e a - am_modulus_tx e b"

text \<open>The sequence number of the SDU of a transmit segment.\<close>

definition seg_sn :: "nr_rlc_entity_am \<Rightarrow> nr_rlc_sdu_segment \<Rightarrow> int res" where
  "seg_sn e seg = res_bind (sdu_read (mem (common e)) (seg_sdu seg)) (\<lambda>s. Inr (sdu_sn s))"

fun nr_rlc_tx_sdu_segment_list_add :: "nr_rlc_entity_am \<Rightarrow> nr_rlc_sdu_segment list
    \<Rightarrow> nr_rlc_sdu_segment \<Rightarrow> nr_rlc_sdu_segment list res" where
  "nr_rlc_tx_sdu_segment_list_add e [] seg = Inr [seg]"
| "nr_rlc_tx_sdu_segment_list_add e (cur # l) seg =
     res_bind (seg_sn e cur) (\<lambda>cur_sn.
     res_bind (seg_sn e seg) (\<lambda>sn.
     if am_sn_compare_tx e cur_sn sn > 0 \<or> (cur_sn = sn \<and> seg_so cur > seg_so seg)
     then Inr (seg # cur # l)
     else res_bind (nr_rlc_tx_sdu_segment_list_add e l seg) (\<lambda>l'. Inr (cur # l'))))"

section \<open>Reception of data\<close>

fun received_scan :: "int \<Rightarrow> int \<Rightarrow> nr_rlc_pdu list \<Rightarrow> bool" where
  "received_scan so n [] = (n \<le> 0)"
| "received_scan so n (l # ls) =
     (if n \<le> 0 then True
      else if pdu_so l \<le> so \<and> so < pdu_so l + pdu_size l
      then let covered = pdu_size l - (so - pdu_so l)
           in received_scan (so + covered) (n - covered) ls
      else if pdu_so l \<le> so + n - 1 \<and> so + n - 1 < pdu_so l + pdu_size l
      then let covered = n - (pdu_so l - so)
           in received_scan so (n - covered) ls
      else received_scan so n ls)"

definition segment_already_received :: "nr_rlc_entity_am \<Rightarrow> int \<Rightarrow> int \<Rightarrow> int \<Rightarrow> bool res" where
  "segment_already_received e sn so n =
     res_bind (nr_rlc_rx_manager_get_pdu_from_sn (rx e) sn) (\<lambda>l. Inr (received_scan so n l))"

definition am_sdu_full :: "nr_rlc_entity_am \<Rightarrow> int \<Rightarrow> bool res" where
  "am_sdu_full e sn =
     res_bind (nr_rlc_rx_manager_get_pdu_from_sn (rx e) sn) (\<lambda>l.
     Inr (case l of [] \<Rightarrow> False
          | p # _ \<Rightarrow> if pdu_data p = None then False else full_scan (-1) l))"

definition am_sdu_delivered :: "nr_rlc_entity_am \<Rightarrow> int \<Rightarrow> bool res" where
  "am_sdu_delivered e sn =
     res_bind (nr_rlc_rx_manager_get_pdu_from_sn (rx e) sn) (\<lambda>l.
     Inr (case l of [] \<Rightarrow> False | p # _ \<Rightarrow> pdu_data p = None))"

definition am_sdu_has_missing_bytes :: "nr_rlc_entity_am \<Rightarrow> int \<Rightarrow> bool res" where
  "am_sdu_has_missing_bytes e sn =
     res_bind (nr_rlc_rx_manager_get_pdu_from_sn (rx e) sn) (\<lambda>l.
     Inr (case l of [] \<Rightarrow> False
          | p # _ \<Rightarrow> if pdu_data p = None then False else missing_scan (-1) l))"

text \<open>
  The segments of a delivered SDU stay in the buffer without their data, so that late copies
  are recognised; unlike in unacknowledged mode they keep their size.
\<close>

definition am_reassemble_and_deliver :: "nr_rlc_entity_am \<Rightarrow> int \<Rightarrow> nr_rlc_entity_am res" where
  "am_reassemble_and_deliver e sn =
     res_bind (nr_rlc_rx_manager_get_pdu_from_sn (rx e) sn) (\<lambda>l.
     res_bind (reassemble_loop [] False l) (\<lambda>(sdu, bad_sdu).
     res_bind (rx_manager_put (rx e) sn (map (\<lambda>p. p\<lparr>pdu_data := None\<rparr>) l)) (\<lambda>m.
     let e = e\<lparr>rx := m, rx_size := rx_size e - (\<Sum>p\<leftarrow>l. pdu_size p)\<rparr> in
     if bad_sdu then Inr e
     else
       let e = common_update (calls_update (\<lambda>c. c @ [Deliver_sdu sdu])) e
       in Inr (common_update (stats_update (\<lambda>s. s\<lparr>txsdu_pkts := txsdu_pkts s + 1\<rparr>)) e))))"

text \<open>\<open>while (sdu_delivered(entity, sn)) sn = (sn + 1) % entity->sn_modulus;\<close>\<close>

definition am_skip_delivered :: "nr_rlc_entity_am \<Rightarrow> int \<Rightarrow> int res" where
  "am_skip_delivered e sn =
     while_res (am_sdu_delivered e) (\<lambda>s. Inr ((s + 1) smod sn_modulus e)) sn"

text \<open>
  The head of the window is freed: \<open>rx_next\<close>, the number of slots freed and the buffer. The
  nodes are freed with \<open>free\<close>, not \<open>nr_rlc_free_pdu\<close>.
\<close>

definition am_release_head ::
  "nr_rlc_entity_am \<Rightarrow> (nr_rlc_rx_manager \<times> int \<times> int) res" where
  "am_release_head e =
     while_res
       (\<lambda>(m, rx_nxt, cnt). res_bind (nr_rlc_rx_manager_get_pdu_from_sn m rx_nxt) (\<lambda>l.
          Inr (case l of [] \<Rightarrow> False | p # _ \<Rightarrow> pdu_data p = None)))
       (\<lambda>(m, rx_nxt, cnt). res_bind (nr_rlc_rx_manager_clear_pdu m rx_nxt) (\<lambda>m.
          Inr (m, (rx_nxt + 1) smod sn_modulus e, cnt + 1)))
       (rx e, rx_next e, 0)"

definition am_sdu_actions :: "nr_rlc_entity_am \<Rightarrow> int \<Rightarrow> nr_rlc_entity_am res" where
  "am_sdu_actions e x =
     res_bind (am_sdu_full e x) (\<lambda>full.
     if full then
       res_bind (am_reassemble_and_deliver e x) (\<lambda>e.
       res_bind (if x = rx_highest_status e
                 then res_bind (am_skip_delivered e (rx_highest_status e)) (\<lambda>sn.
                      Inr (e\<lparr>rx_highest_status := sn\<rparr>))
                 else Inr e) (\<lambda>e.
       if x = rx_next e
       then res_bind (am_release_head e) (\<lambda>(m, rx_nxt, cnt).
            Inr (e\<lparr>rx_next := rx_nxt,
                   rx := nr_rlc_rx_manager_set_start (nr_rlc_rx_manager_advance m cnt) rx_nxt\<rparr>))
       else Inr e))
     else Inr e)"

definition am_timer_stop :: "nr_rlc_entity_am \<Rightarrow> nr_rlc_entity_am res" where
  "am_timer_stop e =
     (if t_reassembly_start e \<noteq> 0
      then if rx_next_status_trigger e = rx_next e then Inr (e\<lparr>t_reassembly_start := 0\<rparr>)
           else res_bind (if rx_next_status_trigger e = (rx_next e + 1) smod sn_modulus e
                          then am_sdu_has_missing_bytes e (rx_next e) else Inr True) (\<lambda>missing.
                Inr (if \<not> missing
                        \<or> (\<not> sn_in_recv_window e (rx_next_status_trigger e)
                           \<and> rx_next_status_trigger e \<noteq> (rx_next e + window_size e) smod sn_modulus e)
                     then e\<lparr>t_reassembly_start := 0\<rparr> else e))
      else Inr e)"

definition am_timer_start :: "nr_rlc_entity_am \<Rightarrow> nr_rlc_entity_am res" where
  "am_timer_start e =
     (if t_reassembly_start e = 0
      then res_bind (if am_sn_compare_rx e (rx_next_highest e) ((rx_next e + 1) smod sn_modulus e) > 0
                     then Inr True
                     else if rx_next_highest e = (rx_next e + 1) smod sn_modulus e
                     then am_sdu_has_missing_bytes e (rx_next e) else Inr False) (\<lambda>start.
           Inr (if start then e\<lparr>t_reassembly_start := t_current e,
                               rx_next_status_trigger := rx_next_highest e\<rparr>
                else e))
      else Inr e)"

definition am_reception_actions :: "nr_rlc_entity_am \<Rightarrow> nr_rlc_pdu \<Rightarrow> nr_rlc_entity_am res" where
  "am_reception_actions e pdu =
     (let x = pdu_sn pdu;
          e = (if am_sn_compare_rx e x (rx_next_highest e) \<ge> 0
               then e\<lparr>rx_next_highest := (x + 1) smod sn_modulus e\<rparr> else e) in
      res_bind (am_sdu_actions e x) (\<lambda>e. res_bind (am_timer_stop e) am_timer_start))"

end
