(* ===== verification/RLC_AM_Control.thy ===== *)
theory RLC_AM_Control
  imports RLC_AM
begin

text \<open>
  The processing of a received status report: \<open>process_control_pdu\<close> of
  \<open>nr_rlc_entity_am.c\<close>. A first pass validates the report, a second one classifies the
  segments of the wait list and of the retransmit list as acknowledged, to retransmit, or
  still waiting.
\<close>

section \<open>Reading a status report\<close>

text \<open>\<open>v = nr_rlc_pdu_decoder_get_bits(&decoder, n); R(decoder);\<close> with \<^const>\<open>None\<close> for \<open>goto err\<close>.\<close>

definition get_R :: "nr_rlc_pdu_decoder \<Rightarrow> int \<Rightarrow> (int \<Rightarrow> nr_rlc_pdu_decoder \<Rightarrow> 'a option res)
    \<Rightarrow> 'a option res" where
  "get_R d n k =
     res_bind (nr_rlc_pdu_decoder_get_bits d n) (\<lambda>(v, d). if d_error d then Inr None else k v d)"

text \<open>The same without \<open>R(decoder)\<close>.\<close>

definition get_N :: "nr_rlc_pdu_decoder \<Rightarrow> int \<Rightarrow> (int \<Rightarrow> nr_rlc_pdu_decoder \<Rightarrow> 'a res) \<Rightarrow> 'a res" where
  "get_N d n k = res_bind (nr_rlc_pdu_decoder_get_bits d n) (\<lambda>(v, d). k v d)"

text \<open>The fixed part: \<open>ack_sn\<close>, the first \<open>e1\<close> and the decoder.\<close>

definition am_check_header ::
  "nr_rlc_entity_am \<Rightarrow> byte list \<Rightarrow> (int \<times> int \<times> nr_rlc_pdu_decoder) option res" where
  "am_check_header e buf =
     get_R (nr_rlc_pdu_decoder_init buf) 1 (\<lambda>_ d.
     get_R d 3 (\<lambda>cpt d.
     if cpt \<noteq> 0 then Inr None
     else get_R d (sn_field_length e) (\<lambda>ack_sn d.
          get_R d 1 (\<lambda>e1 d.
          get_R d (if sn_field_length e = 18 then 1 else 7) (\<lambda>_ d.
          Inr (Some (ack_sn, e1, d)))))))"

definition am_read_header ::
  "nr_rlc_entity_am \<Rightarrow> byte list \<Rightarrow> (int \<times> int \<times> nr_rlc_pdu_decoder) res" where
  "am_read_header e buf =
     get_N (nr_rlc_pdu_decoder_init buf) 1 (\<lambda>_ d.
     get_N d 3 (\<lambda>cpt d.
     get_N d (sn_field_length e) (\<lambda>ack_sn d.
     get_N d 1 (\<lambda>e1 d.
     get_N d (if sn_field_length e = 18 then 1 else 7) (\<lambda>_ d.
     Inr (ack_sn, e1, d))))))"

text \<open>A NACK: \<open>so_end\<close> is -1 for the special value \<open>0xffff\<close>, \<open>all bytes to the end\<close>.\<close>

record am_nack =
  nk_sn :: int
  nk_so_start :: int
  nk_so_end :: int
  nk_range :: int

definition am_check_nack ::
  "nr_rlc_entity_am \<Rightarrow> nr_rlc_pdu_decoder \<Rightarrow> (am_nack \<times> int \<times> nr_rlc_pdu_decoder) option res" where
  "am_check_nack e d =
     get_R d (sn_field_length e) (\<lambda>nack_sn d.
     get_R d 1 (\<lambda>e1 d.
     get_R d 1 (\<lambda>e2 d.
     get_R d 1 (\<lambda>e3 d.
     get_R d (if sn_field_length e = 18 then 3 else 1) (\<lambda>_ d.
     let range_part = (\<lambda>so_start so_end d.
           let so_end = (if so_end = 65535 then -1 else so_end) in
           if e3 \<noteq> 0
           then get_R d 8 (\<lambda>range d.
                Inr (Some (\<lparr>nk_sn = nack_sn, nk_so_start = so_start, nk_so_end = so_end,
                            nk_range = range\<rparr>, e1, d)))
           else Inr (Some (\<lparr>nk_sn = nack_sn, nk_so_start = so_start, nk_so_end = so_end,
                            nk_range = 1\<rparr>, e1, d)))
     in if e2 \<noteq> 0
        then get_R d 16 (\<lambda>so_start d. get_R d 16 (\<lambda>so_end d. range_part so_start so_end d))
        else range_part 0 65535 d)))))"

definition am_read_nack ::
  "nr_rlc_entity_am \<Rightarrow> nr_rlc_pdu_decoder \<Rightarrow> (am_nack \<times> int \<times> nr_rlc_pdu_decoder) res" where
  "am_read_nack e d =
     get_N d (sn_field_length e) (\<lambda>nack_sn d.
     get_N d 1 (\<lambda>e1 d.
     get_N d 1 (\<lambda>e2 d.
     get_N d 1 (\<lambda>e3 d.
     get_N d (if sn_field_length e = 18 then 3 else 1) (\<lambda>_ d.
     let range_part = (\<lambda>so_start so_end d.
           let so_end = (if so_end = 65535 then -1 else so_end) in
           if e3 \<noteq> 0
           then get_N d 8 (\<lambda>range d.
                Inr (\<lparr>nk_sn = nack_sn, nk_so_start = so_start, nk_so_end = so_end,
                      nk_range = range\<rparr>, e1, d))
           else Inr (\<lparr>nk_sn = nack_sn, nk_so_start = so_start, nk_so_end = so_end,
                      nk_range = 1\<rparr>, e1, d))
     in if e2 \<noteq> 0
        then get_N d 16 (\<lambda>so_start d. get_N d 16 (\<lambda>so_end d. range_part so_start so_end d))
        else range_part 0 65535 d)))))"

text \<open>\<open>cur_nack_sn\<close>, \<open>cur_so_start\<close> and \<open>cur_so_end\<close> of turn \<open>i\<close> of the loop over a range.\<close>

definition am_nack_item :: "nr_rlc_entity_am \<Rightarrow> am_nack \<Rightarrow> int \<Rightarrow> int \<times> int \<times> int" where
  "am_nack_item e n i =
     ((nk_sn n + i) smod sn_modulus e,
      if i = 0 then nk_so_start n else 0,
      if i = nk_range n - 1 then nk_so_end n else -1)"

definition so_overlap :: "int \<Rightarrow> int \<Rightarrow> int \<Rightarrow> int \<Rightarrow> bool" where
  "so_overlap s1 e1 s2 e2 =
     (if s1 < s2 then e1 = -1 \<or> e1 \<ge> s2
      else e2 = -1 \<or> s1 \<le> e2)"

section \<open>Validation\<close>

definition am_nack_accepted ::
  "nr_rlc_entity_am \<Rightarrow> int \<Rightarrow> int \<Rightarrow> int \<Rightarrow> int \<times> int \<times> int \<Rightarrow> bool" where
  "am_nack_accepted e ack_sn prev_nack_sn prev_so_end = (\<lambda>(cur_nack_sn, cur_so_start, cur_so_end).
     let cmp = am_sn_compare_tx e cur_nack_sn prev_nack_sn in
     \<not> (prev_nack_sn \<noteq> -1 \<and> (cmp < 0 \<or> (cmp = 0 \<and> (prev_so_end = -1 \<or> cur_so_start \<le> prev_so_end))))
     \<and> \<not> am_sn_compare_tx e cur_nack_sn ack_sn > 0)"

text \<open>
  The validation loop reads the NACKs in turn; \<open>prev_nack_sn\<close> and \<open>prev_so_end\<close> keep their
  initial values -1 and 0 in it.
\<close>

definition am_validate_nacks ::
  "nr_rlc_entity_am \<Rightarrow> int \<Rightarrow> int \<Rightarrow> nr_rlc_pdu_decoder \<Rightarrow> bool res" where
  "am_validate_nacks e ack_sn e1 d =
     res_bind (while_res
       (\<lambda>(ok, e1, d). Inr (ok \<and> e1 \<noteq> 0))
       (\<lambda>(ok, e1, d). res_bind (am_check_nack e d) (\<lambda>r.
          Inr (case r of
                 None \<Rightarrow> (False, e1, d)
               | Some (n, e1, d) \<Rightarrow>
                   (list_all (\<lambda>i. am_nack_accepted e ack_sn (-1) 0 (am_nack_item e n (int i)))
                      [0..<nat (nk_range n)], e1, d))))
       (True, e1, d)) (\<lambda>(ok, _). Inr ok)"

section \<open>The two lists\<close>

text \<open>
  The state of the second pass. The wait list is \<open>wait_before @ wait_cur @ wait_after\<close>:
  \<open>prev_wait_list\<close> is the last node of \<open>wait_before\<close> (or \<open>&head_wait_list\<close>),
  \<open>cur_wait_list\<close> the first one of \<open>wait_cur\<close> (or \<open>NULL\<close>), and \<open>wait_after\<close> what follows once
  the list is left with \<open>cur_wait_list = NULL\<close>. The new retransmit list is \<open>retx_new\<close> followed
  by what \<open>new_retransmit_list->next\<close> points to, \<open>retx_next\<close>; \<open>retx_cur\<close> starts at
  \<open>cur_retransmit_list\<close>. \<open>end_wait\<close> is \<open>end_wait_list\<close>: \<open>Some None\<close> stands for
  \<open>&head_wait_list\<close>.
\<close>

record am_ctl =
  ctl :: nr_rlc_entity_am
  wait_before :: "nr_rlc_sdu_segment list"
  wait_cur :: "nr_rlc_sdu_segment list"
  wait_after :: "nr_rlc_sdu_segment list"
  end_wait :: "addr option option"
  retx_new :: "nr_rlc_sdu_segment list"
  retx_next :: "nr_rlc_sdu_segment list"
  retx_cur :: "nr_rlc_sdu_segment list"

definition am_ctl_init :: "nr_rlc_entity_am \<Rightarrow> am_ctl" where
  "am_ctl_init e = \<lparr>ctl = e, wait_before = [], wait_cur = wait_list e, wait_after = [], end_wait = None,
     retx_new = [], retx_next = [], retx_cur = retransmit_list e\<rparr>"

text \<open>\<open>cur_wait_list\<close> is taken out of the wait list.\<close>

definition am_unlink_wait :: "am_ctl \<Rightarrow> nr_rlc_sdu_segment \<Rightarrow> am_ctl" where
  "am_unlink_wait s cur = s\<lparr>wait_cur := tl (wait_cur s),
     end_wait := if wait_end (ctl s) = Some (seg_ptr cur)
                 then Some (if wait_before s = [] then None else Some (seg_ptr (last (wait_before s))))
                 else end_wait s\<rparr>"

text \<open>A segment is acknowledged: it is freed, and delivery is indicated if its SDU goes too.\<close>

definition am_ack_segment :: "nr_rlc_entity_am \<Rightarrow> nr_rlc_sdu_segment \<Rightarrow> nr_rlc_entity_am res" where
  "am_ack_segment e cur =
     res_bind (sdu_read (mem (common e)) (seg_sdu cur)) (\<lambda>s.
     res_bind (nr_rlc_free_sdu_segment (mem (common e)) cur) (\<lambda>(freed, m).
     let e = common_update (mem_update (\<lambda>_. m)) e in
     Inr (if freed
          then common_update (\<lambda>c. c\<lparr>calls := calls c @ [Sdu_successful_delivery (sdu_upper_layer_id s)]\<rparr>)
                 (common_update (stats_update (\<lambda>st. st\<lparr>txsdu_bytes := txsdu_bytes st + of_int (sdu_size s)\<rparr>))
                   (e\<lparr>tx_size := tx_size e - sdu_size s\<rparr>))
          else e)))"

text \<open>A segment of the wait list is to be retransmitted.\<close>

definition am_nack_segment :: "nr_rlc_entity_am \<Rightarrow> nr_rlc_sdu_segment \<Rightarrow> nr_rlc_entity_am res" where
  "am_nack_segment e cur =
     res_bind (sdu_read (mem (common e)) (seg_sdu cur)) (\<lambda>s.
     let s = s\<lparr>sdu_retx_count := sdu_retx_count s + 1\<rparr>;
         e = common_update (mem_update (\<lambda>m. sdu_write m (seg_sdu cur) s)) e;
         e = (if sdu_retx_count s \<ge> max_retx_threshold e * sdu_ref_count s
              then common_update (calls_update (\<lambda>c. c @ [Max_retx_reached])) e else e) in
     Inr (common_update (bstatus_update (\<lambda>b. b\<lparr>bs_retx_size := bs_retx_size b
            + (am_compute_pdu_header_size e cur + seg_size cur)\<rparr>)) e))"

definition am_unaccount_retx :: "nr_rlc_entity_am \<Rightarrow> nr_rlc_sdu_segment \<Rightarrow> nr_rlc_entity_am" where
  "am_unaccount_retx e cur =
     common_update (bstatus_update (\<lambda>b. b\<lparr>bs_retx_size := bs_retx_size b
       - (am_compute_pdu_header_size e cur + seg_size cur)\<rparr>)) e"

datatype am_goto = Process_next_pdu | Done_nack | Lists_over

text \<open>From \<open>process_wait_list_head\<close> on; \<open>cur\<close> is \<open>cur_wait_list\<close>.\<close>

definition am_wait_head ::
  "int \<Rightarrow> int \<times> int \<times> int \<Rightarrow> nr_rlc_sdu_segment \<Rightarrow> am_ctl \<Rightarrow> (am_goto \<times> am_ctl) res" where
  "am_wait_head ack_sn = (\<lambda>(cur_nack_sn, cur_so_start, cur_so_end) cur s.
     res_bind (seg_sn (ctl s) cur) (\<lambda>sn.
     if sn = cur_nack_sn
        \<and> so_overlap cur_so_start cur_so_end (seg_so cur) (seg_so cur + seg_size cur - 1)
     then res_bind (am_nack_segment (ctl s) cur) (\<lambda>e.
          Inr (Process_next_pdu, (am_unlink_wait s cur)\<lparr>ctl := e, retx_new := retx_new s @ [cur], retx_next := []\<rparr>))
     else
       let cmp = am_sn_compare_tx (ctl s) sn cur_nack_sn in
       if cmp > 0 \<or> (cmp = 0 \<and> seg_so cur > cur_so_start) then Inr (Done_nack, s)
       else if am_sn_compare_tx (ctl s) sn ack_sn < 0
       then res_bind (am_ack_segment (ctl s) cur) (\<lambda>e.
            Inr (Process_next_pdu, (am_unlink_wait s cur)\<lparr>ctl := e\<rparr>))
       else if am_sn_compare_tx (ctl s) sn ack_sn > 0
       then Inr (Process_next_pdu, s\<lparr>wait_cur := [], wait_after := wait_cur s\<rparr>)
       else Inr (Process_next_pdu, s\<lparr>wait_before := wait_before s @ [cur], wait_cur := tl (wait_cur s)\<rparr>)))"

text \<open>From \<open>process_retransmit_list_head\<close> on; \<open>cur\<close> is \<open>cur_retransmit_list\<close>.\<close>

definition am_retx_head ::
  "int \<Rightarrow> int \<times> int \<times> int \<Rightarrow> nr_rlc_sdu_segment \<Rightarrow> am_ctl \<Rightarrow> (am_goto \<times> am_ctl) res" where
  "am_retx_head ack_sn = (\<lambda>(cur_nack_sn, cur_so_start, cur_so_end) cur s.
     res_bind (seg_sn (ctl s) cur) (\<lambda>sn.
     if sn = cur_nack_sn
        \<and> so_overlap cur_so_start cur_so_end (seg_so cur) (seg_so cur + seg_size cur - 1)
     then Inr (Process_next_pdu, s\<lparr>retx_new := retx_new s @ [cur], retx_next := [], retx_cur := tl (retx_cur s)\<rparr>)
     else
       let cmp = am_sn_compare_tx (ctl s) sn cur_nack_sn in
       if cmp > 0 \<or> (cmp = 0 \<and> seg_so cur > cur_so_start) then Inr (Done_nack, s)
       else if am_sn_compare_tx (ctl s) sn ack_sn < 0
       then res_bind (am_ack_segment (am_unaccount_retx (ctl s) cur) cur) (\<lambda>e.
            Inr (Process_next_pdu, s\<lparr>ctl := e, retx_cur := tl (retx_cur s)\<rparr>))
       else if wait_cur s = []
       then Inr (Lists_over, s\<lparr>retx_next := retx_cur s, retx_cur := []\<rparr>)
       else Inr (Process_next_pdu, s\<lparr>retx_new := retx_new s @ [cur], retx_next := [], retx_cur := tl (retx_cur s)\<rparr>)))"

definition am_nack_step ::
  "int \<Rightarrow> int \<times> int \<times> int \<Rightarrow> am_ctl \<Rightarrow> (am_goto \<times> am_ctl) res" where
  "am_nack_step ack_sn nack s =
     (case (wait_cur s, retx_cur s) of
        ([], []) \<Rightarrow> Inr (Lists_over, s)
      | ([], r # _) \<Rightarrow> am_retx_head ack_sn nack r s
      | (w # _, []) \<Rightarrow> am_wait_head ack_sn nack w s
      | (w # _, r # _) \<Rightarrow>
          res_bind (seg_sn (ctl s) w) (\<lambda>w_sn.
          res_bind (seg_sn (ctl s) r) (\<lambda>r_sn.
          let cmp = am_sn_compare_tx (ctl s) w_sn r_sn in
          if cmp < 0 \<or> (cmp = 0 \<and> seg_so w < seg_so r) then am_wait_head ack_sn nack w s
          else am_retx_head ack_sn nack r s)))"

text \<open>Every turn that goes back to \<open>process_next_pdu\<close> has consumed a node of one of the lists.\<close>

lemma am_wait_head_decreases:
  assumes "am_wait_head ack_sn nack w s = Inr (Process_next_pdu, s')" "wait_cur s = w # ws"
  shows "length (wait_cur s') + length (retx_cur s') < length (wait_cur s) + length (retx_cur s)"
proof -
  obtain a b c sn where nack: "nack = (a, b, c)" and sn: "seg_sn (ctl s) w = Inr sn"
    using assms(1) by (cases nack) (auto simp: am_wait_head_def res_bind_Inr_iff)
  from assms show ?thesis
    unfolding am_wait_head_def nack prod.case sn res_bind.simps Let_def am_unlink_wait_def
    by (simp only: split: if_split_asm) (auto simp: res_bind_Inr_iff)
qed

lemma am_retx_head_decreases:
  assumes "am_retx_head ack_sn nack r s = Inr (Process_next_pdu, s')" "retx_cur s = r # rs"
  shows "length (wait_cur s') + length (retx_cur s') < length (wait_cur s) + length (retx_cur s)"
proof -
  obtain a b c sn where nack: "nack = (a, b, c)" and sn: "seg_sn (ctl s) r = Inr sn"
    using assms(1) by (cases nack) (auto simp: am_retx_head_def res_bind_Inr_iff)
  from assms show ?thesis
    unfolding am_retx_head_def nack prod.case sn res_bind.simps Let_def
    by (simp only: split: if_split_asm) (auto simp: res_bind_Inr_iff)
qed

lemma am_nack_step_decreases:
  assumes step: "am_nack_step ack_sn nack s = Inr (Process_next_pdu, s')"
  shows "length (wait_cur s') + length (retx_cur s') < length (wait_cur s) + length (retx_cur s)"
proof (cases "wait_cur s")
  case Nil
  with step show ?thesis
    by (cases "retx_cur s") (auto simp: am_nack_step_def dest: am_retx_head_decreases)
next
  case (Cons w ws)
  show ?thesis
  proof (cases "retx_cur s")
    case Nil
    with Cons step show ?thesis by (auto simp: am_nack_step_def dest: am_wait_head_decreases)
  next
    case (Cons r rs)
    with \<open>wait_cur s = w # ws\<close> step
    have "am_wait_head ack_sn nack w s = Inr (Process_next_pdu, s')
        \<or> am_retx_head ack_sn nack r s = Inr (Process_next_pdu, s')"
      by (auto simp: am_nack_step_def Let_def res_bind_Inr_iff split: if_splits)
    with Cons \<open>wait_cur s = w # ws\<close> show ?thesis
      using am_wait_head_decreases am_retx_head_decreases by blast
  qed
qed

function am_process_nack ::
  "int \<Rightarrow> int \<times> int \<times> int \<Rightarrow> am_ctl \<Rightarrow> (am_goto \<times> am_ctl) res" where
  "am_process_nack ack_sn nack s =
     res_bind (am_nack_step ack_sn nack s) (\<lambda>r.
     case r of
       (Process_next_pdu, s') \<Rightarrow> am_process_nack ack_sn nack s'
     | (Done_nack, s') \<Rightarrow> Inr r
     | (Lists_over, s') \<Rightarrow> Inr r)"
  by auto
termination
  by (relation "measure (\<lambda>(_, _, s). length (wait_cur s) + length (retx_cur s))")
    (auto dest: am_nack_step_decreases)

declare am_process_nack.simps [simp del]

text \<open>The loop over a range of sequence numbers, left early by \<open>goto lists_over\<close>.\<close>

fun am_process_range ::
  "int \<Rightarrow> am_nack \<Rightarrow> nat list \<Rightarrow> am_ctl \<Rightarrow> am_ctl res" where
  "am_process_range ack_sn n [] s = Inr s"
| "am_process_range ack_sn n (i # is) s =
     res_bind (am_process_nack ack_sn (am_nack_item (ctl s) n (int i)) s) (\<lambda>(g, s).
     if g = Lists_over then Inr s else am_process_range ack_sn n is s)"

text \<open>After \<open>lists_over\<close>: the poll timer stops if \<open>poll_sn\<close> is among the NACKs.\<close>

definition am_nack_stops_poll :: "am_nack \<Rightarrow> nr_rlc_entity_am \<Rightarrow> nr_rlc_entity_am" where
  "am_nack_stops_poll n e =
     (if am_sn_compare_tx e (nk_sn n) (poll_sn e) \<le> 0
         \<and> am_sn_compare_tx e (poll_sn e) ((nk_sn n + nk_range n) smod sn_modulus e) < 0
      then e\<lparr>t_poll_retransmit_start := 0\<rparr> else e)"

definition am_process_nacks ::
  "int \<Rightarrow> int \<Rightarrow> nr_rlc_pdu_decoder \<Rightarrow> am_ctl \<Rightarrow> am_ctl res" where
  "am_process_nacks ack_sn e1 d s =
     res_bind (while_res
       (\<lambda>(e1, d, s). Inr (e1 \<noteq> 0))
       (\<lambda>(e1, d, s). res_bind (am_read_nack (ctl s) d) (\<lambda>(n, e1, d).
          res_bind (am_process_range ack_sn n [0..<nat (nk_range n)] s) (\<lambda>s.
          Inr (e1, d, s\<lparr>ctl := am_nack_stops_poll n (ctl s)\<rparr>))))
       (e1, d, s)) (\<lambda>(_, _, s). Inr s)"

section \<open>The acknowledgement\<close>

fun am_ack_wait :: "int \<Rightarrow> nr_rlc_sdu_segment list \<Rightarrow> am_ctl \<Rightarrow> am_ctl res" where
  "am_ack_wait ack_sn [] s = Inr s"
| "am_ack_wait ack_sn (cur # l) s =
     res_bind (seg_sn (ctl s) cur) (\<lambda>sn.
     if am_sn_compare_tx (ctl s) sn ack_sn < 0
     then res_bind (am_ack_segment (ctl s) cur) (\<lambda>e.
          am_ack_wait ack_sn l ((am_unlink_wait s cur)\<lparr>ctl := e\<rparr>))
     else Inr s)"

fun am_ack_retx :: "int \<Rightarrow> nr_rlc_sdu_segment list \<Rightarrow> am_ctl \<Rightarrow> am_ctl res" where
  "am_ack_retx ack_sn [] s = Inr s"
| "am_ack_retx ack_sn (cur # l) s =
     res_bind (seg_sn (ctl s) cur) (\<lambda>sn.
     if am_sn_compare_tx (ctl s) sn ack_sn < 0
     then res_bind (am_ack_segment (am_unaccount_retx (ctl s) cur) cur) (\<lambda>e.
          am_ack_retx ack_sn l (s\<lparr>ctl := e, retx_cur := tl (retx_cur s)\<rparr>))
     else Inr s)"

text \<open>The lists go back into the entity.\<close>

definition am_ctl_finish :: "am_ctl \<Rightarrow> nr_rlc_entity_am" where
  "am_ctl_finish s =
     (let s = s\<lparr>retx_next := retx_cur s\<rparr>;
          e = (ctl s)\<lparr>wait_list := wait_before s @ wait_cur s @ wait_after s,
                      retransmit_list := retx_new s @ retx_next s\<rparr>
      in case end_wait s of None \<Rightarrow> e | Some p \<Rightarrow> e\<lparr>wait_end := p\<rparr>)"

definition am_update_tx_next_ack :: "int \<Rightarrow> nr_rlc_entity_am \<Rightarrow> nr_rlc_entity_am res" where
  "am_update_tx_next_ack ack_sn e =
     (let lower = (\<lambda>a l. case l of [] \<Rightarrow> Inr a
          | seg # _ \<Rightarrow> res_bind (seg_sn e seg) (\<lambda>sn.
              Inr (if am_sn_compare_tx e sn a < 0 then sn else a))) in
      res_bind (lower (tx_next e) (wait_list e)) (\<lambda>a.
      res_bind (lower a (retransmit_list e)) (\<lambda>a.
      let a = (if am_sn_compare_tx e ack_sn a < 0 then ack_sn else a)
      in Inr (e\<lparr>tx_next_ack := a\<rparr>))))"

definition am_process_control_pdu ::
  "nr_rlc_entity_am \<Rightarrow> byte list \<Rightarrow> nr_rlc_entity_am res" where
  "am_process_control_pdu e buf =
     res_bind (am_check_header e buf) (\<lambda>hdr.
     case hdr of
       None \<Rightarrow> Inr e
     | Some (ack_sn, e1, d) \<Rightarrow>
         if am_sn_compare_tx e ack_sn (tx_next e) > 0 then Inr e
         else res_bind (am_validate_nacks e ack_sn e1 d) (\<lambda>ok.
         if \<not> ok then Inr e
         else
           res_bind (am_read_header e buf) (\<lambda>(ack_sn, e1, d).
           let e = (if am_sn_compare_tx e (poll_sn e) ack_sn < 0
                    then e\<lparr>t_poll_retransmit_start := 0\<rparr> else e) in
           res_bind (am_process_nacks ack_sn e1 d (am_ctl_init e)) (\<lambda>s.
           res_bind (am_ack_wait ack_sn (wait_cur s) s) (\<lambda>s.
           res_bind (am_ack_retx ack_sn (retx_cur s) s) (\<lambda>s.
           am_update_tx_next_ack ack_sn (am_ctl_finish s)))))))"

end
