(* ===== verification/RLC_AM_Status.thy ===== *)
theory RLC_AM_Status
  imports RLC_AM
begin

text \<open>
  The generation of a status report by the receiving side of the acknowledged mode
  (\<open>nr_rlc_entity_am.c\<close>, status reporting): the search for the next missing bytes, the
  encoding of a NACK, the report, and the computation of its size.

  A pointer to a received segment is the list of segments of its slot from that segment on;
  the empty list is \<open>NULL\<close>.
\<close>

section \<open>Missing data\<close>

record missing_data =
  md_sn_start :: int
  md_so_start :: int
  md_sn_end :: int
  md_so_end :: int
  md_next :: "nr_rlc_pdu list"

text \<open>The value returned when there is nothing to report: only \<open>sn_start\<close> is read.\<close>

definition no_missing :: missing_data where
  "no_missing = \<lparr>md_sn_start = -1, md_so_start = 0, md_sn_end = 0, md_so_end = 0, md_next = []\<rparr>"

text \<open>The search of the slots from \<open>sn\<close> to \<open>rx_highest_status\<close>, the last one included.\<close>

definition am_search_rx :: "nr_rlc_entity_am \<Rightarrow> int \<Rightarrow> nr_rlc_pdu list res" where
  "am_search_rx e sn =
     res_bind (while_res
       (\<lambda>sn. if sn \<noteq> rx_highest_status e
             then res_bind (nr_rlc_rx_manager_get_pdu_from_sn (rx e) sn) (\<lambda>l. Inr (l = []))
             else Inr False)
       (\<lambda>sn. Inr ((sn + 1) smod sn_modulus e)) sn)
       (nr_rlc_rx_manager_get_pdu_from_sn (rx e))"

definition get_first_rx_pdu :: "nr_rlc_entity_am \<Rightarrow> nr_rlc_pdu list res" where
  "get_first_rx_pdu e = am_search_rx e (rx_next e)"

definition get_next_rx_pdu :: "nr_rlc_entity_am \<Rightarrow> nr_rlc_pdu list \<Rightarrow> nr_rlc_pdu list res" where
  "get_next_rx_pdu e cur =
     (case cur of
        [] \<Rightarrow> Inl Null_deref
      | p # l \<Rightarrow>
          if l \<noteq> [] then Inr l
          else if pdu_sn p = rx_highest_status e then Inr []
          else am_search_rx e ((pdu_sn p + 1) smod sn_modulus e))"

text \<open>\<open>rx_highest_status - 1\<close>, the last sequence number a report may name.\<close>

definition am_last_reported :: "nr_rlc_entity_am \<Rightarrow> int" where
  "am_last_reported e = (rx_highest_status e - 1 + sn_modulus e) smod sn_modulus e"

text \<open>From \<open>set_end_different_sdu\<close> on: the missing part ends before \<open>cur\<close>.\<close>

definition set_end_different_sdu ::
  "nr_rlc_entity_am \<Rightarrow> int \<Rightarrow> int \<Rightarrow> nr_rlc_pdu list \<Rightarrow> nr_rlc_pdu \<Rightarrow> missing_data" where
  "set_end_different_sdu e sn_start so_start nxt cur =
     (let (sn_end, so_end) = (if pdu_is_first cur
            then ((pdu_sn cur - 1 + sn_modulus e) smod sn_modulus e, 65535)
            else (pdu_sn cur, pdu_so cur - 1))
      in if am_sn_compare_rx e (rx_highest_status e) sn_end \<le> 0
         then \<lparr>md_sn_start = sn_start, md_so_start = so_start, md_sn_end = am_last_reported e,
               md_so_end = 65535, md_next = []\<rparr>
         else \<lparr>md_sn_start = sn_start, md_so_start = so_start, md_sn_end = sn_end,
               md_so_end = so_end, md_next = nxt\<rparr>)"

text \<open>No segment after \<open>cur\<close>: everything from here to \<open>rx_highest_status - 1\<close> is missing.\<close>

definition am_missing_tail :: "nr_rlc_entity_am \<Rightarrow> nr_rlc_pdu \<Rightarrow> int \<Rightarrow> bool \<Rightarrow> missing_data" where
  "am_missing_tail e cur max_so last_reached =
     (let (sn_start, so_start) =
            (if pdu_data cur = None then ((pdu_sn cur + 1) smod sn_modulus e, 0)
             else if last_reached then ((pdu_sn cur + 1) smod sn_modulus e, 0)
             else (pdu_sn cur, max_so + 1))
      in if am_sn_compare_rx e (rx_highest_status e) sn_start \<le> 0 then no_missing
         else \<lparr>md_sn_start = sn_start, md_so_start = so_start, md_sn_end = am_last_reported e,
               md_so_end = 65535, md_next = []\<rparr>)"

text \<open>One pass from \<open>next_pdu\<close>: either the result, or the state for \<open>goto next_pdu\<close>.\<close>

datatype missing_step = Missing missing_data | Next_pdu "nr_rlc_pdu list" int bool

definition next_missing_step ::
  "nr_rlc_entity_am \<Rightarrow> nr_rlc_pdu list \<Rightarrow> int \<Rightarrow> bool \<Rightarrow> missing_step res" where
  "next_missing_step e cur max_so last_reached =
     (case cur of
        [] \<Rightarrow> Inl Null_deref
      | p # _ \<Rightarrow>
          let sn = pdu_sn p;
              cur_max_so = pdu_so p + pdu_size p - 1;
              max_so = (if cur_max_so > max_so then cur_max_so else max_so);
              last_reached = (last_reached \<or> pdu_is_last p) in
          res_bind (get_next_rx_pdu e cur) (\<lambda>cur_next.
          Inr (case cur_next of
             [] \<Rightarrow> Missing (am_missing_tail e p max_so last_reached)
           | c # _ \<Rightarrow>
               if pdu_sn c = sn \<and> max_so \<ge> pdu_so c - 1 then Next_pdu cur_next max_so last_reached
               else if pdu_sn c = (sn + 1) smod sn_modulus e \<and> last_reached \<and> pdu_is_first c
               then Next_pdu cur_next 0 False
               else if pdu_sn c = sn
               then if am_sn_compare_rx e (rx_highest_status e) sn \<le> 0 then Missing no_missing
                    else Missing \<lparr>md_sn_start = sn, md_so_start = max_so + 1, md_sn_end = sn,
                                  md_so_end = pdu_so c - 1, md_next = cur_next\<rparr>
               else
                 let (sn_start, so_start) =
                       (if last_reached then ((sn + 1) smod sn_modulus e, 0) else (sn, max_so + 1))
                 in if am_sn_compare_rx e (rx_highest_status e) sn_start \<le> 0 then Missing no_missing
                    else Missing (set_end_different_sdu e sn_start so_start cur_next c))))"

definition next_missing_loop :: "nr_rlc_entity_am \<Rightarrow> missing_step \<Rightarrow> missing_step res" where
  "next_missing_loop e =
     while_res
       (\<lambda>st. Inr (case st of Missing _ \<Rightarrow> False | Next_pdu _ _ _ \<Rightarrow> True))
       (\<lambda>st. case st of Missing m \<Rightarrow> Inr st
             | Next_pdu cur max_so last_reached \<Rightarrow> next_missing_step e cur max_so last_reached)"

definition next_missing ::
  "nr_rlc_entity_am \<Rightarrow> nr_rlc_pdu list \<Rightarrow> bool \<Rightarrow> missing_data res" where
  "next_missing e cur check_head =
     (case cur of
        [] \<Rightarrow> Inl Null_deref
      | p # _ \<Rightarrow>
          if check_head \<and> (pdu_sn p \<noteq> rx_next e \<or> \<not> pdu_is_first p)
          then if am_sn_compare_rx e (rx_highest_status e) (rx_next e) \<le> 0 then Inr no_missing
               else Inr (set_end_different_sdu e (rx_next e) 0 cur p)
          else res_bind (next_missing_loop e (Next_pdu cur 0 False)) (\<lambda>st.
               case st of Missing m \<Rightarrow> Inr m | Next_pdu _ _ _ \<Rightarrow> Inl Infinite_loop))"

section \<open>NACK ranges\<close>

definition nack_size :: "nr_rlc_entity_am \<Rightarrow> missing_data \<Rightarrow> int" where
  "nack_size e m =
     (let nack_length = 2 + of_bool (sn_field_length e = 18) in
      if md_sn_start m = md_sn_end m
      then if md_so_start m = 0 \<and> md_so_end m = 65535 then nack_length else nack_length + 4
      else if md_so_start m = 0 \<and> md_so_end m = 65535 then nack_length + 1 else nack_length + 5)"

definition am_sn_count :: "nr_rlc_entity_am \<Rightarrow> missing_data \<Rightarrow> int" where
  "am_sn_count e m = (md_sn_end m - md_sn_start m + sn_modulus e) smod sn_modulus e + 1"

text \<open>
  The next range of at most 255 sequence numbers when \<open>sn_count\<close> remain from \<open>sn_start\<close> on:
  its length, and the fields of \<open>m_nack\<close>.
\<close>

definition am_cur_count :: "int \<Rightarrow> int" where
  "am_cur_count sn_count = (if sn_count > 255 then 255 else sn_count)"

definition am_next_range :: "nr_rlc_entity_am \<Rightarrow> missing_data \<Rightarrow> int \<Rightarrow> int \<Rightarrow> missing_data" where
  "am_next_range e m sn_count sn_start =
     (let so_start = (if sn_start = md_sn_start m then md_so_start m else 0);
          (sn_end, so_end) = (if am_cur_count sn_count = sn_count then (md_sn_end m, md_so_end m)
                              else ((sn_start + 254) smod sn_modulus e, 65535))
      in \<lparr>md_sn_start = sn_start, md_so_start = so_start, md_sn_end = sn_end, md_so_end = so_end,
          md_next = []\<rparr>)"

definition get_e1_position :: "nr_rlc_entity_am \<Rightarrow> nr_rlc_pdu_encoder \<Rightarrow> int \<times> int" where
  "get_e1_position e enc =
     (if sn_field_length e = 18 then (e_byte enc + 2, 5) else (e_byte enc + 1, 3))"

text \<open>The flags \<open>e2\<close> (offsets follow) and \<open>e3\<close> (a range follows) of a NACK.\<close>

definition am_has_offsets :: "missing_data \<Rightarrow> bool" where
  "am_has_offsets m = (\<not> (md_so_start m = 0 \<and> md_so_end m = 65535))"

definition am_has_range :: "missing_data \<Rightarrow> bool" where
  "am_has_range m = (md_sn_start m \<noteq> md_sn_end m)"

text \<open>The fields of a NACK; the address of \<open>so_end\<close> is its index in the buffer.\<close>

definition am_put_nack :: "nr_rlc_entity_am \<Rightarrow> nr_rlc_pdu_encoder \<Rightarrow> missing_data \<Rightarrow> int
    \<Rightarrow> (int option \<times> nr_rlc_pdu_encoder) res" where
  "am_put_nack e enc m cur_sn_count =
     res_bind (nr_rlc_pdu_encoder_put_bits enc (md_sn_start m) (sn_field_length e)) (\<lambda>enc.
     res_bind (nr_rlc_pdu_encoder_put_bits enc 0 1) (\<lambda>enc.
     res_bind (nr_rlc_pdu_encoder_put_bits enc (of_bool (am_has_offsets m)) 1) (\<lambda>enc.
     res_bind (nr_rlc_pdu_encoder_put_bits enc (of_bool (am_has_range m)) 1) (\<lambda>enc.
     res_bind (nr_rlc_pdu_encoder_put_bits enc 0 (if sn_field_length e = 18 then 3 else 1)) (\<lambda>enc.
     res_bind (if am_has_offsets m
               then res_bind (nr_rlc_pdu_encoder_put_bits enc (md_so_start m) 16) (\<lambda>enc.
                    res_bind (nr_rlc_pdu_encoder_put_bits enc (md_so_end m) 16) (\<lambda>enc'.
                    Inr (Some (e_byte enc), enc')))
               else Inr (None, enc)) (\<lambda>(so_end_address, enc).
     res_bind (if am_has_range m then nr_rlc_pdu_encoder_put_bits enc cur_sn_count 8 else Inr enc) (\<lambda>enc.
     Inr (so_end_address, enc))))))))"

record am_gen =
  g_enc :: nr_rlc_pdu_encoder
  g_e1_byte :: int
  g_e1_bit :: int
  g_truncated :: bool
  g_so_end :: "int option"
  g_sn_count :: int
  g_sn_start :: int
  g_last_nack :: int

definition generate_missing_step ::
  "nr_rlc_entity_am \<Rightarrow> missing_data \<Rightarrow> am_gen \<Rightarrow> am_gen res" where
  "generate_missing_step e m g =
     (let cur_sn_count = am_cur_count (g_sn_count g);
          m_nack = am_next_range e m (g_sn_count g) (g_sn_start g);
          enc = g_enc g in
      if e_byte enc + nack_size e m_nack > e_size enc then Inr (g\<lparr>g_truncated := True\<rparr>)
      else
        res_bind (c_index (e_buffer enc) (g_e1_byte g)) (\<lambda>v.
        res_bind (c_store (e_buffer enc) (g_e1_byte g) (v OR push_bit (nat (g_e1_bit g)) 1)) (\<lambda>buf.
        let enc = enc\<lparr>e_buffer := buf\<rparr>;
            (e1_byte, e1_bit) = get_e1_position e enc in
        res_bind (am_put_nack e enc m_nack cur_sn_count) (\<lambda>(so_end, enc).
        Inr (g\<lparr>g_enc := enc, g_e1_byte := e1_byte, g_e1_bit := e1_bit, g_so_end := so_end,
               g_last_nack := (if am_has_range m_nack then md_sn_start m_nack + (cur_sn_count - 1)
                               else md_sn_start m_nack),
               g_sn_count := g_sn_count g - cur_sn_count,
               g_sn_start := (g_sn_start g + cur_sn_count) smod sn_modulus e\<rparr>)))))"

text \<open>
  \<open>generate_missing\<close>: leaving the loop early sets \<open>generation_truncated\<close>, which its caller has
  cleared, and \<open>m->next = NULL\<close>.
\<close>

definition generate_missing :: "nr_rlc_entity_am \<Rightarrow> missing_data \<Rightarrow> am_gen \<Rightarrow> (am_gen \<times> missing_data) res" where
  "generate_missing e m g =
     res_bind (while_res (\<lambda>g. Inr (g_sn_count g \<noteq> 0 \<and> \<not> g_truncated g)) (generate_missing_step e m)
       (g\<lparr>g_sn_count := am_sn_count e m, g_sn_start := md_sn_start m, g_last_nack := -1\<rparr>)) (\<lambda>g.
     Inr (g, if g_truncated g then m\<lparr>md_next := []\<rparr> else m))"

section \<open>The report\<close>

text \<open>
  The loop of \<open>generate_status\<close> over the missing parts; its state is \<open>cur\<close>, \<open>check_head\<close>,
  \<open>last_nack\<close> and the state of the encoding. \<open>break\<close> is \<open>cur = NULL\<close>.
\<close>

definition generate_status_step ::
  "nr_rlc_entity_am \<Rightarrow> nr_rlc_pdu list \<times> bool \<times> int \<times> am_gen
   \<Rightarrow> (nr_rlc_pdu list \<times> bool \<times> int \<times> am_gen) res" where
  "generate_status_step e = (\<lambda>(cur, check_head, last_nack, g).
     res_bind (next_missing e cur check_head) (\<lambda>m.
     if md_sn_start m = -1 then Inr ([], False, last_nack, g)
     else
       res_bind (generate_missing e m (g\<lparr>g_truncated := False\<rparr>)) (\<lambda>(g, m).
       let last_nack = (if g_last_nack g \<noteq> -1 then g_last_nack g else last_nack) in
       res_bind (case g_so_end g of
                   Some a \<Rightarrow> if g_truncated g
                     then res_bind (c_store (e_buffer (g_enc g)) a 255) (\<lambda>buf.
                          c_store buf (a + 1) 255)
                     else Inr (e_buffer (g_enc g))
                 | None \<Rightarrow> Inr (e_buffer (g_enc g))) (\<lambda>buf.
       Inr (md_next m, False, last_nack, g\<lparr>g_enc := (g_enc g)\<lparr>e_buffer := buf\<rparr>\<rparr>)))))"

text \<open>The acknowledged sequence number is written over the first three bytes.\<close>

definition am_put_ack_sn :: "nr_rlc_entity_am \<Rightarrow> byte list \<Rightarrow> int \<Rightarrow> byte list res" where
  "am_put_ack_sn e buf ack_sn =
     (if sn_field_length e = 12
      then res_bind (c_store buf 0 (word_of_int (drop_bit 8 ack_sn))) (\<lambda>buf.
           c_store buf 1 (word_of_int (ack_sn AND 255)))
      else res_bind (c_store buf 0 (word_of_int (drop_bit 14 ack_sn))) (\<lambda>buf.
           res_bind (c_store buf 1 (word_of_int (drop_bit 6 ack_sn AND 255))) (\<lambda>buf.
           res_bind (c_index buf 2) (\<lambda>v.
           c_store buf 2 (v OR word_of_int (push_bit 2 (ack_sn AND 63)))))))"

definition generate_status ::
  "nr_rlc_entity_am \<Rightarrow> byte list \<Rightarrow> (int \<times> byte list \<times> nr_rlc_entity_am) res" where
  "generate_status e buf =
     (if int (length buf) < 3 then Inr (0, buf, e)
      else
        let last_nack = (rx_next e - 1 + sn_modulus e) smod sn_modulus e in
        res_bind (nr_rlc_pdu_encoder_put_bits (nr_rlc_pdu_encoder_init buf) 0 (8 * 3)) (\<lambda>enc.
        res_bind (get_first_rx_pdu e) (\<lambda>cur.
        res_bind (while_res (\<lambda>(cur, _). Inr (cur \<noteq> [])) (generate_status_step e)
          (cur, True, last_nack,
           \<lparr>g_enc = enc, g_e1_byte = 2, g_e1_bit = (if sn_field_length e = 18 then 1 else 7),
            g_truncated = False, g_so_end = None, g_sn_count = 0, g_sn_start = 0, g_last_nack = -1\<rparr>))
          (\<lambda>(_, _, last_nack, g).
        let enc = g_enc g; ack_sn = (last_nack + 1) smod sn_modulus e in
        res_bind (am_put_ack_sn e (e_buffer enc) ack_sn) (\<lambda>buf.
        let e = e\<lparr>status_triggered := False, t_status_prohibit_start := t_current e\<rparr>;
            e = common_update (stats_update (\<lambda>s. s\<lparr>txpdu_pkts := txpdu_pkts s + 1,
                  txpdu_bytes := txpdu_bytes s + of_int (e_byte enc),
                  txpdu_status_pkts := txpdu_status_pkts s + 1,
                  txpdu_status_bytes := txpdu_status_bytes s + of_int (e_byte enc)\<rparr>)) e
        in Inr (e_byte enc, buf, e))))))"

definition status_to_report :: "nr_rlc_entity_am \<Rightarrow> bool" where
  "status_to_report e =
     (status_triggered e
      \<and> (t_status_prohibit_start e = 0
         \<or> t_current e - t_status_prohibit_start e > of_int (t_status_prohibit e)))"

section \<open>The size of a report\<close>

text \<open>The loop of \<open>missing_size\<close>: \<open>sn_count\<close>, \<open>sn_start\<close>, \<open>*size\<close>, \<open>range_count\<close>, \<open>break\<close>.\<close>

definition missing_size_step ::
  "nr_rlc_entity_am \<Rightarrow> missing_data \<Rightarrow> int \<Rightarrow> int \<times> int \<times> int \<times> int \<times> bool
   \<Rightarrow> int \<times> int \<times> int \<times> int \<times> bool" where
  "missing_size_step e m maxsize = (\<lambda>(sn_count, sn_start, n, range_count, stop).
     let r_bits = (if sn_field_length e = 18 then 3 else 1);
         cur_sn_count = am_cur_count sn_count;
         m_nack = am_next_range e m sn_count sn_start in
     if n + nack_size e m_nack > maxsize then (sn_count, sn_start, n, range_count, True)
     else
       let bits = sn_field_length e + 3 + r_bits;
           n = (if md_sn_start m_nack = md_sn_end m_nack
                then if md_so_start m_nack = 0 \<and> md_so_end m_nack = 65535 then n + bits sdiv 8
                     else n + (bits + 16 * 2) sdiv 8
                else if md_so_start m_nack = 0 \<and> md_so_end m_nack = 65535 then n + (bits + 8) sdiv 8
                     else n + (bits + 16 * 2 + 8) sdiv 8)
       in (sn_count - cur_sn_count, (sn_start + cur_sn_count) smod sn_modulus e, n, range_count + 1, False))"

text \<open>Returns \<open>range_count\<close>, the new \<open>*size\<close> and \<open>m\<close>.\<close>

definition missing_size ::
  "nr_rlc_entity_am \<Rightarrow> missing_data \<Rightarrow> int \<Rightarrow> int \<Rightarrow> (int \<times> int \<times> missing_data) res" where
  "missing_size e m n maxsize =
     res_bind (while_res (\<lambda>(sn_count, _, _, _, stop). Inr (sn_count \<noteq> 0 \<and> \<not> stop))
       (\<lambda>st. Inr (missing_size_step e m maxsize st)) (am_sn_count e m, md_sn_start m, n, 0, False))
       (\<lambda>(_, _, n, range_count, stop). Inr (range_count, n, if stop then m\<lparr>md_next := []\<rparr> else m))"

definition status_size :: "nr_rlc_entity_am \<Rightarrow> int \<Rightarrow> int res" where
  "status_size e maxsize =
     (if maxsize < 3 then Inr 0
      else
        res_bind (get_first_rx_pdu e) (\<lambda>cur.
        res_bind (while_res (\<lambda>(cur, _). Inr (cur \<noteq> []))
          (\<lambda>(cur, nack_count, n).
             res_bind (next_missing e cur (nack_count = 0)) (\<lambda>m.
             if md_sn_start m = -1 then Inr ([], nack_count, n)
             else res_bind (missing_size e m n maxsize) (\<lambda>(cnt, n, m).
                  Inr (md_next m, nack_count + cnt, n))))
          (cur, 0, 3)) (\<lambda>(_, _, n). Inr n)))"

end
