(* ===== verification/RLC_AM_Entity.thy ===== *)
theory RLC_AM_Entity
  imports RLC_AM_Control RLC_AM_Status
begin

text \<open>
  The entry points of the acknowledged-mode entity of \<open>nr_rlc_entity_am.c\<close>: reception of
  PDUs, transmission and retransmission, polling, reception of SDUs, timers, discard and
  re-establishment.
\<close>

section \<open>Reception of PDUs\<close>

definition am_count_pdu :: "nr_rlc_entity_am \<Rightarrow> int \<Rightarrow> nr_rlc_entity_am" where
  "am_count_pdu e n =
     common_update (stats_update (\<lambda>s. s\<lparr>rxpdu_pkts := rxpdu_pkts s + 1,
       rxpdu_bytes := rxpdu_bytes s + of_int n\<rparr>)) e"

text \<open>\<open>discard\<close>: a poll is answered even if the PDU is not kept.\<close>

definition am_discard_pdu :: "nr_rlc_entity_am \<Rightarrow> int \<Rightarrow> int \<Rightarrow> nr_rlc_entity_am" where
  "am_discard_pdu e p n =
     common_update (stats_update (\<lambda>s. s\<lparr>rxpdu_dd_pkts := rxpdu_dd_pkts s + 1,
       rxpdu_dd_bytes := rxpdu_dd_bytes s + of_int n\<rparr>))
       (if p \<noteq> 0 then e\<lparr>status_triggered := True\<rparr> else e)"

definition am_count_out_of_window :: "nr_rlc_entity_am \<Rightarrow> int \<Rightarrow> nr_rlc_entity_am" where
  "am_count_out_of_window e n =
     common_update (stats_update (\<lambda>s. s\<lparr>rxpdu_ow_pkts := rxpdu_ow_pkts s + 1,
       rxpdu_ow_bytes := rxpdu_ow_bytes s + of_int n\<rparr>)) e"

definition am_count_duplicate :: "nr_rlc_entity_am \<Rightarrow> int \<Rightarrow> nr_rlc_entity_am" where
  "am_count_duplicate e n =
     common_update (stats_update (\<lambda>s. s\<lparr>rxpdu_dup_pkts := rxpdu_dup_pkts s + 1,
       rxpdu_dup_bytes := rxpdu_dup_bytes s + of_int n\<rparr>)) e"

text \<open>The part of \<open>recv_pdu\<close> after the header of a data PDU.\<close>

definition am_recv_segment ::
  "nr_rlc_entity_am \<Rightarrow> byte list \<Rightarrow> nr_rlc_pdu_decoder \<Rightarrow> int \<Rightarrow> int \<Rightarrow> int \<Rightarrow> bool \<Rightarrow> bool
   \<Rightarrow> nr_rlc_entity_am res" where
  "am_recv_segment e buf d p sn so is_first is_last =
     (let size = int (length buf); data_size = size - d_byte d in
      if data_size \<le> 0 then Inr (am_discard_pdu e p size)
      else if rx_size e + data_size > rx_maxsize e then Inr (am_discard_pdu e p size)
      else if \<not> sn_in_recv_window e sn then Inr (am_discard_pdu (am_count_out_of_window e size) p size)
      else
        res_bind (segment_already_received e sn so data_size) (\<lambda>received.
        if received then Inr (am_discard_pdu (am_count_duplicate e size) p size)
        else
          let e = e\<lparr>rx_size := rx_size e + data_size\<rparr> in
          res_bind (c_slice buf (size - data_size) data_size) (\<lambda>bytes.
          let pdu = nr_rlc_new_pdu sn so is_first is_last bytes in
          res_bind (nr_rlc_rx_manager_add_pdu (rx e) pdu) (\<lambda>m.
          res_bind (am_reception_actions (e\<lparr>rx := m\<rparr>) pdu) (\<lambda>e.
          Inr (if p \<noteq> 0 then e\<lparr>status_triggered := True\<rparr> else e))))))"

definition nr_rlc_entity_am_recv_pdu :: "nr_rlc_entity_am \<Rightarrow> byte list \<Rightarrow> nr_rlc_entity_am res" where
  "nr_rlc_entity_am_recv_pdu e buf =
     (let size = int (length buf); e = am_count_pdu e size in
      res_bind (nr_rlc_pdu_decoder_get_bits (nr_rlc_pdu_decoder_init buf) 1) (\<lambda>(dc, d).
      if d_error d then Inr (am_discard_pdu e 0 size)
      else if dc = 0 then am_process_control_pdu e buf
      else
        res_bind (nr_rlc_pdu_decoder_get_bits d 1) (\<lambda>(p, d).
        let discard = Inr (am_discard_pdu e p size) in
        if d_error d then discard
        else
          res_bind (nr_rlc_pdu_decoder_get_bits d 2) (\<lambda>(si, d).
          if d_error d then discard
          else
            let is_first = (si AND 2 = 0); is_last = (si AND 1 = 0) in
            res_bind (if sn_field_length e = 18 then nr_rlc_pdu_decoder_get_bits d 2 else Inr (0, d)) (\<lambda>(_, d).
            if d_error d then discard
            else
              res_bind (nr_rlc_pdu_decoder_get_bits d (sn_field_length e)) (\<lambda>(sn, d).
              if d_error d then discard
              else if \<not> is_first
              then res_bind (nr_rlc_pdu_decoder_get_bits d 16) (\<lambda>(so, d).
                   if d_error d then discard
                   else if so = 0 then discard
                   else am_recv_segment e buf d p sn so is_first is_last)
              else am_recv_segment e buf d p sn 0 is_first is_last))))))"

section \<open>Transmission\<close>

definition is_window_stalling :: "nr_rlc_entity_am \<Rightarrow> bool" where
  "is_window_stalling e =
     (\<not> (am_sn_compare_tx e (tx_next_ack e) (tx_next e) \<le> 0
         \<and> am_sn_compare_tx e (tx_next e) ((tx_next_ack e + window_size e) smod sn_modulus e) < 0))"

definition include_poll ::
  "nr_rlc_entity_am \<Rightarrow> byte list \<Rightarrow> (byte list \<times> nr_rlc_entity_am) res" where
  "include_poll e buf =
     res_bind (c_index buf 0) (\<lambda>v.
     res_bind (c_store buf 0 (v OR 0x40)) (\<lambda>buf.
     Inr (buf, e\<lparr>pdu_without_poll := 0, byte_without_poll := 0,
                 poll_sn := (tx_next e - 1 + sn_modulus e) smod sn_modulus e,
                 t_poll_retransmit_start := t_current e\<rparr>)))"

definition check_poll_after_pdu_assembly :: "nr_rlc_entity_am \<Rightarrow> bool" where
  "check_poll_after_pdu_assembly e =
     ((tx_list e = [] \<and> retransmit_list e = []) \<or> is_window_stalling e)"

definition am_serialize_sdu ::
  "nr_rlc_entity_am \<Rightarrow> nr_rlc_sdu_segment \<Rightarrow> byte list \<Rightarrow> bool
   \<Rightarrow> (int \<times> byte list \<times> nr_rlc_entity_am) res" where
  "am_serialize_sdu e sdu buf p =
     res_bind (nr_rlc_pdu_encoder_put_bits (nr_rlc_pdu_encoder_init buf) 1 1) (\<lambda>c.
     res_bind (nr_rlc_pdu_encoder_put_bits c 0 1) (\<lambda>c.
     res_bind (nr_rlc_pdu_encoder_put_bits c (1 - of_bool (seg_is_first sdu)) 1) (\<lambda>c.
     res_bind (nr_rlc_pdu_encoder_put_bits c (1 - of_bool (seg_is_last sdu)) 1) (\<lambda>c.
     res_bind (if sn_field_length e = 18 then nr_rlc_pdu_encoder_put_bits c 0 2 else Inr c) (\<lambda>c.
     res_bind (sdu_read (mem (common e)) (seg_sdu sdu)) (\<lambda>s.
     res_bind (nr_rlc_pdu_encoder_put_bits c (sdu_sn s) (sn_field_length e)) (\<lambda>c.
     res_bind (if \<not> seg_is_first sdu then nr_rlc_pdu_encoder_put_bits c (seg_so sdu) 16 else Inr c) (\<lambda>c.
     res_bind (c_slice (sdu_data s) (seg_so sdu) (seg_size sdu)) (\<lambda>bytes.
     res_bind (c_blit (e_buffer c) (e_byte c) bytes) (\<lambda>buf.
     res_bind (if p then include_poll e buf else Inr (buf, e)) (\<lambda>(buf, e).
     Inr (e_byte c + seg_size sdu, buf, e))))))))))))"

text \<open>Returns the second segment, the first one, and the entity.\<close>

definition am_resegment :: "nr_rlc_sdu_segment \<Rightarrow> nr_rlc_entity_am \<Rightarrow> int
    \<Rightarrow> (nr_rlc_sdu_segment \<times> nr_rlc_sdu_segment \<times> nr_rlc_entity_am) res" where
  "am_resegment sdu e room =
     res_bind (sdu_read (mem (common e)) (seg_sdu sdu)) (\<lambda>s.
     let m = sdu_write (mem (common e)) (seg_sdu sdu) (s\<lparr>sdu_ref_count := sdu_ref_count s + 1\<rparr>);
         pdu_header_size = am_compute_pdu_header_size e sdu;
         next = sdu\<lparr>seg_ptr := brk m\<rparr>;
         e = common_update (mem_update (\<lambda>_. m\<lparr>brk := brk m + 1\<rparr>)) e;
         over_size = pdu_header_size + seg_size sdu - room;
         sdu = sdu\<lparr>seg_size := seg_size sdu - over_size, seg_is_last := False\<rparr>;
         next = next\<lparr>seg_size := over_size, seg_so := seg_so sdu + seg_size sdu,
                     seg_is_first := False\<rparr>
     in Inr (next, sdu, e))"

text \<open>\<open>entity->wait_end->...\<close>: the node of the wait list at that address.\<close>

fun node_at :: "nr_rlc_sdu_segment list \<Rightarrow> addr \<Rightarrow> nr_rlc_sdu_segment res" where
  "node_at [] p = Inl Use_after_free"
| "node_at (x # xs) p = (if seg_ptr x = p then Inr x else node_at xs p)"

text \<open>A segment that has been sent goes to the wait list, at its end when it comes after it.\<close>

definition am_put_in_wait_list ::
  "nr_rlc_entity_am \<Rightarrow> nr_rlc_sdu_segment \<Rightarrow> nr_rlc_entity_am res" where
  "am_put_in_wait_list e sdu =
     res_bind (case wait_end e of
                 None \<Rightarrow> Inr True
               | Some p \<Rightarrow>
                   res_bind (node_at (wait_list e) p) (\<lambda>w.
                   res_bind (seg_sn e sdu) (\<lambda>sn.
                   res_bind (seg_sn e w) (\<lambda>w_sn.
                   Inr (am_sn_compare_tx e sn w_sn > 0
                        \<or> (am_sn_compare_tx e sn w_sn = 0 \<and> seg_so sdu > seg_so w)))))) (\<lambda>at_end.
     if at_end
     then res_bind (nr_rlc_sdu_segment_list_append (wait_list e) (wait_end e) sdu) (\<lambda>(l, l_end).
          Inr (e\<lparr>wait_list := l, wait_end := l_end\<rparr>))
     else res_bind (nr_rlc_tx_sdu_segment_list_add e (wait_list e) sdu) (\<lambda>l.
          Inr (e\<lparr>wait_list := l,
                 wait_end := (case l of [x] \<Rightarrow> Some (seg_ptr x) | _ \<Rightarrow> wait_end e)\<rparr>)))"

text \<open>A pending forced poll is taken.\<close>

definition am_take_force_poll :: "nr_rlc_entity_am \<Rightarrow> bool \<Rightarrow> bool \<times> nr_rlc_entity_am" where
  "am_take_force_poll e p = (if force_poll e then (True, e\<lparr>force_poll := False\<rparr>) else (p, e))"

definition am_generate_retx_pdu ::
  "nr_rlc_entity_am \<Rightarrow> byte list \<Rightarrow> (int \<times> byte list \<times> nr_rlc_entity_am) res" where
  "am_generate_retx_pdu e buf =
     (let size = int (length buf) in
      case retransmit_list e of
        [] \<Rightarrow> Inl Null_deref
      | sdu # rest \<Rightarrow>
          let pdu_header_size = am_compute_pdu_header_size e sdu in
          if pdu_header_size + 1 > size then Inr (0, buf, e)
          else
            let e = e\<lparr>retransmit_list := rest\<rparr>;
                pdu_size = pdu_header_size + seg_size sdu;
                e = common_update (bstatus_update (\<lambda>b. b\<lparr>bs_retx_size := bs_retx_size b - pdu_size\<rparr>)) e in
            res_bind (if pdu_size > size
                      then res_bind (am_resegment sdu e size) (\<lambda>(next, sdu, e).
                           let e = e\<lparr>retransmit_list := next # retransmit_list e\<rparr>;
                               e = common_update (bstatus_update (\<lambda>b. b\<lparr>bs_retx_size := bs_retx_size b
                                     + (am_compute_pdu_header_size e next + seg_size next)\<rparr>)) e
                           in Inr (sdu, common_update (stats_update (\<lambda>s. s\<lparr>txpdu_segmented :=
                                     txpdu_segmented s + 1\<rparr>)) e))
                      else Inr (sdu, e)) (\<lambda>(sdu, e).
            res_bind (am_put_in_wait_list e sdu) (\<lambda>e.
            let (p, e) = am_take_force_poll e (check_poll_after_pdu_assembly e) in
            res_bind (am_serialize_sdu e sdu buf p) (\<lambda>(ret_size, buf, e).
            Inr (ret_size, buf, common_update (stats_update (\<lambda>s. s\<lparr>txpdu_pkts := txpdu_pkts s + 1,
                   txpdu_bytes := txpdu_bytes s + of_int ret_size,
                   txpdu_retx_pkts := txpdu_retx_pkts s + 1,
                   txpdu_retx_bytes := txpdu_retx_bytes s + of_int ret_size\<rparr>)) e)))))"

text \<open>An SDU sent for the first time gets the next sequence number.\<close>

definition am_assign_sn :: "nr_rlc_entity_am \<Rightarrow> nr_rlc_sdu_segment \<Rightarrow> nr_rlc_entity_am res" where
  "am_assign_sn e sdu =
     res_bind (sdu_read (mem (common e)) (seg_sdu sdu)) (\<lambda>s.
     if sdu_sn s = -1
     then let e = common_update (mem_update (\<lambda>m. sdu_write m (seg_sdu sdu) (s\<lparr>sdu_sn := tx_next e\<rparr>))) e
          in Inr (e\<lparr>tx_next := (tx_next e + 1) smod sn_modulus e\<rparr>)
     else Inr e)"

text \<open>The rest of an SDU that does not fit goes back to the head of the transmit list.\<close>

definition am_segment_tx ::
  "nr_rlc_entity_am \<Rightarrow> nr_rlc_sdu_segment \<Rightarrow> int \<Rightarrow> (nr_rlc_sdu_segment \<times> nr_rlc_entity_am) res" where
  "am_segment_tx e sdu room =
     res_bind (am_resegment sdu e room) (\<lambda>(next, sdu, e).
     let e = e\<lparr>tx_list := next # tx_list e,
               tx_end := if tx_end e = None then Some (seg_ptr next) else tx_end e\<rparr>;
         e = common_update (stats_update (\<lambda>s. s\<lparr>txpdu_segmented := txpdu_segmented s + 1\<rparr>)) e
     in Inr (sdu, common_update (bstatus_update (\<lambda>b. b\<lparr>bs_tx_size := bs_tx_size b
               + (am_compute_pdu_header_size e next + seg_size next)\<rparr>)) e))"

text \<open>Polling for a new PDU (\<open>poll_pdu\<close>, \<open>poll_byte\<close>, empty buffers, stalled window).\<close>

definition am_poll_new_pdu :: "nr_rlc_entity_am \<Rightarrow> nr_rlc_sdu_segment \<Rightarrow> bool \<times> nr_rlc_entity_am" where
  "am_poll_new_pdu e sdu =
     (let e = e\<lparr>pdu_without_poll := pdu_without_poll e + 1,
                byte_without_poll := byte_without_poll e + seg_size sdu\<rparr>;
          p = (if (poll_pdu e \<noteq> -1 \<and> pdu_without_poll e \<ge> poll_pdu e)
                  \<or> (poll_byte e \<noteq> -1 \<and> byte_without_poll e \<ge> poll_byte e)
               then True else check_poll_after_pdu_assembly e)
      in am_take_force_poll e p)"

definition am_generate_tx_pdu ::
  "u64 \<Rightarrow> nr_rlc_entity_am \<Rightarrow> byte list \<Rightarrow> (int \<times> byte list \<times> nr_rlc_entity_am) res" where
  "am_generate_tx_pdu now e buf =
     (let size = int (length buf) in
      if is_window_stalling e then Inr (0, buf, e)
      else case tx_list e of
        [] \<Rightarrow> Inr (0, buf, e)
      | sdu # rest \<Rightarrow>
          let pdu_header_size = am_compute_pdu_header_size e sdu in
          if pdu_header_size + 1 > size then Inr (0, buf, e)
          else
            let e = e\<lparr>tx_list := rest, tx_end := if rest = [] then None else tx_end e\<rparr>;
                pdu_size = pdu_header_size + seg_size sdu;
                e = common_update (bstatus_update (\<lambda>b. b\<lparr>bs_tx_size := bs_tx_size b - pdu_size\<rparr>)) e in
            res_bind (am_assign_sn e sdu) (\<lambda>e.
            res_bind (if pdu_size > size then am_segment_tx e sdu size else Inr (sdu, e)) (\<lambda>(sdu, e).
            res_bind (am_put_in_wait_list e sdu) (\<lambda>e.
            let (p, e) = am_poll_new_pdu e sdu in
            res_bind (am_serialize_sdu e sdu buf p) (\<lambda>(ret_size, buf, e).
            let e = common_update (stats_update (\<lambda>s. s\<lparr>txpdu_pkts := txpdu_pkts s + 1,
                      txpdu_bytes := txpdu_bytes s + of_int ret_size\<rparr>)) e in
            res_bind (sdu_read (mem (common e)) (seg_sdu sdu)) (\<lambda>s.
            res_bind (account_waiting_time now s (common e)) (\<lambda>c.
            Inr (ret_size, buf, e\<lparr>common := c\<rparr>))))))))"

definition nr_rlc_entity_am_buffer_status ::
  "nr_rlc_entity_am \<Rightarrow> int \<Rightarrow> nr_rlc_entity_buffer_status res" where
  "nr_rlc_entity_am_buffer_status e maxsize =
     res_bind (if status_to_report e then status_size e maxsize else Inr 0) (\<lambda>n.
     Inr \<lparr>bs_status_size = n, bs_tx_size = bs_tx_size (bstatus (common e)),
          bs_retx_size = bs_retx_size (bstatus (common e))\<rparr>)"

definition nr_rlc_entity_am_generate_pdu ::
  "u64 \<Rightarrow> nr_rlc_entity_am \<Rightarrow> byte list \<Rightarrow> (int \<times> byte list \<times> nr_rlc_entity_am) res" where
  "nr_rlc_entity_am_generate_pdu now e buf =
     res_bind (if status_to_report e then generate_status e buf else Inr (0, buf, e)) (\<lambda>(ret, buf, e).
     if ret \<noteq> 0 then Inr (ret, buf, e)
     else
       res_bind (if retransmit_list e \<noteq> [] then am_generate_retx_pdu e buf else Inr (0, buf, e))
         (\<lambda>(ret, buf, e).
       if ret \<noteq> 0 then Inr (ret, buf, e)
       else am_generate_tx_pdu now e buf))"

section \<open>Reception of SDUs\<close>

definition am_log_rejected :: "nr_rlc_entity_am \<Rightarrow> nr_rlc_entity_am" where
  "am_log_rejected e =
     (if sdu_rejected e \<noteq> 0 \<and> t_current e > t_log_buffer_full e + 1280
      then e\<lparr>sdu_rejected := 0, t_log_buffer_full := t_current e\<rparr> else e)"

definition am_reject_sdu :: "nr_rlc_entity_am \<Rightarrow> int \<Rightarrow> nr_rlc_entity_am" where
  "am_reject_sdu e n =
     common_update (stats_update (\<lambda>s. s\<lparr>txpdu_dd_pkts := txpdu_dd_pkts s + 1,
       txpdu_dd_bytes := txpdu_dd_bytes s + of_int n\<rparr>)) (e\<lparr>sdu_rejected := sdu_rejected e + 1\<rparr>)"

definition nr_rlc_entity_am_recv_sdu ::
  "u64 \<Rightarrow> nr_rlc_entity_am \<Rightarrow> byte list \<Rightarrow> int \<Rightarrow> nr_rlc_entity_am res" where
  "nr_rlc_entity_am_recv_sdu now e buf sdu_id =
     (let size = int (length buf);
          e = common_update (stats_update (\<lambda>s. s\<lparr>rxsdu_pkts := rxsdu_pkts s + 1\<rparr>)) e
      in if \<not> size \<le> NR_SDU_MAX then Inl Assert_fatal
      else
        let e = am_log_rejected e
        in if tx_size e + size > tx_maxsize e then Inr (am_reject_sdu e size)
        else
          let e = e\<lparr>tx_size := tx_size e + size\<rparr>;
              e = common_update (stats_update (\<lambda>s. s\<lparr>rxsdu_bytes := rxsdu_bytes s + of_int size\<rparr>)) e;
              (sdu, m) = nr_rlc_new_sdu (mem (common e)) buf sdu_id in
          res_bind (nr_rlc_sdu_segment_list_append (tx_list e) (tx_end e) sdu) (\<lambda>(l, l_end).
          let c = bstatus_update (\<lambda>b. b\<lparr>bs_tx_size := bs_tx_size b
                    + (am_compute_pdu_header_size e sdu + seg_size sdu)\<rparr>) ((common e)\<lparr>mem := m\<rparr>);
              e = e\<lparr>tx_list := l, tx_end := l_end, common := c\<rparr> in
          if avg_time_is_on c
          then res_bind (sdu_read m (seg_sdu sdu)) (\<lambda>s.
               Inr (e\<lparr>common := c\<lparr>mem := sdu_write m (seg_sdu sdu)
                                            (s\<lparr>sdu_time_of_arrival := now\<rparr>)\<rparr>\<rparr>))
          else Inr e))"

section \<open>Timers\<close>

text \<open>
  The loop of \<open>check_t_poll_retransmit\<close>: the segments at the head of the wait list that have
  the sequence number to retransmit go to the retransmit list. The first turn is
  unconditional (\<open>do\<close> ... \<open>while\<close>).
\<close>

definition am_retransmit_segment ::
  "nr_rlc_entity_am \<Rightarrow> nr_rlc_sdu_segment \<Rightarrow> nr_rlc_sdu_segment list \<Rightarrow> nr_rlc_entity_am res" where
  "am_retransmit_segment e cur rest =
     (let e = e\<lparr>wait_list := rest, wait_end := if rest = [] then None else wait_end e\<rparr>;
          e = common_update (bstatus_update (\<lambda>b. b\<lparr>bs_retx_size := bs_retx_size b
                + (am_compute_pdu_header_size e cur + seg_size cur)\<rparr>)) e in
      res_bind (nr_rlc_tx_sdu_segment_list_add e (retransmit_list e) cur) (\<lambda>l.
      Inr (e\<lparr>retransmit_list := l\<rparr>)))"

fun am_retransmit_loop ::
  "int \<Rightarrow> nr_rlc_sdu_segment list \<Rightarrow> nr_rlc_entity_am \<Rightarrow> nr_rlc_entity_am res" where
  "am_retransmit_loop retransmit_sn [] e = Inr e"
| "am_retransmit_loop retransmit_sn (cur # rest) e =
     res_bind (seg_sn e cur) (\<lambda>sn.
     if sn = retransmit_sn
     then res_bind (am_retransmit_segment e cur rest) (am_retransmit_loop retransmit_sn rest)
     else Inr e)"

definition am_check_t_poll_retransmit :: "nr_rlc_entity_am \<Rightarrow> nr_rlc_entity_am res" where
  "am_check_t_poll_retransmit e =
     (if t_poll_retransmit_start e = 0
         \<or> t_current e \<le> t_poll_retransmit_start e + of_int (t_poll_retransmit e)
      then Inr e
      else
        let e = e\<lparr>t_poll_retransmit_start := 0, force_poll := True\<rparr> in
        if \<not> check_poll_after_pdu_assembly e then Inr e
        else case wait_list e of
          [] \<Rightarrow> Inl Null_deref
        | cur # rest \<Rightarrow>
            res_bind (sdu_read (mem (common e)) (seg_sdu cur)) (\<lambda>s.
            let s = s\<lparr>sdu_retx_count := sdu_retx_count s + 1\<rparr>;
                e = common_update (mem_update (\<lambda>m. sdu_write m (seg_sdu cur) s)) e in
            res_bind (am_retransmit_segment e cur rest) (\<lambda>e.
            res_bind (am_retransmit_loop (sdu_sn s) rest e) (\<lambda>e.
            Inr (if sdu_retx_count s \<ge> max_retx_threshold e
                 then common_update (calls_update (\<lambda>c. c @ [Max_retx_reached])) e else e)))))"

definition am_check_t_reassembly :: "nr_rlc_entity_am \<Rightarrow> nr_rlc_entity_am res" where
  "am_check_t_reassembly e =
     (if t_reassembly_start e = 0 \<or> t_current e \<le> t_reassembly_start e + of_int (t_reassembly e)
      then Inr e
      else
        let e = e\<lparr>t_reassembly_start := 0\<rparr> in
        res_bind (am_skip_delivered e (rx_next_status_trigger e)) (\<lambda>sn.
        let e = e\<lparr>rx_highest_status := sn, status_triggered := True\<rparr> in
        res_bind (if am_sn_compare_rx e (rx_next_highest e)
                       ((rx_highest_status e + 1) smod sn_modulus e) > 0
                  then Inr True
                  else if rx_next_highest e = (rx_highest_status e + 1) smod sn_modulus e
                  then am_sdu_has_missing_bytes e (rx_highest_status e) else Inr False) (\<lambda>start.
        Inr (if start then e\<lparr>t_reassembly_start := t_current e,
                            rx_next_status_trigger := rx_next_highest e\<rparr>
             else e))))"

definition nr_rlc_entity_am_set_time :: "nr_rlc_entity_am \<Rightarrow> u64 \<Rightarrow> nr_rlc_entity_am res" where
  "nr_rlc_entity_am_set_time e now =
     res_bind (am_check_t_poll_retransmit (e\<lparr>t_current := now\<rparr>)) am_check_t_reassembly"

section \<open>Discard, re-establishment, deletion\<close>

fun am_find_sdu :: "sdu_mem \<Rightarrow> int \<Rightarrow> nr_rlc_sdu_segment list
    \<Rightarrow> (nr_rlc_sdu_segment list \<times> nr_rlc_sdu_segment list) res" where
  "am_find_sdu m sdu_id [] = Inr ([], [])"
| "am_find_sdu m sdu_id (cur # l) =
     res_bind (sdu_read m (seg_sdu cur)) (\<lambda>s.
     if sdu_upper_layer_id s = sdu_id then Inr ([], cur # l)
     else res_bind (am_find_sdu m sdu_id l) (\<lambda>(pre, r). Inr (cur # pre, r)))"

definition nr_rlc_entity_am_discard_sdu :: "nr_rlc_entity_am \<Rightarrow> int \<Rightarrow> nr_rlc_entity_am res" where
  "nr_rlc_entity_am_discard_sdu e sdu_id =
     res_bind (am_find_sdu (mem (common e)) sdu_id (tx_list e)) (\<lambda>(pre, r).
     case r of
       [] \<Rightarrow> Inr e
     | cur # rest \<Rightarrow>
         if \<not> seg_is_first cur \<or> \<not> seg_is_last cur then Inr e
         else
           let e = e\<lparr>tx_list := pre @ rest,
                     tx_end := if tx_end e = Some (seg_ptr cur)
                               then (if pre \<noteq> [] then Some (seg_ptr (last pre)) else None)
                               else tx_end e\<rparr>;
               e = common_update (bstatus_update (\<lambda>b. b\<lparr>bs_tx_size := bs_tx_size b
                     - (am_compute_pdu_header_size e cur + seg_size cur)\<rparr>)) e in
           res_bind (sdu_read (mem (common e)) (seg_sdu cur)) (\<lambda>s.
           let e = e\<lparr>tx_size := tx_size e - sdu_size s\<rparr> in
           res_bind (nr_rlc_free_sdu_segment (mem (common e)) cur) (\<lambda>(_, m).
           Inr (common_update (mem_update (\<lambda>_. m)) e))))"

definition am_clear_entity :: "nr_rlc_entity_am \<Rightarrow> nr_rlc_entity_am res" where
  "am_clear_entity e =
     (let e = e\<lparr>rx_next := 0, rx_next_status_trigger := 0, rx_highest_status := 0, rx_next_highest := 0,
                status_triggered := False, tx_next := 0, tx_next_ack := 0, poll_sn := 0,
                pdu_without_poll := 0, byte_without_poll := 0, force_poll := False, t_current := 0,
                t_log_buffer_full := 0, sdu_rejected := 0, t_poll_retransmit_start := 0,
                t_reassembly_start := 0, t_status_prohibit_start := 0\<rparr> in
      res_bind (nr_rlc_clear_rx_manager (rx e)) (\<lambda>r.
      res_bind (nr_rlc_free_sdu_segment_list (mem (common e)) (tx_list e)) (\<lambda>m.
      res_bind (nr_rlc_free_sdu_segment_list m (wait_list e)) (\<lambda>m.
      res_bind (nr_rlc_free_sdu_segment_list m (retransmit_list e)) (\<lambda>m.
      Inr (e\<lparr>rx := r, rx_size := 0, tx_list := [], tx_end := None, tx_size := 0, wait_list := [],
             wait_end := None, retransmit_list := [],
             common := bstatus_update (\<lambda>b. b\<lparr>bs_tx_size := 0, bs_retx_size := 0\<rparr>)
               ((common e)\<lparr>mem := m\<rparr>)\<rparr>))))))"

definition nr_rlc_entity_am_reestablishment :: "nr_rlc_entity_am \<Rightarrow> nr_rlc_entity_am res" where
  "nr_rlc_entity_am_reestablishment e = am_clear_entity e"

definition nr_rlc_entity_am_delete :: "nr_rlc_entity_am \<Rightarrow> sdu_mem res" where
  "nr_rlc_entity_am_delete e = 
     res_bind (am_clear_entity e) (\<lambda>e.
     res_bind (nr_rlc_free_rx_manager (rx e)) (\<lambda>_. Inr (mem (common e))))"

definition nr_rlc_entity_am_available_tx_space :: "nr_rlc_entity_am \<Rightarrow> int" where
  "nr_rlc_entity_am_available_tx_space e = tx_maxsize e - tx_size e"

definition nr_rlc_entity_am_tx_list_occupancy :: "nr_rlc_entity_am \<Rightarrow> int" where
  "nr_rlc_entity_am_tx_list_occupancy e = tx_size e"

end
