(* ===== verification/RLC_AM_Tx.thy ===== *)
theory RLC_AM_Tx
  imports RLC_AM_Entity
begin

text \<open>
  Status reports are the input a peer controls of an acknowledged-mode transmitter. The
  theorems show that no status report makes \<open>process_control_pdu\<close> fault or loop: the second
  pass reads exactly the NACKs that the first pass has validated, and no SDU is used after it
  has been freed. The invariant \<open>live\<close> says that every SDU referenced from a list of the entity
  is allocated and has at least as many references left as the lists hold segments of it.
\<close>

section \<open>Live segments\<close>

definition live :: "sdu_mem \<Rightarrow> nr_rlc_sdu_segment list \<Rightarrow> bool" where
  "live m segs \<longleftrightarrow> (\<forall>a. 0 < refs segs a \<longrightarrow>
     (\<exists>s. sdus m a = Some s \<and> refs segs a \<le> sdu_ref_count s - sdu_free_count s))"

lemma live_iff [code]:
  "live m segs \<longleftrightarrow> list_all (\<lambda>g. case sdus m (seg_sdu g) of
       None \<Rightarrow> False
     | Some s \<Rightarrow> refs segs (seg_sdu g) \<le> sdu_ref_count s - sdu_free_count s) segs"
  by (fastforce simp: live_def refs_pos_iff list_all_iff split: option.splits)

lemma live_le: "live m segs \<Longrightarrow> (\<And>a. refs segs' a \<le> refs segs a) \<Longrightarrow> live m segs'"
  unfolding live_def by (meson order.strict_trans2 order_trans)

lemma live_read:
  assumes "live m segs" "g \<in> set segs"
  shows "\<exists>s. sdus m (seg_sdu g) = Some s \<and> sdu_read m (seg_sdu g) = Inr s"
proof -
  have "0 < refs segs (seg_sdu g)" using assms(2) by (auto simp: refs_pos_iff)
  then show ?thesis using assms(1) by (fastforce simp: live_def sdu_read_def)
qed

lemma live_free:
  assumes "live m (g # segs)"
  shows "\<exists>freed m'. nr_rlc_free_sdu_segment m g = Inr (freed, m') \<and> live m' segs"
proof -
  let ?a = "seg_sdu g"
  obtain s where s: "sdus m ?a = Some s" "1 + refs segs ?a \<le> sdu_ref_count s - sdu_free_count s"
    using assms by (auto simp: live_def add_pos_nonneg dest!: spec [where x = ?a])
  have o: "0 < refs segs a \<Longrightarrow> \<exists>t. sdus m a = Some t \<and> refs segs a \<le> sdu_ref_count t - sdu_free_count t" if "a \<noteq> ?a" for a
    using assms that by (auto simp: live_def dest!: spec [where x = a])
  show ?thesis
  proof (cases "sdu_free_count s + 1 = sdu_ref_count s")
    case True
    then have "refs segs ?a = 0" using s(2) refs_nonneg [of segs ?a] by linarith
    then show ?thesis using s True o by (auto simp: nr_rlc_free_sdu_segment_def sdu_read_def live_def)
  next
    case False
    then show ?thesis
      using s o by (auto simp: nr_rlc_free_sdu_segment_def sdu_read_def live_def sdu_write_def)
  qed
qed

lemma live_write:
  assumes "live m segs" "sdus m a = Some s" "sdu_ref_count s' = sdu_ref_count s" "sdu_free_count s' = sdu_free_count s"
  shows "live (sdu_write m a s') segs"
  using assms by (auto simp: live_def sdu_write_def)

section \<open>One segment\<close>

lemma am_ack_segment_ok:
  assumes "live (mem (common e)) (g # segs)"
  shows "\<exists>e'. am_ack_segment e g = Inr e' \<and> live (mem (common e')) segs \<and> sn_field_length e' = sn_field_length e \<and> tx_list e' = tx_list e"
proof -
  obtain s where s: "sdu_read (mem (common e)) (seg_sdu g) = Inr s" using live_read [OF assms] by auto
  obtain freed m' where f: "nr_rlc_free_sdu_segment (mem (common e)) g = Inr (freed, m')" "live m' segs"
    using live_free [OF assms] by blast
  then show ?thesis using s by (auto simp: am_ack_segment_def Let_def)
qed

lemma am_nack_segment_ok:
  assumes "live (mem (common e)) segs" "g \<in> set segs"
  shows "\<exists>e'. am_nack_segment e g = Inr e' \<and> live (mem (common e')) segs \<and> sn_field_length e' = sn_field_length e \<and> tx_list e' = tx_list e"
proof -
  obtain s where s: "sdus (mem (common e)) (seg_sdu g) = Some s" "sdu_read (mem (common e)) (seg_sdu g) = Inr s"
    using live_read [OF assms] by blast
  have "live (sdu_write (mem (common e)) (seg_sdu g) (s\<lparr>sdu_retx_count := sdu_retx_count s + 1\<rparr>)) segs"
    by (rule live_write [OF assms(1) s(1)]) simp_all
  then show ?thesis using s(2) by (auto simp: am_nack_segment_def Let_def)
qed

lemma am_unaccount_sel [simp]:
  "mem (common (am_unaccount_retx e g)) = mem (common e)" "sn_field_length (am_unaccount_retx e g) = sn_field_length e"
  "tx_list (am_unaccount_retx e g) = tx_list e"
  by (simp_all add: am_unaccount_retx_def)

section \<open>The second pass\<close>

text \<open>The segments that are still in a list during the second pass.\<close>

definition ctl_segs :: "am_ctl \<Rightarrow> nr_rlc_sdu_segment list" where
  "ctl_segs s = tx_list (ctl s) @ wait_before s @ wait_cur s @ wait_after s @ retx_new s @ retx_cur s"

definition ctl_ok :: "int \<Rightarrow> am_ctl \<Rightarrow> bool" where
  "ctl_ok n s \<longleftrightarrow> live (mem (common (ctl s))) (ctl_segs s) \<and> sn_field_length (ctl s) = n"

lemma ctl_ok_sn: "ctl_ok n s \<Longrightarrow> g \<in> set (ctl_segs s) \<Longrightarrow> \<exists>sn. seg_sn (ctl s) g = Inr sn"
  unfolding ctl_ok_def using live_read [of "mem (common (ctl s))" "ctl_segs s" g] by (auto simp: seg_sn_def)

lemma am_wait_head_ok:
  assumes ok: "ctl_ok n s" and w: "wait_cur s = w # ws"
  shows "\<exists>g s'. am_wait_head ack nack w s = Inr (g, s') \<and> ctl_ok n s'"
proof -
  obtain a b c where nack: "nack = (a, b, c)" by (cases nack) auto
  have win: "w \<in> set (ctl_segs s)" using w by (simp add: ctl_segs_def)
  obtain sn where sn: "seg_sn (ctl s) w = Inr sn" using ctl_ok_sn [OF ok win] by blast
  have lv: "live (mem (common (ctl s))) (ctl_segs s)" using ok by (simp add: ctl_ok_def)
  obtain e1 where e1: "am_nack_segment (ctl s) w = Inr e1" "live (mem (common e1)) (ctl_segs s)" "sn_field_length e1 = n" "tx_list e1 = tx_list (ctl s)"
    using am_nack_segment_ok [OF lv win] ok by (auto simp: ctl_ok_def)
  have "live (mem (common (ctl s))) (w # tx_list (ctl s) @ wait_before s @ ws @ wait_after s @ retx_new s @ retx_cur s)"
    by (rule live_le [OF lv]) (simp add: ctl_segs_def w)
  from am_ack_segment_ok [OF this] obtain e2 where e2: "am_ack_segment (ctl s) w = Inr e2"
    "live (mem (common e2)) (tx_list (ctl s) @ wait_before s @ ws @ wait_after s @ retx_new s @ retx_cur s)"
    "sn_field_length e2 = n" "tx_list e2 = tx_list (ctl s)" using ok by (auto simp: ctl_ok_def)
  have k1: "ctl_ok n ((am_unlink_wait s w)\<lparr>ctl := e1, retx_new := retx_new s @ [w], retx_next := []\<rparr>)"
    using e1 by (auto simp: ctl_ok_def ctl_segs_def am_unlink_wait_def w elim!: live_le)
  have k2: "ctl_ok n ((am_unlink_wait s w)\<lparr>ctl := e2\<rparr>)"
    using e2 by (auto simp: ctl_ok_def ctl_segs_def am_unlink_wait_def w)
  have k3: "ctl_ok n (s\<lparr>wait_cur := [], wait_after := wait_cur s\<rparr>)"
    using ok by (auto simp: ctl_ok_def ctl_segs_def w elim!: live_le)
  have k4: "ctl_ok n (s\<lparr>wait_before := wait_before s @ [w], wait_cur := tl (wait_cur s)\<rparr>)"
    using ok by (auto simp: ctl_ok_def ctl_segs_def w elim!: live_le)
  show ?thesis
    using ok k1 k2 k3 k4 sn e1(1) e2(1) unfolding am_wait_head_def nack Let_def by auto
qed

lemma am_retx_head_ok:
  assumes ok: "ctl_ok n s" and r: "retx_cur s = r # rs"
  shows "\<exists>g s'. am_retx_head ack nack r s = Inr (g, s') \<and> ctl_ok n s'"
proof -
  obtain a b c where nack: "nack = (a, b, c)" by (cases nack) auto
  have rin: "r \<in> set (ctl_segs s)" using r by (simp add: ctl_segs_def)
  obtain sn where sn: "seg_sn (ctl s) r = Inr sn" using ctl_ok_sn [OF ok rin] by blast
  have lv: "live (mem (common (ctl s))) (ctl_segs s)" using ok by (simp add: ctl_ok_def)
  have "live (mem (common (am_unaccount_retx (ctl s) r))) (r # tx_list (ctl s) @ wait_before s @ wait_cur s @ wait_after s @ retx_new s @ rs)"
    unfolding am_unaccount_sel by (rule live_le [OF lv]) (simp add: ctl_segs_def r)
  from am_ack_segment_ok [OF this] obtain e2 where e2: "am_ack_segment (am_unaccount_retx (ctl s) r) r = Inr e2"
    "live (mem (common e2)) (tx_list (ctl s) @ wait_before s @ wait_cur s @ wait_after s @ retx_new s @ rs)"
    "sn_field_length e2 = n" "tx_list e2 = tx_list (ctl s)" using ok by (auto simp: ctl_ok_def)
  have k1: "ctl_ok n (s\<lparr>retx_new := retx_new s @ [r], retx_next := [], retx_cur := tl (retx_cur s)\<rparr>)"
    using ok by (auto simp: ctl_ok_def ctl_segs_def r elim!: live_le)
  have k2: "ctl_ok n (s\<lparr>ctl := e2, retx_cur := tl (retx_cur s)\<rparr>)"
    using e2 by (auto simp: ctl_ok_def ctl_segs_def r)
  have k3: "ctl_ok n (s\<lparr>retx_next := retx_cur s, retx_cur := []\<rparr>)"
    using ok by (auto simp: ctl_ok_def ctl_segs_def r elim!: live_le)
  show ?thesis
    using ok k1 k2 k3 sn e2(1) unfolding am_retx_head_def nack Let_def by auto
qed

lemma am_nack_step_ok:
  assumes "ctl_ok n s"
  shows "\<exists>g s'. am_nack_step ack nack s = Inr (g, s') \<and> ctl_ok n s'"
proof (cases "wait_cur s")
  case Nil
  then show ?thesis
    using assms am_retx_head_ok [OF assms] by (cases "retx_cur s") (auto simp: am_nack_step_def)
next
  case w: (Cons w ws)
  show ?thesis
  proof (cases "retx_cur s")
    case Nil
    then show ?thesis using am_wait_head_ok [OF assms w] w by (auto simp: am_nack_step_def)
  next
    case r: (Cons r rs)
    obtain a b where "seg_sn (ctl s) w = Inr a" "seg_sn (ctl s) r = Inr b"
      using ctl_ok_sn [OF assms, of w] ctl_ok_sn [OF assms, of r] w r by (auto simp: ctl_segs_def)
    then show ?thesis
      using am_wait_head_ok [OF assms w] am_retx_head_ok [OF assms r] w r by (auto simp: am_nack_step_def Let_def)
  qed
qed

lemma am_process_nack_ok:
  "ctl_ok n s \<Longrightarrow> \<exists>g s'. am_process_nack ack nack s = Inr (g, s') \<and> ctl_ok n s'"
proof (induction ack nack s rule: am_process_nack.induct)
  case (1 ack nack s)
  obtain g s1 where s1: "am_nack_step ack nack s = Inr (g, s1)" "ctl_ok n s1" using am_nack_step_ok [OF 1(2)] by blast
  show ?case
  proof (cases g)
    case Process_next_pdu
    then show ?thesis using 1(1) [OF s1(1)] s1 by (subst am_process_nack.simps) auto
  qed (use s1 in \<open>subst am_process_nack.simps, auto\<close>)+
qed

lemma am_process_range_ok:
  "ctl_ok n s \<Longrightarrow> \<exists>s'. am_process_range ack nk is s = Inr s' \<and> ctl_ok n s'"
proof (induction "is" arbitrary: s)
  case (Cons i "is")
  obtain g s1 where s1: "am_process_nack ack (am_nack_item (ctl s) nk (int i)) s = Inr (g, s1)" "ctl_ok n s1"
    using am_process_nack_ok [OF Cons.prems] by blast
  then show ?case using Cons.IH [OF s1(2)] by auto
qed simp

section \<open>The two readers of a status report\<close>

definition sn_length :: "nr_rlc_entity_am \<Rightarrow> bool" where
  "sn_length e \<longleftrightarrow> sn_field_length e = 12 \<or> sn_field_length e = 18"

text \<open>
  A checked read ends in \<open>goto err\<close> or goes on with the decoder further in the buffer:
  \<open>read_at buf p r\<close> says that the result \<open>r\<close> of a reader that started at bit \<open>p\<close> is of that kind.
\<close>

definition read_at :: "byte list \<Rightarrow> nat \<Rightarrow> ('a \<times> int \<times> nr_rlc_pdu_decoder) option res \<Rightarrow> bool" where
  "read_at buf p r \<longleftrightarrow> r = Inr None \<or> (\<exists>x e1 p'. r = Inr (Some (x, e1, dec_at buf p')) \<and> p < p' \<and> p' \<le> 8 * length buf)"

lemma read_at_get_R:
  assumes "p0 \<le> p" "p \<le> 8 * length buf" "1 \<le> n" "n \<le> 31"
    and k: "\<And>v q. p0 < q \<Longrightarrow> p0 \<le> q \<Longrightarrow> q \<le> 8 * length buf \<Longrightarrow> read_at buf p0 (k v (dec_at buf q))"
  shows "read_at buf p0 (get_R (dec_at buf p) n k)"
proof (rule get_bits_cases [OF assms(2,4)])
  fix v
  assume "nr_rlc_pdu_decoder_get_bits (dec_at buf p) n = Inr (v, dec_at buf (p + nat n))" "p + nat n \<le> 8 * length buf"
  then show ?thesis using k [of "p + nat n" v] assms(1,3) by (simp add: get_R_def)
next
  fix d assume "nr_rlc_pdu_decoder_get_bits (dec_at buf p) n = Inr (-1, d)" "d_error d"
  then show ?thesis by (simp add: get_R_def read_at_def)
qed

lemma read_at_if: "read_at buf p a \<Longrightarrow> read_at buf p b \<Longrightarrow> read_at buf p (if c then a else b)"
  by simp

lemma read_at_Some: "p < p' \<Longrightarrow> p' \<le> 8 * length buf \<Longrightarrow> read_at buf p (Inr (Some (x, e1, dec_at buf p')))"
  by (auto simp: read_at_def)

lemma read_at_None: "read_at buf p (Inr None)"
  by (simp add: read_at_def)

lemmas read_at_rules = read_at_get_R read_at_if read_at_Some read_at_None

lemma field_sizes:
  assumes "sn_length e"
  shows "1 \<le> sn_field_length e" "sn_field_length e \<le> 31"
    "1 \<le> (if sn_field_length e = 18 then 3 else 1 :: int)" "(if sn_field_length e = 18 then 3 else 1) \<le> (31 :: int)"
    "1 \<le> (if sn_field_length e = 18 then 1 else 7 :: int)" "(if sn_field_length e = 18 then 1 else 7) \<le> (31 :: int)"
  using assms by (auto simp: sn_length_def)

lemma am_check_nack_at:
  assumes "sn_length e" "p \<le> 8 * length buf"
  shows "read_at buf p (am_check_nack e (dec_at buf p))"
  unfolding am_check_nack_def Let_def
  by (intro read_at_rules field_sizes [OF assms(1)] assms(2)) (assumption | simp)+

lemma am_check_header_at:
  assumes "sn_length e"
  shows "read_at buf 0 (am_check_header e buf)"
  unfolding am_check_header_def decoder_init_at
  by (intro read_at_rules field_sizes [OF assms]) (assumption | simp)+

text \<open>What the checked reader accepts, the unchecked one reads.\<close>

definition agrees :: "'a option res \<Rightarrow> 'a res \<Rightarrow> bool" where
  "agrees a b \<longleftrightarrow> (\<forall>r. a = Inr (Some r) \<longrightarrow> b = Inr r)"

lemma agrees_get: "(\<And>v d. agrees (k v d) (k' v d)) \<Longrightarrow> agrees (get_R d n k) (get_N d n k')"
  by (auto simp: agrees_def get_R_def get_N_def res_simps split: if_splits)

lemma agrees_if: "agrees a a' \<Longrightarrow> agrees b b' \<Longrightarrow> agrees (if c then a else b) (if c then a' else b')"
  by simp

lemma agrees_err: "agrees b b' \<Longrightarrow> agrees (if c then Inr None else b) b'"
  by (simp add: agrees_def)

lemma agrees_Some: "agrees (Inr (Some r)) (Inr r)"
  by (simp add: agrees_def)

lemmas agrees_rules = agrees_get agrees_err agrees_if agrees_Some

lemma am_check_read_nack: "agrees (am_check_nack e d) (am_read_nack e d)"
  unfolding am_check_nack_def am_read_nack_def Let_def by (intro agrees_rules)

lemma am_check_read_header: "agrees (am_check_header e buf) (am_read_header e buf)"
  unfolding am_check_header_def am_read_header_def by (intro agrees_rules)

section \<open>Both loops end\<close>

text \<open>The NACKs that follow in the buffer are all accepted by the checked reader, up to the last one.\<close>

inductive valid_from :: "nr_rlc_entity_am \<Rightarrow> int \<Rightarrow> nr_rlc_pdu_decoder \<Rightarrow> bool" for e where
  last: "valid_from e 0 d"
| nack: "e1 \<noteq> 0 \<Longrightarrow> am_check_nack e d = Inr (Some (nk, e1', d')) \<Longrightarrow> valid_from e e1' d' \<Longrightarrow> valid_from e e1 d"

definition validate_step :: "nr_rlc_entity_am \<Rightarrow> int \<Rightarrow> bool \<times> int \<times> nr_rlc_pdu_decoder \<Rightarrow> (bool \<times> int \<times> nr_rlc_pdu_decoder) res" where
  "validate_step e ack_sn = (\<lambda>(ok, e1, d). res_bind (am_check_nack e d) (\<lambda>r.
     Inr (case r of
            None \<Rightarrow> (False, e1, d)
          | Some (n, e1, d) \<Rightarrow>
              (list_all (\<lambda>i. am_nack_accepted e ack_sn (-1) 0 (am_nack_item e n (int i))) [0..<nat (nk_range n)], e1, d))))"

lemma am_validate_nacks_eq:
  "am_validate_nacks e ack_sn e1 d =
     res_bind (while_res (\<lambda>(ok, e1, d). Inr (ok \<and> e1 \<noteq> 0)) (validate_step e ack_sn) (True, e1, d)) (\<lambda>(ok, _). Inr ok)"
  by (simp add: am_validate_nacks_def validate_step_def)

lemma validate_loop:
  assumes e: "sn_length e"
  shows "p \<le> 8 * length buf \<Longrightarrow>
    \<exists>ok e1' d'. while_res (\<lambda>(ok, e1, d). Inr (ok \<and> e1 \<noteq> 0)) (validate_step e ack_sn) (True, e1, dec_at buf p) = Inr (ok, e1', d')
      \<and> (ok \<longrightarrow> valid_from e e1 (dec_at buf p))"
proof (induction "8 * length buf - p" arbitrary: p e1 rule: less_induct)
  case less
  let ?b = "\<lambda>(ok, e1, d :: nr_rlc_pdu_decoder). Inr (ok \<and> e1 \<noteq> (0 :: int))"
  have stop: "while_res ?b (validate_step e ack_sn) (False, x, d) = Inr (False, x, d)" for x d
    by (subst while_res_unfold) simp
  show ?case
  proof (cases "e1 = 0")
    case True
    then show ?thesis by (subst while_res_unfold) (auto simp: valid_from.last)
  next
    case False
    consider "am_check_nack e (dec_at buf p) = Inr None"
      | nk e1' p' where "am_check_nack e (dec_at buf p) = Inr (Some (nk, e1', dec_at buf p'))" "p < p'" "p' \<le> 8 * length buf"
      using am_check_nack_at [OF e less.prems] by (auto simp: read_at_def)
    then show ?thesis
    proof cases
      case 1
      have "validate_step e ack_sn (True, e1, dec_at buf p) = Inr (False, e1, dec_at buf p)"
        using 1 by (simp add: validate_step_def)
      then show ?thesis using False stop by (subst while_res_unfold) auto
    next
      case 2
      let ?ok = "list_all (\<lambda>i. am_nack_accepted e ack_sn (-1) 0 (am_nack_item e nk (int i))) [0..<nat (nk_range nk)]"
      have step: "validate_step e ack_sn (True, e1, dec_at buf p) = Inr (?ok, e1', dec_at buf p')"
        using 2(1) by (simp add: validate_step_def)
      show ?thesis
      proof (cases ?ok)
        case True
        have "8 * length buf - p' < 8 * length buf - p" using 2(2,3) by simp
        from less.hyps [OF this 2(3), of e1'] obtain ok x d' where
          "while_res ?b (validate_step e ack_sn) (True, e1', dec_at buf p') = Inr (ok, x, d')" "ok \<longrightarrow> valid_from e e1' (dec_at buf p')"
          by blast
        then show ?thesis
          using False step True valid_from.nack [OF False 2(1)] by (subst while_res_unfold) auto
      next
        case notok: False
        then show ?thesis using False step stop by (subst while_res_unfold) auto
      qed
    qed
  qed
qed

text \<open>The checked reader depends on the entity only through the size of a sequence number.\<close>

lemma am_check_nack_cong: "sn_field_length e' = sn_field_length e \<Longrightarrow> am_check_nack e' = am_check_nack e"
  by (simp add: am_check_nack_def fun_eq_iff)

lemma am_nack_stops_poll_ok: "ctl_ok n s \<Longrightarrow> ctl_ok n (s\<lparr>ctl := am_nack_stops_poll nk (ctl s)\<rparr>)"
  by (simp add: ctl_ok_def ctl_segs_def am_nack_stops_poll_def)

lemma am_process_nacks_ok:
  assumes "valid_from e e1 d" "ctl_ok (sn_field_length e) s"
  shows "\<exists>s'. am_process_nacks ack e1 d s = Inr s' \<and> ctl_ok (sn_field_length e) s'"
proof -
  let ?b = "\<lambda>(e1, d :: nr_rlc_pdu_decoder, s :: am_ctl). Inr (e1 \<noteq> (0 :: int))"
  let ?c = "\<lambda>(e1, d, s). res_bind (am_read_nack (ctl s) d) (\<lambda>(n, e1, d).
          res_bind (am_process_range ack n [0..<nat (nk_range n)] s) (\<lambda>s.
          Inr (e1, d, s\<lparr>ctl := am_nack_stops_poll n (ctl s)\<rparr>)))"
  have "\<exists>x y s'. while_res ?b ?c (e1, d, s) = Inr (x, y, s') \<and> ctl_ok (sn_field_length e) s'"
    using assms
  proof (induction arbitrary: s rule: valid_from.induct)
    case (last d)
    then show ?case by (subst while_res_unfold) simp
  next
    case (nack e1 d nk e1' d')
    have "am_check_nack (ctl s) d = Inr (Some (nk, e1', d'))"
      using nack.hyps(2) nack.prems am_check_nack_cong [of "ctl s" e] by (simp add: ctl_ok_def)
    then have rd: "am_read_nack (ctl s) d = Inr (nk, e1', d')"
      using am_check_read_nack [of "ctl s" d] by (simp add: agrees_def)
    obtain s1 where s1: "am_process_range ack nk [0..<nat (nk_range nk)] s = Inr s1" "ctl_ok (sn_field_length e) s1"
      using am_process_range_ok [OF nack.prems] by blast
    have "while_res ?b ?c (e1, d, s) = while_res ?b ?c (e1', d', s1\<lparr>ctl := am_nack_stops_poll nk (ctl s1)\<rparr>)"
      using nack.hyps(1) rd s1(1) by (subst while_res_unfold) simp
    then show ?case using nack.IH [OF am_nack_stops_poll_ok [OF s1(2), of nk]] by (simp only:)
  qed
  then show ?thesis by (auto simp: am_process_nacks_def)
qed

lemma am_ack_wait_ok:
  "ctl_ok n s \<Longrightarrow> wait_cur s = l \<Longrightarrow> \<exists>s'. am_ack_wait ack l s = Inr s' \<and> ctl_ok n s'"
proof (induction l arbitrary: s)
  case (Cons w ws)
  have lv: "live (mem (common (ctl s))) (ctl_segs s)" using Cons.prems(1) by (simp add: ctl_ok_def)
  obtain sn where sn: "seg_sn (ctl s) w = Inr sn"
    using ctl_ok_sn [OF Cons.prems(1), of w] Cons.prems(2) by (auto simp: ctl_segs_def)
  have "live (mem (common (ctl s))) (w # tx_list (ctl s) @ wait_before s @ ws @ wait_after s @ retx_new s @ retx_cur s)"
    by (rule live_le [OF lv]) (simp add: ctl_segs_def Cons.prems(2))
  from am_ack_segment_ok [OF this] obtain e2 where e2: "am_ack_segment (ctl s) w = Inr e2"
    "live (mem (common e2)) (tx_list (ctl s) @ wait_before s @ ws @ wait_after s @ retx_new s @ retx_cur s)"
    "sn_field_length e2 = n" "tx_list e2 = tx_list (ctl s)" using Cons.prems(1) by (auto simp: ctl_ok_def)
  have "ctl_ok n ((am_unlink_wait s w)\<lparr>ctl := e2\<rparr>)" "wait_cur ((am_unlink_wait s w)\<lparr>ctl := e2\<rparr>) = ws"
    using e2 Cons.prems(2) by (auto simp: ctl_ok_def ctl_segs_def am_unlink_wait_def)
  then show ?case using Cons.IH Cons.prems(1) sn e2(1) by simp
qed simp

lemma am_ack_retx_ok:
  "ctl_ok n s \<Longrightarrow> retx_cur s = l \<Longrightarrow> \<exists>s'. am_ack_retx ack l s = Inr s' \<and> ctl_ok n s'"
proof (induction l arbitrary: s)
  case (Cons r rs)
  have lv: "live (mem (common (ctl s))) (ctl_segs s)" using Cons.prems(1) by (simp add: ctl_ok_def)
  obtain sn where sn: "seg_sn (ctl s) r = Inr sn"
    using ctl_ok_sn [OF Cons.prems(1), of r] Cons.prems(2) by (auto simp: ctl_segs_def)
  have "live (mem (common (am_unaccount_retx (ctl s) r))) (r # tx_list (ctl s) @ wait_before s @ wait_cur s @ wait_after s @ retx_new s @ rs)"
    unfolding am_unaccount_sel by (rule live_le [OF lv]) (simp add: ctl_segs_def Cons.prems(2))
  from am_ack_segment_ok [OF this] obtain e2 where e2: "am_ack_segment (am_unaccount_retx (ctl s) r) r = Inr e2"
    "live (mem (common e2)) (tx_list (ctl s) @ wait_before s @ wait_cur s @ wait_after s @ retx_new s @ rs)"
    "sn_field_length e2 = n" "tx_list e2 = tx_list (ctl s)" using Cons.prems(1) by (auto simp: ctl_ok_def)
  have "ctl_ok n (s\<lparr>ctl := e2, retx_cur := tl (retx_cur s)\<rparr>)" "retx_cur (s\<lparr>ctl := e2, retx_cur := tl (retx_cur s)\<rparr>) = rs"
    using e2 Cons.prems(2) by (auto simp: ctl_ok_def ctl_segs_def)
  then show ?case using Cons.IH Cons.prems(1) sn e2(1) by simp
qed simp

section \<open>No status report harms a transmitter\<close>

definition am_segs :: "nr_rlc_entity_am \<Rightarrow> nr_rlc_sdu_segment list" where
  "am_segs e = tx_list e @ wait_list e @ retransmit_list e"

definition am_tx_ok :: "nr_rlc_entity_am \<Rightarrow> bool" where
  "am_tx_ok e \<longleftrightarrow> live (mem (common e)) (am_segs e) \<and> sn_length e"

lemma am_ctl_finish_ok:
  assumes "ctl_ok n s" "n = 12 \<or> n = 18"
  shows "am_tx_ok (am_ctl_finish s)"
proof -
  have "am_segs (am_ctl_finish s) = ctl_segs s" "mem (common (am_ctl_finish s)) = mem (common (ctl s))"
    "sn_field_length (am_ctl_finish s) = sn_field_length (ctl s)"
    by (auto simp: am_segs_def ctl_segs_def am_ctl_finish_def Let_def split: option.splits)
  then show ?thesis using assms by (simp add: am_tx_ok_def ctl_ok_def sn_length_def)
qed

lemma am_update_tx_next_ack_ok:
  assumes "am_tx_ok e"
  shows "\<exists>e'. am_update_tx_next_ack ack e = Inr e' \<and> am_tx_ok e'"
proof -
  have sn: "\<exists>n. seg_sn e g = Inr n" if "g \<in> set (am_segs e)" for g
  proof -
    have "live (mem (common e)) (am_segs e)" using assms by (simp add: am_tx_ok_def)
    then show ?thesis using live_read [OF _ that] by (fastforce simp: seg_sn_def)
  qed
  have low: "\<exists>b. (case l of [] \<Rightarrow> Inr a | seg # _ \<Rightarrow> res_bind (seg_sn e seg) (\<lambda>sn. Inr (if am_sn_compare_tx e sn a < 0 then sn else a))) = Inr b"
    if "set l \<subseteq> set (am_segs e)" for l a
  proof (cases l)
    case (Cons g l')
    then have "g \<in> set (am_segs e)" using that by simp
    then obtain n where "seg_sn e g = Inr n" using sn by blast
    then show ?thesis using Cons by simp
  qed simp
  have sub: "set (wait_list e) \<subseteq> set (am_segs e)" "set (retransmit_list e) \<subseteq> set (am_segs e)" by (auto simp: am_segs_def)
  obtain b where b: "(case wait_list e of [] \<Rightarrow> Inr (tx_next e) | seg # _ \<Rightarrow> res_bind (seg_sn e seg)
      (\<lambda>sn. Inr (if am_sn_compare_tx e sn (tx_next e) < 0 then sn else tx_next e))) = Inr b"
    using low [OF sub(1), of "tx_next e"] by blast
  obtain c where "(case retransmit_list e of [] \<Rightarrow> Inr b | seg # _ \<Rightarrow> res_bind (seg_sn e seg)
      (\<lambda>sn. Inr (if am_sn_compare_tx e sn b < 0 then sn else b))) = Inr c"
    using low [OF sub(2), of b] by blast
  then show ?thesis
    using assms b unfolding am_update_tx_next_ack_def Let_def by (simp add: am_tx_ok_def am_segs_def sn_length_def)
qed

lemma am_process_control_pdu_ok:
  assumes ok: "am_tx_ok e"
  shows "\<exists>e'. am_process_control_pdu e buf = Inr e' \<and> am_tx_ok e'"
proof -
  have e: "sn_length e" using ok by (simp add: am_tx_ok_def)
  consider "am_check_header e buf = Inr None"
    | ack e1 p where "am_check_header e buf = Inr (Some (ack, e1, dec_at buf p))" "p \<le> 8 * length buf"
    using am_check_header_at [OF e, of buf] by (auto simp: read_at_def)
  then show ?thesis
  proof cases
    case 1
    then show ?thesis using ok by (simp add: am_process_control_pdu_def)
  next
    case 2
    obtain v where v: "am_validate_nacks e ack e1 (dec_at buf p) = Inr v" "v \<longrightarrow> valid_from e e1 (dec_at buf p)"
      using validate_loop [OF e 2(2), of ack e1] by (auto simp: am_validate_nacks_eq)
    show ?thesis
    proof (cases "am_sn_compare_tx e ack (tx_next e) > 0 \<or> \<not> v")
      case True
      then show ?thesis using ok 2 v(1) by (auto simp: am_process_control_pdu_def)
    next
      case False
      have rd: "am_read_header e buf = Inr (ack, e1, dec_at buf p)"
        using am_check_read_header [of e buf] 2(1) by (simp add: agrees_def)
      define e0 where "e0 = (if am_sn_compare_tx e (poll_sn e) ack < 0 then e\<lparr>t_poll_retransmit_start := 0\<rparr> else e)"
      have "ctl_ok (sn_field_length e) (am_ctl_init e0)"
        using ok by (simp add: ctl_ok_def ctl_segs_def am_ctl_init_def am_tx_ok_def am_segs_def e0_def)
      then obtain s1 where s1: "am_process_nacks ack e1 (dec_at buf p) (am_ctl_init e0) = Inr s1" "ctl_ok (sn_field_length e) s1"
        using am_process_nacks_ok [of e e1 "dec_at buf p" "am_ctl_init e0" ack] v(2) False by blast
      obtain s2 where s2: "am_ack_wait ack (wait_cur s1) s1 = Inr s2" "ctl_ok (sn_field_length e) s2"
        using am_ack_wait_ok [OF s1(2) refl] by blast
      obtain s3 where s3: "am_ack_retx ack (retx_cur s2) s2 = Inr s3" "ctl_ok (sn_field_length e) s3"
        using am_ack_retx_ok [OF s2(2) refl] by blast
      have "am_tx_ok (am_ctl_finish s3)" by (rule am_ctl_finish_ok [OF s3(2)]) (use e in \<open>simp add: sn_length_def\<close>)
      from am_update_tx_next_ack_ok [OF this, of ack]
      show ?thesis
        using False 2(1) v(1) rd s1(1) s2(1) s3(1) unfolding am_process_control_pdu_def e0_def by simp
    qed
  qed
qed

section \<open>Runs of a transmitter\<close>

datatype am_op = Am_sdu "byte list" | Am_grant nat | Am_pdu "byte list" | Am_time u64

definition am_op_step :: "nr_rlc_entity_am \<Rightarrow> am_op \<Rightarrow> nr_rlc_entity_am res" where
  "am_op_step e op =
     (case op of
        Am_sdu b \<Rightarrow> nr_rlc_entity_am_recv_sdu 0 e b 0
      | Am_grant n \<Rightarrow> res_bind (nr_rlc_entity_am_generate_pdu 0 e (replicate n 0)) (\<lambda>(_, _, e). Inr e)
      | Am_pdu b \<Rightarrow> nr_rlc_entity_am_recv_pdu e b
      | Am_time now \<Rightarrow> nr_rlc_entity_am_set_time e now)"

fun am_run :: "nr_rlc_entity_am \<Rightarrow> am_op list \<Rightarrow> nr_rlc_entity_am res" where
  "am_run e [] = Inr e"
| "am_run e (op # ops) = res_bind (am_op_step e op) (\<lambda>e. am_run e ops)"

definition am_demo :: "nr_rlc_entity_am res" where
  "am_demo = new_nr_rlc_entity_am 100 100 10 10 0 1000 1000 8 12"

text \<open>The new entity, with its average and its reception window left open.\<close>

definition am_fresh :: "time_average \<Rightarrow> nr_rlc_rx_manager \<Rightarrow> nr_rlc_entity_am" where
  "am_fresh t r = \<lparr>common = \<lparr>calls = [], bstatus = \<lparr>bs_status_size = 0, bs_tx_size = 0, bs_retx_size = 0\<rparr>,
          stats = zero_stats NR_RLC_AM, txsdu_avg_time_to_tx = t, avg_time_is_on = False,
          mem = \<lparr>sdus = Map.empty, brk = 0\<rparr>\<rparr>, t_poll_retransmit = 10, t_reassembly = 10,
     t_status_prohibit = 0, poll_pdu = 1000, poll_byte = 1000, max_retx_threshold = 8,
     sn_field_length = 12, sn_modulus = 4096, window_size = 2048, rx_next = 0,
     rx_next_status_trigger = 0, rx_highest_status = 0, rx_next_highest = 0,
     status_triggered = False, tx_next = 0, tx_next_ack = 0, poll_sn = 0,
     pdu_without_poll = 0, byte_without_poll = 0, force_poll = False, t_current = 0,
     t_log_buffer_full = 0, sdu_rejected = 0, t_poll_retransmit_start = 0,
     t_reassembly_start = 0, t_status_prohibit_start = 0, rx = r, rx_size = 0,
     rx_maxsize = 500, tx_list = [], tx_end = None, tx_size = 0,
     tx_maxsize = 500, wait_list = [], wait_end = None, retransmit_list = []\<rparr>"

lemma am_demo_fresh: "\<exists>t r. am_demo = Inr (am_fresh t r)"
  by (simp add: am_demo_def new_nr_rlc_entity_am_def new_common_def time_average_new_def am_fresh_def res_simps push_bit_eq_mult)

definition am_demo_ops :: "am_op list" where
  "am_demo_ops = [Am_time 1, Am_sdu [1, 2, 3, 4, 5, 6], Am_sdu [7], Am_grant 5, Am_grant 7, Am_grant 3]"

lemma am_demo_sent:
  "map_sum id (\<lambda>e. (am_tx_ok e, length (wait_list e), tx_size e)) (am_run (am_fresh t r) am_demo_ops) = Inr (True, 3, 7)"
  by code_simp

section \<open>Status reports\<close>

text \<open>
  (C23) No sequence of status reports, however malformed or hostile, makes an acknowledged-mode
  transmitter fault: whatever bytes arrive, both passes over each report end, no SDU is read
  or freed after it has been freed, and every segment left in a list still has its SDU.
\<close>

theorem am_status_reports_harmless:
  assumes "am_tx_ok e"
  shows "\<exists>e'. foldl (\<lambda>r buf. res_bind r (\<lambda>e. am_process_control_pdu e buf)) (Inr e) reports = Inr e' \<and> am_tx_ok e'"
  using assms
proof (induction reports arbitrary: e)
  case (Cons buf reports)
  obtain e1 where "am_process_control_pdu e buf = Inr e1" "am_tx_ok e1" using am_process_control_pdu_ok [OF Cons.prems] by blast
  then show ?case using Cons.IH [of e1] by simp
qed simp

theorem am_status_reports_harmless_witness:
  "\<exists>e e'. res_bind am_demo (\<lambda>e. am_run e am_demo_ops) = Inr e \<and> length (wait_list e) = 3 \<and> am_tx_ok e
     \<and> foldl (\<lambda>r buf. res_bind r (\<lambda>e. am_process_control_pdu e buf)) (Inr e)
          [[0, 2, 128, 0, 4, 0, 0, 0, 2], [0, 1], [255, 255, 255]] = Inr e' \<and> am_tx_ok e'"
proof -
  obtain t r where d: "am_demo = Inr (am_fresh t r)" using am_demo_fresh by blast
  obtain e where e: "am_run (am_fresh t r) am_demo_ops = Inr e" "am_tx_ok e" "length (wait_list e) = 3"
    using am_demo_sent [of t r] by (cases "am_run (am_fresh t r) am_demo_ops") auto
  have "res_bind am_demo (\<lambda>e. am_run e am_demo_ops) = Inr e" unfolding d by (simp add: e(1) res_simps)
  then show ?thesis
    using e(2,3) am_status_reports_harmless [of e "[[0, 2, 128, 0, 4, 0, 0, 0, 2], [0, 1], [255, 255, 255]]"] by blast
qed

section \<open>The lost retransmission\<close>

text \<open>
  After \<open>am_demo_ops\<close>: the peer asks twice for the first three bytes of SDU 0, then reports
  its last three bytes as missing and acknowledges nothing.
\<close>

definition am_lossy_ops :: "am_op list" where
  "am_lossy_ops = am_demo_ops @ [Am_pdu [0, 2, 128, 0, 4, 0, 0, 0, 2], Am_grant 5,
     Am_pdu [0, 1, 128, 0, 4, 0, 0, 0, 2]]"

definition am_last_report :: "byte list" where
  "am_last_report = [0, 0, 128, 0, 4, 0, 3, 0, 5]"

lemma am_lossy_run:
  "map_sum id (\<lambda>e. (length (retransmit_list e), map_sum id (\<lambda>e.
       (wait_list e, retransmit_list e, tx_list e, tx_size e, bs_retx_size (bstatus (common e)),
        calls (common e), case nr_rlc_entity_am_set_time e 100 of Inl f \<Rightarrow> Some f | Inr _ \<Rightarrow> None))
       (nr_rlc_entity_am_recv_pdu e am_last_report)))
     (am_run (am_fresh t r) am_lossy_ops)
   = Inr (1, Inr ([], [], [], 6, 5, [Sdu_successful_delivery 0], Some Null_deref))"
  by code_simp

text \<open>
  (C24) A status report can make the transmitter lose a segment and then crash. In a run of a
  new entity the first half of SDU 0 is waiting for retransmission when a status report NACKs
  the second half of that SDU without acknowledging it: \<open>process_control_pdu\<close> drops the
  retransmission list, so the bytes stay counted in \<open>tx_size\<close> and in the buffer status but are
  in no list and will never be sent. The poll timer is still running; when it expires,
  \<open>check_t_poll_retransmit\<close> dereferences the head of the empty wait list.
\<close>

theorem am_status_loses_retransmission:
  "\<exists>e g e'. res_bind am_demo (\<lambda>e. am_run e am_lossy_ops) = Inr e \<and> retransmit_list e = [g]
     \<and> nr_rlc_entity_am_recv_pdu e am_last_report = Inr e'
     \<and> am_segs e' = [] \<and> tx_size e' = 6 \<and> bs_retx_size (bstatus (common e')) = 5
     \<and> nr_rlc_entity_am_set_time e' 100 = Inl Null_deref"
proof -
  obtain t r where d: "am_demo = Inr (am_fresh t r)" using am_demo_fresh by blast
  obtain e where e: "am_run (am_fresh t r) am_lossy_ops = Inr e" "length (retransmit_list e) = 1"
    using am_lossy_run [of t r] by (cases "am_run (am_fresh t r) am_lossy_ops") auto
  then obtain g where g: "retransmit_list e = [g]" by (auto simp: length_Suc_conv)
  have "res_bind am_demo (\<lambda>e. am_run e am_lossy_ops) = Inr e" unfolding d by (simp add: e(1) res_simps)
  moreover obtain e' where "nr_rlc_entity_am_recv_pdu e am_last_report = Inr e'" "am_segs e' = []" "tx_size e' = 6"
      "bs_retx_size (bstatus (common e')) = 5" "nr_rlc_entity_am_set_time e' 100 = Inl Null_deref"
    using am_lossy_run [of t r] e(1)
    by (cases "nr_rlc_entity_am_recv_pdu e am_last_report") (auto simp: am_segs_def split: sum.splits)
  ultimately show ?thesis using g by blast
qed

end
