(* ===== verification/Spec2Isabelle.thy ===== *)
theory Spec2Isabelle
  imports PDCP_Channel PDCP_Layer PDCP_Queue SDAP_Filter SDAP_Entity SDAP_Layer SDAP_Flows Seq_Arr Time_Stat RLC_Pdu RLC_Common RLC_Requests RLC_TM SN_Window RLC_Reassembly RLC_UM RLC_UM_Rx RLC_UM_Tx RLC_UM_Channel RLC_Rx_Manager RLC_AM
    RLC_AM_Control RLC_AM_Status RLC_AM_Entity RLC_AM_Tx
begin

text \<open>
  Verification of the user plane of OpenAirInterface's 5G stack: the RLC, PDCP and SDAP layers of
  \<open>src/openair2/LAYER2/nr_rlc\<close>, \<open>src/openair2/LAYER2/nr_pdcp\<close> and \<open>src/openair2/SDAP/nr_sdap\<close>,
  and the utilities and ciphers they use.

  \<^bold>\<open>The program.\<close> A packet of a QoS flow goes to an SDAP entity, one per PDU session
  of a user, which selects the bearer and may add a header (\<open>nr_sdap_entity.c\<close>), and on the user side
  classifies uplink packets by QoS rules (\<open>nr_sdap_qos_rule.c\<close>). From SDAP or RRC it goes to a PDCP entity, which numbers, protects
  and ciphers it (\<open>nr_pdcp_entity.c\<close>), and from there to an RLC entity, which cuts it into the
  pieces the MAC grants room for (\<open>nr_rlc_entity_tm.c\<close>, \<open>_um.c\<close>, \<open>_am.c\<close>). On the other side RLC
  puts the pieces together again and, in acknowledged mode, asks for the missing ones; PDCP
  recovers the number, deciphers, checks the integrity, removes duplicates and restores the
  order. A user has up to three signalling and 32 data bearers, each with a PDCP and an RLC
  entity (\<open>nr_pdcp_ue_manager.c\<close>, \<open>nr_pdcp_oai_api.c\<close>); a timer thread moves their clocks.

  \<^bold>\<open>Conventions.\<close> A C \<open>int\<close> is an \<^typ>\<open>int\<close>; the integers that wrap on purpose (COUNT, time,
  statistics, cipher state) are words of their width. A pointer with a length is a list of
  bytes. A linked list is a list, with the address of its last node where the code keeps one.
  Objects that are shared (the SDU of several RLC segments, the entity a bearer slot points to)
  live in a store, so that a use after free is a value of the result. \<open>exit\<close>, \<open>AssertFatal\<close>, an
  access out of bounds, a null pointer, a use after free and a loop that does not end are the
  values of the type \<open>fault\<close> of \<open>RAN_Prelude\<close>; a function that may fail returns
  \<open>fault + result\<close>. Loops are structural recursions, functions with a termination proof, or
  \<open>while_res\<close>, whose value \<open>Infinite_loop\<close> stands for a run that does not end: no loop has fuel.
  What a layer hands to its neighbours through callbacks is a trace of the entity.

  \<^bold>\<open>The theories.\<close>
  \<^item> \<open>RAN_Prelude\<close>: faults and their monad, C arrays, loops, remainder.
  \<^item> \<open>Time_Stat\<close>: the windowed average of \<open>time_stat.c\<close>; the ring buffer refines a list, and the average is
    the mean of the samples in the window.
  \<^item> \<open>Seq_Arr\<close>: the growable array of \<open>seq_arr.c\<close> and the search of \<open>find.c\<close>. The locale \<open>seq_container\<close> is the
    contract of a sequence, and the array, interpreted there, implements a list; its loops end.
  \<^item> \<open>RLC_Pdu\<close>: the bit-level header encoder and decoder of \<open>nr_rlc_pdu.c\<close>; they are inverse and
    stay in the buffer.
  \<^item> \<open>RLC_Common\<close>: SDUs and segments with reference counts (\<open>nr_rlc_sdu.c\<close>), the common part of an
    entity (\<open>nr_rlc_entity.c\<close>). \<open>RLC_Requests\<close>: the abstract bounded queues of SDUs that the modes
    refine.
  \<^item> \<open>RLC_TM\<close>: transparent mode refines a queue of SDUs and frees everything it allocates.
  \<^item> \<open>SN_Window\<close>: comparison of sequence numbers modulo the window. \<open>RLC_Reassembly\<close>: the scans and
    the copy loop that both segmenting modes use; a complete set of segments gives the SDU back.
  \<^item> \<open>RLC_UM\<close>, \<open>RLC_UM_Rx\<close>, \<open>RLC_UM_Tx\<close>, \<open>RLC_UM_Channel\<close>: unacknowledged mode. The receiver
    survives any input; transmitter and receiver together refine a segmenting queue; the
    accounting errors of discard, of small grants and of the reassembly timer.
  \<^item> \<open>RLC_Rx_Manager\<close>, \<open>RLC_AM\<close>, \<open>RLC_AM_Control\<close>, \<open>RLC_AM_Status\<close>, \<open>RLC_AM_Entity\<close>, \<open>RLC_AM_Tx\<close>:
    acknowledged mode, every operation of \<open>nr_rlc_entity_am.c\<close>. No status report makes the
    transmitter fault; a run in which one loses a segment and the poll timer then crashes.
  \<^item> \<open>Snow3G_Tables\<close>, \<open>Snow3G\<close>: the cipher of \<open>snow3g.c\<close>. \<open>PDCP_Security\<close>: the stream ciphers and
    integrity functions of \<open>openair3/SECU\<close> and of the \<open>nr_pdcp_security\<close> and \<open>nr_pdcp_integrity\<close>
    files. AES is not under \<open>src/\<close>: it is the parameter \<open>aes\<close>, with the hypothesis \<open>aes_ok\<close>.
  \<^item> \<open>PDCP_Sdu\<close>, \<open>PDCP_Entity\<close>, \<open>PDCP_Count\<close>, \<open>PDCP_Rx\<close>, \<open>PDCP_Channel\<close>: a PDCP entity. COUNT is
    recovered from the sequence number, delivery is in order without duplicates, and over a
    network that loses, duplicates and reorders, what is delivered was sent.
  \<^item> \<open>PDCP_Manager\<close>, \<open>PDCP_Layer\<close>: users and bearers, the functions other layers call, the timer
    thread. The invariant \<open>layer_ok\<close> is kept by every call; users with more than five data bearers
    leak entities and have timers that never run.
  \<^item> \<open>PDCP_Queue\<close>: the queues between the RLC and PDCP threads, as a step relation over all
    interleavings. Order is kept, no slot is overwritten while in use, no wake-up is lost.
  \<^item> \<open>SDAP_Filter\<close>: the packet filters and rules of \<open>nr_sdap_qos_rule.c\<close>; matching stays inside the packet,
    and IPv6 prefixes are compared bit by bit. \<open>SDAP_Entity\<close>: the entities of \<open>nr_sdap_entity.c\<close> and the entry
    points of \<open>nr_sdap.c\<close>, which call PDCP through \<open>PDCP_Manager\<close>. \<open>SDAP_Layer\<close>: every operation keeps the
    invariant \<open>sdap_ok\<close>. \<open>SDAP_Flows\<close>: the best rule wins, the header is undone at the other
    side, reception is safe, deletion is exact; the double end marker of reflective mapping, the assertion that an unmarked
    packet can fail, the default bearer that survives its release. \<open>qsort\<close> of the C library is a
    parameter, with the hypothesis \<open>qsort_ok\<close>.

  \<^bold>\<open>Not modelled.\<close> The physical layer, the schedulers and the RRC, NAS and interface protocols
  (F1AP, E1AP, NGAP, XnAP and their ASN.1 encoders, which are generated and not under \<open>src/\<close>),
  the LTE stack, the radio drivers and the simulators are separate programs around these
  layers. Of the layers modelled, the threads that read and poll TUN devices are input and output (the
  handling of one packet is modelled), logging and tracing have no effect on the state, mutexes are
  represented by the atomicity of the functions that hold them, and allocation does not fail.
\<close>

end
